(* ===== verification/Prelude.thy ===== *)
theory Prelude
  imports Main "HOL-Library.Word" "HOL-Library.Monad_Syntax"
begin

text \<open>
  Shared vocabulary of the development: the machine types of the RV32 target (where
  \<^verbatim>\<open>size_t\<close>, \<^verbatim>\<open>uintptr_t\<close> and \<^verbatim>\<open>unsigned long\<close> are 32 bits wide), byte reads that
  fail outside the buffer, the network byte order helpers, \<^verbatim>\<open>memcpy\<close> into a byte
  buffer, the \<^verbatim>\<open>ROUND_UP\<close> macro, and the generic lemmas on words and lists that the
  component theories share. The collection \<open>emz_frame\<close> gathers the equations that
  say which part of the state an operation leaves alone.
\<close>

unbundle bit_operations_syntax

named_theorems emz_frame "operations that leave a part of the state unchanged"

type_synonym u8 = "8 word"
type_synonym u16 = "16 word"
type_synonym u32 = "32 word"
type_synonym u64 = "64 word"

section \<open>Words\<close>

text \<open>\<^verbatim>\<open>BIT(n)\<close> of the kernel's \<^verbatim>\<open>sys/util.h\<close>.\<close>

abbreviation BIT :: "nat \<Rightarrow> u32" where
  "BIT n \<equiv> push_bit n 1"

lemma unat_add_no_wrap:
  fixes a b :: "'a::len word"
  assumes "unat a + unat b < 2 ^ LENGTH('a)"
  shows "unat (a + b) = unat a + unat b"
  using assms by (simp add: unat_word_ariths)

lemma unat_mult_no_wrap:
  fixes a b :: "'a::len word"
  assumes "unat a * unat b < 2 ^ LENGTH('a)"
  shows "unat (a * b) = unat a * unat b"
  using assms by (simp add: unat_word_ariths)

lemma unat_less_exp: "unat (a :: 'a::len word) < 2 ^ LENGTH('a)"
  by (rule unsigned_less)

lemma unat_Suc_word:
  fixes a :: "'a::len word"
  assumes "unat a + 1 < 2 ^ LENGTH('a)"
  shows "unat (a + 1) = unat a + 1"
  using assms by (simp add: unat_word_ariths)

lemma unat_pred_word:
  fixes a :: "'a::len word"
  assumes "0 < unat a"
  shows "unat (a - 1) = unat a - 1"
  using assms by (metis One_nat_def Suc_leI unat_1 unat_sub word_le_nat_alt)

lemma of_nat_pred_word:
  fixes n :: nat
  assumes "0 < n"
  shows "(of_nat n :: 'a::len word) - 1 = of_nat (n - 1)"
  using assms by (cases n) auto

lemma unat_of_nat32 [simp]: "n < 4294967296 \<Longrightarrow> unat (of_nat n :: u32) = n"
  by (simp add: unat_of_nat take_bit_eq_mod)

lemma of_nat32_le_iff:
  assumes "m < 4294967296" and "n < 4294967296"
  shows "(of_nat m :: u32) \<le> of_nat n \<longleftrightarrow> m \<le> n"
  using assms by (simp add: word_le_nat_alt)

lemma word_and_mask_le:
  fixes a m :: "'a::len word"
  shows "a AND m \<le> m"
  by (rule word_and_le1)

section \<open>Byte buffers\<close>

text \<open>
  A byte buffer is a list. Reading index \<open>i\<close> is \<open>None\<close> outside the buffer: a read
  that C leaves undefined.
\<close>

definition rd8 :: "u8 list \<Rightarrow> nat \<Rightarrow> u8 option" where
  "rd8 b i = (if i < length b then Some (b ! i) else None)"

lemma rd8_Some [simp]: "i < length b \<Longrightarrow> rd8 b i = Some (b ! i)"
  by (simp add: rd8_def)

lemma rd8_None [simp]: "length b \<le> i \<Longrightarrow> rd8 b i = None"
  by (simp add: rd8_def)

text \<open>\<^verbatim>\<open>memcpy(&dst[off], src, n)\<close>; the destination keeps its length when it fits.\<close>

definition blit :: "u8 list \<Rightarrow> nat \<Rightarrow> u8 list \<Rightarrow> u8 list" where
  "blit dst off src = take off dst @ src @ drop (off + length src) dst"

lemma length_blit [simp]:
  "off + length src \<le> length dst \<Longrightarrow> length (blit dst off src) = length dst"
  by (simp add: blit_def)

lemma nth_blit:
  assumes "off + length src \<le> length dst" and "i < length dst"
  shows "blit dst off src ! i =
    (if i < off then dst ! i else if i < off + length src then src ! (i - off) else dst ! i)"
  using assms by (auto simp: blit_def nth_append min_def)

lemma take_blit_same:
  "off + length src \<le> length dst \<Longrightarrow> take (length src) (drop off (blit dst off src)) = src"
  by (simp add: blit_def)

section \<open>Network byte order\<close>

text \<open>
  \<^verbatim>\<open>sys_put_be16\<close>, \<^verbatim>\<open>sys_put_be32\<close>, \<^verbatim>\<open>sys_get_be16\<close> and \<^verbatim>\<open>sys_get_be32\<close>: most
  significant byte first.
\<close>

definition be16 :: "u16 \<Rightarrow> u8 list" where
  "be16 v = [ucast (drop_bit 8 v), ucast v]"

definition be32 :: "u32 \<Rightarrow> u8 list" where
  "be32 v = [ucast (drop_bit 24 v), ucast (drop_bit 16 v), ucast (drop_bit 8 v), ucast v]"

definition of_be16 :: "u8 \<Rightarrow> u8 \<Rightarrow> u16" where
  "of_be16 a b = push_bit 8 (ucast a) OR ucast b"

definition of_be32 :: "u8 \<Rightarrow> u8 \<Rightarrow> u8 \<Rightarrow> u8 \<Rightarrow> u32" where
  "of_be32 a b c d =
     push_bit 24 (ucast a) OR push_bit 16 (ucast b) OR push_bit 8 (ucast c) OR ucast d"

fun get_be32 :: "u8 list \<Rightarrow> u32" where
  "get_be32 (a # b # c # d # _) = of_be32 a b c d"
| "get_be32 _ = 0"

lemma length_be16 [simp]: "length (be16 v) = 2"
  by (simp add: be16_def)

lemma length_be32 [simp]: "length (be32 v) = 4"
  by (simp add: be32_def)

lemma of_be16_be16: "of_be16 (ucast (drop_bit 8 v)) (ucast v) = v"
  by (rule bit_word_eqI) (auto simp: of_be16_def bit_simps)

lemma of_be32_be32:
  "of_be32 (ucast (drop_bit 24 v)) (ucast (drop_bit 16 v)) (ucast (drop_bit 8 v)) (ucast v) = v"
proof (rule bit_word_eqI)
  fix n assume "n < LENGTH(32)"
  then show "bit (of_be32 (ucast (drop_bit 24 v)) (ucast (drop_bit 16 v))
      (ucast (drop_bit 8 v)) (ucast v)) n = bit v n"
    by (cases "n < 16"; cases "n < 24"; cases "n < 8") (auto simp: of_be32_def bit_simps)
qed

lemma get_be32_be32 [simp]: "get_be32 (be32 v @ r) = v"
  by (simp add: be32_def of_be32_be32)

lemma get_be32_be32_nil [simp]: "get_be32 (be32 v) = v"
  by (simp add: be32_def of_be32_be32)

lemma bit_u8_beyond: "8 \<le> n \<Longrightarrow> \<not> bit (a :: u8) n"
  using bit_imp_le_length [of a n] by auto

lemma be32_of_be32: "be32 (of_be32 a b c d) = [a, b, c, d]"
  by (auto simp: be32_def of_be32_def bit_simps bit_u8_beyond intro!: bit_word_eqI)

lemma be32_get_be32: "length xs = 4 \<Longrightarrow> be32 (get_be32 xs) = xs"
  by (auto simp: numeral_eq_Suc length_Suc_conv be32_of_be32)

lemma unat_of_be16: "unat (of_be16 a b) = 256 * unat a + unat b"
proof -
  have lt: "unat a < 256" "unat b < 256"
    using unat_less_exp [of a] unat_less_exp [of b] by simp_all
  have "of_be16 a b = push_bit 8 (ucast a) + ucast b"
    unfolding of_be16_def
    by (rule disjunctive_add [symmetric]) (auto simp: bit_simps dest: bit_imp_le_length)
  moreover have "unat (push_bit 8 (ucast a :: u16)) = 256 * unat a"
    using lt by (simp add: push_bit_eq_mult unat_mult_no_wrap unsigned_ucast_eq take_bit_eq_mod)
  moreover have "unat (ucast b :: u16) = unat b"
    using lt by (simp add: unsigned_ucast_eq take_bit_eq_mod)
  moreover have "256 * unat a + unat b < 2 ^ 16"
    using lt by simp
  ultimately show ?thesis
    by (simp add: unat_word_ariths)
qed

text \<open>Two bytes of a buffer, most significant first; \<open>None\<close> when one is outside it.\<close>

definition rd16 :: "u8 list \<Rightarrow> nat \<Rightarrow> u16 option" where
  "rd16 b i = do { hi \<leftarrow> rd8 b i; lo \<leftarrow> rd8 b (i + 1); Some (of_be16 hi lo) }"

lemma rd16_Some [simp]: "i + 1 < length b \<Longrightarrow> rd16 b i = Some (of_be16 (b ! i) (b ! (i + 1)))"
  by (simp add: rd16_def)

section \<open>Alignment\<close>

text \<open>
  \<^verbatim>\<open>ROUND_UP(x, align)\<close> on 32-bit \<^verbatim>\<open>unsigned long\<close>: the addition wraps.
\<close>

definition ROUND_UP :: "u32 \<Rightarrow> u32 \<Rightarrow> u32" where
  "ROUND_UP x a = ((x + (a - 1)) div a) * a"

lemma unat_ROUND_UP:
  assumes "0 < unat a" and "unat x + (unat a - 1) < 2 ^ 32"
  shows "unat (ROUND_UP x a) = ((unat x + (unat a - 1)) div unat a) * unat a"
proof -
  have s: "unat (x + (a - 1)) = unat x + (unat a - 1)"
    using assms unat_pred_word [of a] by (simp add: unat_word_ariths)
  have "((unat x + (unat a - 1)) div unat a) * unat a \<le> unat x + (unat a - 1)"
    by simp
  then have "((unat x + (unat a - 1)) div unat a) * unat a < 2 ^ 32"
    using assms(2) by linarith
  then show ?thesis
    by (simp add: ROUND_UP_def unat_mult_no_wrap unat_div s)
qed

lemma round_up_bounds:
  fixes x a :: nat
  assumes "0 < a"
  shows "x \<le> ((x + (a - 1)) div a) * a" and "((x + (a - 1)) div a) * a < x + a"
proof -
  have e: "((x + (a - 1)) div a) * a + (x + (a - 1)) mod a = x + (a - 1)"
    by simp
  have "(x + (a - 1)) mod a \<le> a - 1"
    using mod_less_divisor [OF assms, of "x + (a - 1)"] by linarith
  with e assms show "x \<le> ((x + (a - 1)) div a) * a" by linarith
  from e assms show "((x + (a - 1)) div a) * a < x + a" by linarith
qed

lemma dvd_ROUND_UP:
  assumes "0 < unat a" and "unat x + (unat a - 1) < 2 ^ 32"
  shows "unat a dvd unat (ROUND_UP x a)"
  using assms by (simp add: unat_ROUND_UP)

end
