(* ===== verification/Config.thy ===== *)
theory Config
  imports Prelude
begin

text \<open>
  What is fixed when the firmware is built or the board is described: the Kconfig options
  of \<^verbatim>\<open>drivers/ethernet/Kconfig\<close> that the C code reads, the constants a Zephyr header
  supplies, the per-device \<^verbatim>\<open>struct emaczero_config\<close> filled from the devicetree, and the
  error numbers. \<open>kconfig_ok\<close> states the ranges Kconfig enforces, and \<open>app_kconfig\<close> is
  the configuration of \<^verbatim>\<open>app/prj.conf\<close> on the \<^verbatim>\<open>arty_a7_vex\<close> board.
\<close>

section \<open>Kconfig\<close>

record kconfig =
  rx_buffer_count :: nat
  rx_dma_post_count :: nat
  rx_max_stack_owned_zerocopy :: nat
  rx_copy_fallback_count :: nat
  dma_memory_base :: u32
  dma_memory_size :: u32
  sg_memory_base :: u32
  sg_memory_size :: u32
  dma_interrupt_threshold :: u32
  dma_interrupt_timeout :: u32
  cfg_profile :: bool
  cfg_r7_instrumentation :: bool
  cfg_rx_direct_ring :: bool
  cfg_dcache_maint :: bool
  net_eth_max_frame_size :: nat
  sys_clock_hz :: u32

definition kconfig_ok :: "kconfig \<Rightarrow> bool" where
  "kconfig_ok k \<longleftrightarrow>
     8 \<le> rx_buffer_count k \<and> rx_buffer_count k \<le> 256 \<and>
     1 \<le> rx_dma_post_count k \<and> rx_dma_post_count k \<le> 255 \<and>
     rx_max_stack_owned_zerocopy k \<le> 255 \<and> rx_copy_fallback_count k \<le> 4096 \<and>
     60 \<le> net_eth_max_frame_size k \<and> net_eth_max_frame_size k < 2048 \<and>
     (cfg_rx_direct_ring k \<longrightarrow> dma_memory_size k \<noteq> 0) \<and>
     (cfg_r7_instrumentation k \<longrightarrow> cfg_profile k)"

lemma kconfig_ok_rx_count:
  assumes "kconfig_ok k"
  shows "8 \<le> rx_buffer_count k" and "rx_buffer_count k \<le> 256" and "0 < rx_buffer_count k"
    and "0 < rx_dma_post_count k" and "rx_dma_post_count k \<le> 255"
  using assms by (auto simp: kconfig_ok_def)

text \<open>
  \<^verbatim>\<open>app/prj.conf\<close> with \<^verbatim>\<open>app/boards/arty_a7_vex.conf\<close>. \<^verbatim>\<open>NET_ETH_MAX_FRAME_SIZE\<close> is
  Zephyr's; the driver's comments give it as 1518 bytes.
\<close>

definition app_kconfig :: kconfig where
  "app_kconfig = \<lparr>rx_buffer_count = 128, rx_dma_post_count = 64,
     rx_max_stack_owned_zerocopy = 64, rx_copy_fallback_count = 4096,
     dma_memory_base = 0x9f000000, dma_memory_size = 0x01000000,
     sg_memory_base = 0, sg_memory_size = 0,
     dma_interrupt_threshold = 32, dma_interrupt_timeout = 32,
     cfg_profile = True, cfg_r7_instrumentation = True, cfg_rx_direct_ring = True,
     cfg_dcache_maint = False, net_eth_max_frame_size = 1518, sys_clock_hz = 100000000\<rparr>"

lemma app_kconfig_ok: "kconfig_ok app_kconfig"
  by (simp add: kconfig_ok_def app_kconfig_def)

text \<open>
  A small configuration with the least ring Kconfig accepts, for concrete runs.
\<close>

definition tiny_kconfig :: kconfig where
  "tiny_kconfig = app_kconfig\<lparr>rx_buffer_count := 8, rx_dma_post_count := 3,
     rx_max_stack_owned_zerocopy := 2, rx_copy_fallback_count := 4,
     net_eth_max_frame_size := 60, cfg_profile := False, cfg_r7_instrumentation := False\<rparr>"

lemma tiny_kconfig_ok: "kconfig_ok tiny_kconfig"
  by (simp add: kconfig_ok_def tiny_kconfig_def app_kconfig_def)

section \<open>Device configuration\<close>

text \<open>
  \<^verbatim>\<open>struct emaczero_config\<close>. \<open>dma\<close> says whether the devicetree names a DMA controller
  (a non-\<^verbatim>\<open>NULL\<close> \<^verbatim>\<open>cfg->dma\<close>); the thread stack and the interrupt hook carry no data
  the model needs.
\<close>

record emaczero_config =
  cfg_base :: u32
  cfg_dma_base :: u32
  cfg_dma :: bool
  cfg_dma_rx_irq :: nat
  cfg_speed :: u32
  cfg_mac :: "u8 list"

section \<open>Error numbers\<close>

text \<open>
  The values of Zephyr's \<^verbatim>\<open>errno.h\<close>. A C function that returns \<^verbatim>\<open>int\<close> returns an \<open>int\<close>
  here, an error as its negated number.
\<close>

abbreviation EIO :: int where "EIO \<equiv> 5"
abbreviation EAGAIN :: int where "EAGAIN \<equiv> 11"
abbreviation ENOMEM :: int where "ENOMEM \<equiv> 12"
abbreviation EFAULT :: int where "EFAULT \<equiv> 14"
abbreviation ENODEV :: int where "ENODEV \<equiv> 19"
abbreviation EINVAL :: int where "EINVAL \<equiv> 22"
abbreviation ENOSPC :: int where "ENOSPC \<equiv> 28"
abbreviation EALREADY :: int where "EALREADY \<equiv> 120"
abbreviation EMSGSIZE :: int where "EMSGSIZE \<equiv> 122"
abbreviation ENOTSUP :: int where "ENOTSUP \<equiv> 134"

end
