(* ===== verification/PerfStats.thy ===== *)
theory PerfStats
  imports Prelude
begin

text \<open>
  The \<^verbatim>\<open>struct emaczero_perf_stats\<close> block of
  \<^verbatim>\<open>drivers/ethernet/eth_emaczero_profile.h\<close>, which a host reads over JTAG, and the small
  update routines of \<^verbatim>\<open>drivers/ethernet/eth_emaczero.c\<close> that act on it alone: running
  maximum and minimum, the R7 region accumulators and the dwell-time histogram.
  A field is named by its position in the struct, counted in 32-bit words with the 64-bit
  fields aligned to two words; the numbered fields (\<^verbatim>\<open>tx_ext_word0\<close> and so on) are
  indexed from the first one, as the code does with a pointer to it. PerfLayout derives the
  positions from the header. The layout is that of a build with \<^verbatim>\<open>CONFIG_ETH_EMACZERO_R7_INSTRUMENTATION\<close>.
\<close>

section \<open>Fields\<close>

datatype stat32 = S32 nat

datatype stat64 = S64 nat

abbreviation Magic :: stat32 where "Magic \<equiv> S32 0"
abbreviation Version :: stat32 where "Version \<equiv> S32 1"
abbreviation Cycles_per_sec :: stat32 where "Cycles_per_sec \<equiv> S32 2"
abbreviation Rx_pool_size :: stat32 where "Rx_pool_size \<equiv> S32 3"
abbreviation Uptime_ms :: stat32 where "Uptime_ms \<equiv> S32 4"
abbreviation Cycle_delta_1s :: stat32 where "Cycle_delta_1s \<equiv> S32 5"
abbreviation Cycle_delta_30s :: stat32 where "Cycle_delta_30s \<equiv> S32 6"
abbreviation Mac_rx_frames :: stat32 where "Mac_rx_frames \<equiv> S32 7"
abbreviation Mac_rx_bytes :: stat32 where "Mac_rx_bytes \<equiv> S32 8"
abbreviation Mac_rx_err :: stat32 where "Mac_rx_err \<equiv> S32 9"
abbreviation Mac_rx_err_align :: stat32 where "Mac_rx_err_align \<equiv> S32 10"
abbreviation Mac_rx_err_overflow :: stat32 where "Mac_rx_err_overflow \<equiv> S32 11"
abbreviation Mac_rx_err_oversize :: stat32 where "Mac_rx_err_oversize \<equiv> S32 12"
abbreviation Mac_rx_bcast :: stat32 where "Mac_rx_bcast \<equiv> S32 13"
abbreviation Mac_rx_mcast :: stat32 where "Mac_rx_mcast \<equiv> S32 14"
abbreviation Mac_rx_size_1024_1518 :: stat32 where "Mac_rx_size_1024_1518 \<equiv> S32 15"
abbreviation Gate_magic :: stat32 where "Gate_magic \<equiv> S32 16"
abbreviation Gate_good_frames :: stat32 where "Gate_good_frames \<equiv> S32 17"
abbreviation Gate_dropped_bad_frames :: stat32 where "Gate_dropped_bad_frames \<equiv> S32 18"
abbreviation Gate_dropped_overflow_frames :: stat32 where "Gate_dropped_overflow_frames \<equiv> S32 19"
abbreviation Gate_drain_samples :: stat32 where "Gate_drain_samples \<equiv> S32 20"
abbreviation Gate_drain_cycles_total :: stat32 where "Gate_drain_cycles_total \<equiv> S32 21"
abbreviation Gate_drain_cycles_max :: stat32 where "Gate_drain_cycles_max \<equiv> S32 22"
abbreviation Gate_drain_lt_50us :: stat32 where "Gate_drain_lt_50us \<equiv> S32 23"
abbreviation Gate_drain_50_100us :: stat32 where "Gate_drain_50_100us \<equiv> S32 24"
abbreviation Gate_drain_100_200us :: stat32 where "Gate_drain_100_200us \<equiv> S32 25"
abbreviation Gate_drain_200_500us :: stat32 where "Gate_drain_200_500us \<equiv> S32 26"
abbreviation Gate_drain_ge_500us :: stat32 where "Gate_drain_ge_500us \<equiv> S32 27"
abbreviation Gate_drain_tready_low_cycles :: stat32 where "Gate_drain_tready_low_cycles \<equiv> S32 28"
abbreviation Gate_drain_tready_low_cycles_max :: stat32 where "Gate_drain_tready_low_cycles_max \<equiv> S32 29"
abbreviation Gate_drain_tready_low_samples :: stat32 where "Gate_drain_tready_low_samples \<equiv> S32 30"
abbreviation Dma_callbacks :: stat64 where "Dma_callbacks \<equiv> S64 32"
abbreviation Dma_errors :: stat64 where "Dma_errors \<equiv> S64 34"
abbreviation Dma_callback_gap_cycles_max :: stat32 where "Dma_callback_gap_cycles_max \<equiv> S32 36"
abbreviation Dma_callback_gap_ge_1ms :: stat32 where "Dma_callback_gap_ge_1ms \<equiv> S32 37"
abbreviation Rx_refill_cycles_max :: stat32 where "Rx_refill_cycles_max \<equiv> S32 38"
abbreviation Rx_refill_cycles_ge_1ms :: stat32 where "Rx_refill_cycles_ge_1ms \<equiv> S32 39"
abbreviation Rx_refill_queued_max :: stat32 where "Rx_refill_queued_max \<equiv> S32 40"
abbreviation Rx_bd_hw_completed :: stat64 where "Rx_bd_hw_completed \<equiv> S64 42"
abbreviation Rx_bd_refilled :: stat64 where "Rx_bd_refilled \<equiv> S64 44"
abbreviation Rx_bd_tail_updates :: stat64 where "Rx_bd_tail_updates \<equiv> S64 46"
abbreviation Rx_bd_no_free :: stat64 where "Rx_bd_no_free \<equiv> S64 48"
abbreviation Rx_irq_count :: stat64 where "Rx_irq_count \<equiv> S64 50"
abbreviation Rx_bd_available_current :: stat32 where "Rx_bd_available_current \<equiv> S32 52"
abbreviation Rx_bd_available_min :: stat32 where "Rx_bd_available_min \<equiv> S32 53"
abbreviation Rx_poll_completed_max :: stat32 where "Rx_poll_completed_max \<equiv> S32 54"
abbreviation Rx_bd_errors :: stat32 where "Rx_bd_errors \<equiv> S32 55"
abbreviation Rx_dma_recoveries :: stat32 where "Rx_dma_recoveries \<equiv> S32 56"
abbreviation Rx_worker_packets :: stat64 where "Rx_worker_packets \<equiv> S64 58"
abbreviation Rx_invalid :: stat64 where "Rx_invalid \<equiv> S64 60"
abbreviation Rx_alloc_pkt_fail :: stat64 where "Rx_alloc_pkt_fail \<equiv> S64 62"
abbreviation Rx_alloc_frag_fail :: stat64 where "Rx_alloc_frag_fail \<equiv> S64 64"
abbreviation Rx_alloc_pkt_zc_fail :: stat64 where "Rx_alloc_pkt_zc_fail \<equiv> S64 66"
abbreviation Rx_alloc_pkt_copy_fail :: stat64 where "Rx_alloc_pkt_copy_fail \<equiv> S64 68"
abbreviation Rx_copy_write_fail :: stat64 where "Rx_copy_write_fail \<equiv> S64 70"
abbreviation Rx_zero_copy_submit :: stat64 where "Rx_zero_copy_submit \<equiv> S64 72"
abbreviation Rx_copy_submit :: stat64 where "Rx_copy_submit \<equiv> S64 74"
abbreviation Rx_net_recv_fail :: stat64 where "Rx_net_recv_fail \<equiv> S64 76"
abbreviation Rx_released :: stat64 where "Rx_released \<equiv> S64 78"
abbreviation Rx_refill_calls :: stat64 where "Rx_refill_calls \<equiv> S64 80"
abbreviation Rx_refill_queued :: stat64 where "Rx_refill_queued \<equiv> S64 82"
abbreviation Rx_refill_no_free :: stat64 where "Rx_refill_no_free \<equiv> S64 84"
abbreviation Rx_dma_config_calls :: stat64 where "Rx_dma_config_calls \<equiv> S64 86"
abbreviation Rx_dma_reload_calls :: stat64 where "Rx_dma_reload_calls \<equiv> S64 88"
abbreviation Rx_dma_start_calls :: stat64 where "Rx_dma_start_calls \<equiv> S64 90"
abbreviation Rx_dma_config_fail :: stat64 where "Rx_dma_config_fail \<equiv> S64 92"
abbreviation Rx_dma_reload_fail :: stat64 where "Rx_dma_reload_fail \<equiv> S64 94"
abbreviation Rx_dma_start_fail :: stat64 where "Rx_dma_start_fail \<equiv> S64 96"
abbreviation Rx_pool_inflight_current :: stat32 where "Rx_pool_inflight_current \<equiv> S32 98"
abbreviation Rx_pool_inflight_high :: stat32 where "Rx_pool_inflight_high \<equiv> S32 99"
abbreviation Rx_free_current :: stat32 where "Rx_free_current \<equiv> S32 100"
abbreviation Rx_dma_fifo_current :: stat32 where "Rx_dma_fifo_current \<equiv> S32 101"
abbreviation Rx_ready_fifo_current :: stat32 where "Rx_ready_fifo_current \<equiv> S32 102"
abbreviation Rx_worker_current :: stat32 where "Rx_worker_current \<equiv> S32 103"
abbreviation Rx_stack_owned_current :: stat32 where "Rx_stack_owned_current \<equiv> S32 104"
abbreviation Rx_owner_sum_current :: stat32 where "Rx_owner_sum_current \<equiv> S32 105"
abbreviation Rx_owner_sum_bad :: stat32 where "Rx_owner_sum_bad \<equiv> S32 106"
abbreviation Rx_max_dma_inflight :: stat32 where "Rx_max_dma_inflight \<equiv> S32 107"
abbreviation Rx_max_stack_owned :: stat32 where "Rx_max_stack_owned \<equiv> S32 108"
abbreviation Rx_min_free :: stat32 where "Rx_min_free \<equiv> S32 109"
abbreviation Rx_dwell_samples :: stat64 where "Rx_dwell_samples \<equiv> S64 110"
abbreviation Rx_dwell_cycles_total :: stat64 where "Rx_dwell_cycles_total \<equiv> S64 112"
abbreviation Rx_dwell_cycles_max :: stat32 where "Rx_dwell_cycles_max \<equiv> S32 114"
abbreviation Rx_dwell_lt_1ms :: stat32 where "Rx_dwell_lt_1ms \<equiv> S32 115"
abbreviation Rx_dwell_1_5ms :: stat32 where "Rx_dwell_1_5ms \<equiv> S32 116"
abbreviation Rx_dwell_5_20ms :: stat32 where "Rx_dwell_5_20ms \<equiv> S32 117"
abbreviation Rx_dwell_20_100ms :: stat32 where "Rx_dwell_20_100ms \<equiv> S32 118"
abbreviation Rx_dwell_ge_100ms :: stat32 where "Rx_dwell_ge_100ms \<equiv> S32 119"
abbreviation Net_udp_recv :: stat32 where "Net_udp_recv \<equiv> S32 120"
abbreviation Net_udp_drop :: stat32 where "Net_udp_drop \<equiv> S32 121"
abbreviation Net_ipv4_recv :: stat32 where "Net_ipv4_recv \<equiv> S32 122"
abbreviation Net_ipv4_drop :: stat32 where "Net_ipv4_drop \<equiv> S32 123"
abbreviation Net_processing_error :: stat32 where "Net_processing_error \<equiv> S32 124"
abbreviation Net_pkt_filter_rx_drop :: stat32 where "Net_pkt_filter_rx_drop \<equiv> S32 125"
abbreviation Net_pkt_filter_rx_ipv4_drop :: stat32 where "Net_pkt_filter_rx_ipv4_drop \<equiv> S32 126"
abbreviation Net_pkt_filter_rx_local_drop :: stat32 where "Net_pkt_filter_rx_local_drop \<equiv> S32 127"
abbreviation Sink_seq :: stat32 where "Sink_seq \<equiv> S32 128"
abbreviation Sink_packets :: stat64 where "Sink_packets \<equiv> S64 130"
abbreviation Sink_bytes :: stat64 where "Sink_bytes \<equiv> S64 132"
abbreviation Sink_recv_errors :: stat64 where "Sink_recv_errors \<equiv> S64 134"
abbreviation Sink_eagain :: stat64 where "Sink_eagain \<equiv> S64 136"
abbreviation Sink_recvfrom_calls :: stat64 where "Sink_recvfrom_calls \<equiv> S64 138"
abbreviation Sink_recvfrom_cycles_total :: stat64 where "Sink_recvfrom_cycles_total \<equiv> S64 140"
abbreviation Sink_recvfrom_cycles_max :: stat32 where "Sink_recvfrom_cycles_max \<equiv> S32 142"
abbreviation Sink_last_errno :: stat32 where "Sink_last_errno \<equiv> S32 143"
abbreviation Sink_first_cycle :: stat32 where "Sink_first_cycle \<equiv> S32 144"
abbreviation Sink_last_cycle :: stat32 where "Sink_last_cycle \<equiv> S32 145"
abbreviation Sink_last_len :: stat32 where "Sink_last_len \<equiv> S32 146"
abbreviation Net_ip_vhlerr :: stat32 where "Net_ip_vhlerr \<equiv> S32 147"
abbreviation Net_ip_hblenerr :: stat32 where "Net_ip_hblenerr \<equiv> S32 148"
abbreviation Net_ip_lblenerr :: stat32 where "Net_ip_lblenerr \<equiv> S32 149"
abbreviation Net_ip_fragerr :: stat32 where "Net_ip_fragerr \<equiv> S32 150"
abbreviation Net_ip_chkerr :: stat32 where "Net_ip_chkerr \<equiv> S32 151"
abbreviation Net_ip_protoerr :: stat32 where "Net_ip_protoerr \<equiv> S32 152"
abbreviation Net_udp_chkerr :: stat32 where "Net_udp_chkerr \<equiv> S32 153"
abbreviation Net_icmp_recv :: stat32 where "Net_icmp_recv \<equiv> S32 154"
abbreviation Net_icmp_sent :: stat32 where "Net_icmp_sent \<equiv> S32 155"
abbreviation Net_icmp_drop :: stat32 where "Net_icmp_drop \<equiv> S32 156"
abbreviation Net_icmp_typeerr :: stat32 where "Net_icmp_typeerr \<equiv> S32 157"
abbreviation Rx_last_icmp_src :: stat32 where "Rx_last_icmp_src \<equiv> S32 158"
abbreviation Rx_last_icmp_dst :: stat32 where "Rx_last_icmp_dst \<equiv> S32 159"
abbreviation Rx_last_icmp_id :: stat32 where "Rx_last_icmp_id \<equiv> S32 160"
abbreviation Rx_last_icmp_seq :: stat32 where "Rx_last_icmp_seq \<equiv> S32 161"
abbreviation Rx_pre_dst_me :: stat32 where "Rx_pre_dst_me \<equiv> S32 162"
abbreviation Rx_pre_dst_broadcast :: stat32 where "Rx_pre_dst_broadcast \<equiv> S32 163"
abbreviation Rx_pre_dst_multicast :: stat32 where "Rx_pre_dst_multicast \<equiv> S32 164"
abbreviation Rx_pre_dst_other :: stat32 where "Rx_pre_dst_other \<equiv> S32 165"
abbreviation Rx_pre_type_ipv4 :: stat32 where "Rx_pre_type_ipv4 \<equiv> S32 166"
abbreviation Rx_pre_type_arp :: stat32 where "Rx_pre_type_arp \<equiv> S32 167"
abbreviation Rx_pre_type_other :: stat32 where "Rx_pre_type_other \<equiv> S32 168"
abbreviation Rx_pre_ipv4_bad :: stat32 where "Rx_pre_ipv4_bad \<equiv> S32 169"
abbreviation Rx_pre_ipv4_udp :: stat32 where "Rx_pre_ipv4_udp \<equiv> S32 170"
abbreviation Rx_pre_udp_bad_len :: stat32 where "Rx_pre_udp_bad_len \<equiv> S32 171"
abbreviation Rx_pre_udp_port_5001 :: stat32 where "Rx_pre_udp_port_5001 \<equiv> S32 172"
abbreviation Rx_last_sample_len :: stat32 where "Rx_last_sample_len \<equiv> S32 173"
abbreviation Rx_last_sample_status :: stat32 where "Rx_last_sample_status \<equiv> S32 174"
abbreviation Rx_last_sample_word :: "nat \<Rightarrow> stat32" where "Rx_last_sample_word i \<equiv> S32 (175 + i)"
abbreviation Rx_bad_sample_seen :: stat32 where "Rx_bad_sample_seen \<equiv> S32 183"
abbreviation Rx_bad_sample_len :: stat32 where "Rx_bad_sample_len \<equiv> S32 184"
abbreviation Rx_bad_sample_status :: stat32 where "Rx_bad_sample_status \<equiv> S32 185"
abbreviation Rx_bad_sample_word :: "nat \<Rightarrow> stat32" where "Rx_bad_sample_word i \<equiv> S32 (186 + i)"
abbreviation Rx_good_sample_seen :: stat32 where "Rx_good_sample_seen \<equiv> S32 190"
abbreviation Rx_good_sample_len :: stat32 where "Rx_good_sample_len \<equiv> S32 191"
abbreviation Rx_good_sample_word :: "nat \<Rightarrow> stat32" where "Rx_good_sample_word i \<equiv> S32 (192 + i)"
abbreviation Tx_send_calls :: stat64 where "Tx_send_calls \<equiv> S64 196"
abbreviation Tx_send_read_fail :: stat64 where "Tx_send_read_fail \<equiv> S64 198"
abbreviation Tx_setup_calls :: stat64 where "Tx_setup_calls \<equiv> S64 200"
abbreviation Tx_setup_no_dma :: stat64 where "Tx_setup_no_dma \<equiv> S64 202"
abbreviation Tx_setup_busy :: stat64 where "Tx_setup_busy \<equiv> S64 204"
abbreviation Tx_dma_config_fail :: stat64 where "Tx_dma_config_fail \<equiv> S64 206"
abbreviation Tx_dma_reload_fail :: stat64 where "Tx_dma_reload_fail \<equiv> S64 208"
abbreviation Tx_dma_start_fail :: stat64 where "Tx_dma_start_fail \<equiv> S64 210"
abbreviation Tx_dma_start_ok :: stat64 where "Tx_dma_start_ok \<equiv> S64 212"
abbreviation Tx_dma_completed :: stat64 where "Tx_dma_completed \<equiv> S64 214"
abbreviation Tx_dma_error :: stat64 where "Tx_dma_error \<equiv> S64 216"
abbreviation Tx_last_len :: stat32 where "Tx_last_len \<equiv> S32 218"
abbreviation Tx_last_ret :: stat32 where "Tx_last_ret \<equiv> S32 219"
abbreviation Tx_last_word :: "nat \<Rightarrow> stat32" where "Tx_last_word i \<equiv> S32 (220 + i)"
abbreviation Tx_last_icmp_src :: stat32 where "Tx_last_icmp_src \<equiv> S32 224"
abbreviation Tx_last_icmp_dst :: stat32 where "Tx_last_icmp_dst \<equiv> S32 225"
abbreviation Tx_last_icmp_id :: stat32 where "Tx_last_icmp_id \<equiv> S32 226"
abbreviation Tx_last_icmp_seq :: stat32 where "Tx_last_icmp_seq \<equiv> S32 227"
abbreviation Rx_ext_magic :: stat32 where "Rx_ext_magic \<equiv> S32 228"
abbreviation Rx_ext_len :: stat32 where "Rx_ext_len \<equiv> S32 229"
abbreviation Rx_ext_word :: "nat \<Rightarrow> stat32" where "Rx_ext_word i \<equiv> S32 (230 + i)"
abbreviation Tx_ext_magic :: stat32 where "Tx_ext_magic \<equiv> S32 246"
abbreviation Tx_ext_len :: stat32 where "Tx_ext_len \<equiv> S32 247"
abbreviation Tx_ext_word :: "nat \<Rightarrow> stat32" where "Tx_ext_word i \<equiv> S32 (248 + i)"
abbreviation R7_magic :: stat32 where "R7_magic \<equiv> S32 264"
abbreviation R7_hz :: stat32 where "R7_hz \<equiv> S32 265"
abbreviation R7_samples :: "nat \<Rightarrow> stat32" where "R7_samples i \<equiv> S32 (266 + i)"
abbreviation R7_sum_lo :: "nat \<Rightarrow> stat32" where "R7_sum_lo i \<equiv> S32 (274 + i)"
abbreviation R7_sum_hi :: "nat \<Rightarrow> stat32" where "R7_sum_hi i \<equiv> S32 (282 + i)"
abbreviation R7_max :: "nat \<Rightarrow> stat32" where "R7_max i \<equiv> S32 (290 + i)"
abbreviation R7_lock_acquisitions :: stat32 where "R7_lock_acquisitions \<equiv> S32 298"
abbreviation R7_irq_disabled_cycles_max :: stat32 where "R7_irq_disabled_cycles_max \<equiv> S32 299"

text \<open>The struct: its 32-bit fields and its 64-bit fields.\<close>

record perf_stats =
  p32 :: "stat32 \<Rightarrow> u32"
  p64 :: "stat64 \<Rightarrow> u64"

definition perf_zero :: perf_stats where
  "perf_zero = \<lparr>p32 = (\<lambda>_. 0), p64 = (\<lambda>_. 0)\<rparr>"

section \<open>Updates\<close>

definition set32 :: "stat32 \<Rightarrow> u32 \<Rightarrow> perf_stats \<Rightarrow> perf_stats" where
  "set32 f v p = p\<lparr>p32 := (p32 p)(f := v)\<rparr>"

definition inc32 :: "stat32 \<Rightarrow> perf_stats \<Rightarrow> perf_stats" where
  "inc32 f p = set32 f (p32 p f + 1) p"

definition add64 :: "stat64 \<Rightarrow> u64 \<Rightarrow> perf_stats \<Rightarrow> perf_stats" where
  "add64 f v p = p\<lparr>p64 := (p64 p)(f := p64 p f + v)\<rparr>"

definition inc64 :: "stat64 \<Rightarrow> perf_stats \<Rightarrow> perf_stats" where
  "inc64 f p = add64 f 1 p"

definition emz_perf_set_max_u32 :: "stat32 \<Rightarrow> u32 \<Rightarrow> perf_stats \<Rightarrow> perf_stats" where
  "emz_perf_set_max_u32 f candidate p =
     (if p32 p f < candidate then set32 f candidate p else p)"

definition emz_perf_set_min_u32 :: "stat32 \<Rightarrow> u32 \<Rightarrow> perf_stats \<Rightarrow> perf_stats" where
  "emz_perf_set_min_u32 f candidate p =
     (if candidate < p32 p f then set32 f candidate p else p)"

lemmas perf_upd_defs = set32_def inc32_def add64_def inc64_def
  emz_perf_set_max_u32_def emz_perf_set_min_u32_def

lemma set32_sel [simp]:
  "p32 (set32 f v p) = (p32 p)(f := v)" "p64 (set32 f v p) = p64 p"
  by (simp_all add: set32_def)

lemma inc32_sel [simp]:
  "p32 (inc32 f p) = (p32 p)(f := p32 p f + 1)" "p64 (inc32 f p) = p64 p"
  by (simp_all add: inc32_def)

lemma add64_sel [simp]:
  "p64 (add64 f v p) = (p64 p)(f := p64 p f + v)" "p32 (add64 f v p) = p32 p"
  by (simp_all add: add64_def)

lemma inc64_sel [simp]:
  "p64 (inc64 f p) = (p64 p)(f := p64 p f + 1)" "p32 (inc64 f p) = p32 p"
  by (simp_all add: inc64_def)

lemma set_max_sel [simp]:
  "p32 (emz_perf_set_max_u32 f v p) = (p32 p)(f := max (p32 p f) v)"
  "p64 (emz_perf_set_max_u32 f v p) = p64 p"
  by (auto simp: emz_perf_set_max_u32_def max_def)

lemma set_min_sel [simp]:
  "p32 (emz_perf_set_min_u32 f v p) = (p32 p)(f := min (p32 p f) v)"
  "p64 (emz_perf_set_min_u32 f v p) = p64 p"
  by (auto simp: emz_perf_set_min_u32_def min_def)

section \<open>R7 region accumulators\<close>

text \<open>
  \<^verbatim>\<open>enum emz_r7_region\<close>: the slot of a region, and \<^verbatim>\<open>EMZ_R7_SLOT_COUNT\<close> slots.
  \<^verbatim>\<open>emz_r7_add\<close> keeps a 64-bit sum in two 32-bit arrays.
\<close>

datatype emz_r7_region =
    EMZ_R7_ISR_TOTAL | EMZ_R7_LOCK_CONSUME | EMZ_R7_READY_ENQUEUE | EMZ_R7_RELEASE_REFILL
  | EMZ_R7_LOCK_POST | EMZ_R7_TAIL_CSR | EMZ_R7_RX_THREAD_BUILD

fun r7_slot :: "emz_r7_region \<Rightarrow> nat" where
  "r7_slot EMZ_R7_ISR_TOTAL = 0"
| "r7_slot EMZ_R7_LOCK_CONSUME = 1"
| "r7_slot EMZ_R7_READY_ENQUEUE = 2"
| "r7_slot EMZ_R7_RELEASE_REFILL = 3"
| "r7_slot EMZ_R7_LOCK_POST = 4"
| "r7_slot EMZ_R7_TAIL_CSR = 5"
| "r7_slot EMZ_R7_RX_THREAD_BUILD = 6"

definition EMZ_R7_SLOT_COUNT :: nat where
  "EMZ_R7_SLOT_COUNT = 8"

definition emz_r7_add :: "nat \<Rightarrow> u32 \<Rightarrow> perf_stats \<Rightarrow> perf_stats" where
  "emz_r7_add slot cycles p =
     (if EMZ_R7_SLOT_COUNT \<le> slot then p
      else
        let p = inc32 (R7_samples slot) p;
            sum = push_bit 32 (ucast (p32 p (R7_sum_hi slot)) :: u64)
                  OR ucast (p32 p (R7_sum_lo slot));
            sum = sum + ucast cycles;
            p = set32 (R7_sum_lo slot) (ucast sum) p;
            p = set32 (R7_sum_hi slot) (ucast (drop_bit 32 sum)) p
        in if p32 p (R7_max slot) < cycles then set32 (R7_max slot) cycles p else p)"

definition r7_sum :: "perf_stats \<Rightarrow> nat \<Rightarrow> u64" where
  "r7_sum p slot = push_bit 32 (ucast (p32 p (R7_sum_hi slot))) OR ucast (p32 p (R7_sum_lo slot))"

lemma split_join_u64:
  "push_bit 32 (ucast (ucast (drop_bit 32 (x :: u64)) :: u32)) OR ucast (ucast x :: u32) = x"
  by (rule bit_word_eqI) (auto simp: bit_simps)

text \<open>
  An R7 region accumulator counts one sample, adds the cycles to its 64-bit sum (kept
  in two 32-bit words) and keeps the running maximum.
\<close>
theorem r7_add_accumulates:
  assumes "slot < EMZ_R7_SLOT_COUNT"
  shows "r7_sum (emz_r7_add slot cycles p) slot = r7_sum p slot + ucast cycles
    \<and> p32 (emz_r7_add slot cycles p) (R7_samples slot) = p32 p (R7_samples slot) + 1
    \<and> p32 (emz_r7_add slot cycles p) (R7_max slot) = max (p32 p (R7_max slot)) cycles"
  using assms
  by (auto simp: emz_r7_add_def r7_sum_def Let_def EMZ_R7_SLOT_COUNT_def split_join_u64 max_def)

section \<open>Dwell-time histogram\<close>

text \<open>
  \<^verbatim>\<open>emz_perf_note_dwell\<close>: how long the network stack held a zero-copy buffer. \<open>sys_hz\<close>
  is what \<^verbatim>\<open>sys_clock_hw_cycles_per_sec()\<close> returns.
\<close>

definition emz_perf_note_dwell :: "u32 \<Rightarrow> u32 \<Rightarrow> perf_stats \<Rightarrow> perf_stats" where
  "emz_perf_note_dwell sys_hz cycles p =
     (let hz = p32 p Cycles_per_sec;
          hz = (if hz = 0 then sys_hz else hz);
          p = inc64 Rx_dwell_samples p;
          p = add64 Rx_dwell_cycles_total (ucast cycles) p;
          p = emz_perf_set_max_u32 Rx_dwell_cycles_max cycles p
      in if cycles < hz div 1000 then inc32 Rx_dwell_lt_1ms p
         else if cycles < hz div 200 then inc32 Rx_dwell_1_5ms p
         else if cycles < hz div 50 then inc32 Rx_dwell_5_20ms p
         else if cycles < hz div 10 then inc32 Rx_dwell_20_100ms p
         else inc32 Rx_dwell_ge_100ms p)"

definition dwell_buckets :: "perf_stats \<Rightarrow> u32" where
  "dwell_buckets p = p32 p Rx_dwell_lt_1ms + p32 p Rx_dwell_1_5ms + p32 p Rx_dwell_5_20ms
     + p32 p Rx_dwell_20_100ms + p32 p Rx_dwell_ge_100ms"

lemma dwell_counts_sample:
  "p64 (emz_perf_note_dwell hz cycles p) Rx_dwell_samples = p64 p Rx_dwell_samples + 1"
  by (simp add: emz_perf_note_dwell_def Let_def)

lemma dwell_one_bucket:
  "dwell_buckets (emz_perf_note_dwell hz cycles p) = dwell_buckets p + 1"
  by (simp add: emz_perf_note_dwell_def dwell_buckets_def Let_def)

end
