(* ===== verification/Profile.thy ===== *)
theory Profile
  imports Prelude
begin

text \<open>
  The RX profiling block, \<^verbatim>\<open>drivers/ethernet/eth_emaczero_profile.c\<close>: counters, cycle
  accumulators, high- and low-water marks and the run-time drop mode. Every routine of the
  file runs its body under one spinlock, so each is one atomic step on
  \<^verbatim>\<open>emaczero_profile_state\<close>. The file also decides which frames survive a drop mode.
\<close>

section \<open>State\<close>

datatype emaczero_profile_mode =
    EMACZERO_PROFILE_MODE_NORMAL
  | EMACZERO_PROFILE_MODE_DROP_AFTER_DMA
  | EMACZERO_PROFILE_MODE_DROP_AFTER_PKT

fun mode_num :: "emaczero_profile_mode \<Rightarrow> u32" where
  "mode_num EMACZERO_PROFILE_MODE_NORMAL = 0"
| "mode_num EMACZERO_PROFILE_MODE_DROP_AFTER_DMA = 1"
| "mode_num EMACZERO_PROFILE_MODE_DROP_AFTER_PKT = 2"

datatype emaczero_profile_counter_id =
    COUNTER_DMA_CALLBACKS | COUNTER_DMA_ERRORS | COUNTER_DMA_DROP_AFTER_DMA
  | COUNTER_RX_WORKER_PACKETS | COUNTER_RX_INVALID | COUNTER_RX_ALLOC_PKT_FAIL
  | COUNTER_RX_ALLOC_FRAG_FAIL | COUNTER_RX_COPY_FALLBACK | COUNTER_RX_ZERO_COPY_SUBMIT
  | COUNTER_RX_COPY_SUBMIT | COUNTER_RX_DROP_AFTER_PKT | COUNTER_RX_NET_RECV_FAIL
  | COUNTER_RX_REFILL_CALLS | COUNTER_RX_REFILL_QUEUED | COUNTER_RX_REFILL_NO_FREE

datatype emaczero_profile_cycle_id = CYCLES_DMA_CB | CYCLES_RX_BUILD | CYCLES_NET_RECV

datatype emaczero_profile_max_id = MAX_RX_DMA_INFLIGHT | MAX_RX_STACK_OWNED

datatype emaczero_profile_min_id = MIN_RX_FREE

text \<open>
  \<^verbatim>\<open>struct emaczero_profile_snapshot\<close>. The event counters the code switches over are a
  function of their identifier, and so are the three accumulators.
\<close>

record emaczero_profile_snapshot =
  ps_mode :: u32
  ps_cycles_per_sec :: u32
  ps_counter :: "emaczero_profile_counter_id \<Rightarrow> u64"
  ps_rx_released :: u64
  ps_rx_max_dma_inflight :: u32
  ps_rx_max_stack_owned :: u32
  ps_rx_min_free :: u32
  ps_cycles_total :: "emaczero_profile_cycle_id \<Rightarrow> u64"
  ps_cycles_max :: "emaczero_profile_cycle_id \<Rightarrow> u32"
  ps_buffer_lifetime_cycles_total :: u64
  ps_buffer_lifetime_cycles_max :: u32
  ps_buffer_lifetime_samples :: u64

record emaczero_profile_state =
  prof_mode :: emaczero_profile_mode
  prof_stats :: emaczero_profile_snapshot

definition snapshot_zero :: emaczero_profile_snapshot where
  "snapshot_zero = \<lparr>ps_mode = 0, ps_cycles_per_sec = 0, ps_counter = (\<lambda>_. 0),
     ps_rx_released = 0, ps_rx_max_dma_inflight = 0, ps_rx_max_stack_owned = 0,
     ps_rx_min_free = 0, ps_cycles_total = (\<lambda>_. 0), ps_cycles_max = (\<lambda>_. 0),
     ps_buffer_lifetime_cycles_total = 0, ps_buffer_lifetime_cycles_max = 0,
     ps_buffer_lifetime_samples = 0\<rparr>"

text \<open>\<^verbatim>\<open>static struct emaczero_profile_state emz_profile\<close>: zero at load.\<close>

definition profile_boot :: emaczero_profile_state where
  "profile_boot = \<lparr>prof_mode = EMACZERO_PROFILE_MODE_NORMAL, prof_stats = snapshot_zero\<rparr>"

section \<open>Operations\<close>

definition emaczero_profile_elapsed :: "u32 \<Rightarrow> u32 \<Rightarrow> u32" where
  "emaczero_profile_elapsed start end_cycle = end_cycle - start"

definition emaczero_profile_take_snapshot ::
  "u32 \<Rightarrow> emaczero_profile_state \<Rightarrow> emaczero_profile_snapshot" where
  "emaczero_profile_take_snapshot sys_hz st =
     (prof_stats st)\<lparr>ps_mode := mode_num (prof_mode st), ps_cycles_per_sec := sys_hz\<rparr>"

definition emaczero_profile_reset :: "emaczero_profile_state \<Rightarrow> emaczero_profile_state" where
  "emaczero_profile_reset st =
     (let mode = prof_mode st
      in st\<lparr>prof_stats := snapshot_zero\<lparr>ps_rx_min_free := - 1\<rparr>, prof_mode := mode\<rparr>)"

text \<open>
  \<^verbatim>\<open>emaczero_profile_set_mode\<close> receives a C enum, that is, any integer: out of range is
  NORMAL.
\<close>

definition emaczero_profile_set_mode :: "u32 \<Rightarrow> emaczero_profile_state \<Rightarrow> emaczero_profile_state" where
  "emaczero_profile_set_mode mode st =
     (let mode = (if 2 < mode then 0 else mode)
      in st\<lparr>prof_mode := (if mode = 0 then EMACZERO_PROFILE_MODE_NORMAL
                         else if mode = 1 then EMACZERO_PROFILE_MODE_DROP_AFTER_DMA
                         else EMACZERO_PROFILE_MODE_DROP_AFTER_PKT)\<rparr>)"

definition emaczero_profile_get_mode :: "emaczero_profile_state \<Rightarrow> emaczero_profile_mode" where
  "emaczero_profile_get_mode st = prof_mode st"

definition emaczero_profile_note_release :: "u32 \<Rightarrow> emaczero_profile_state \<Rightarrow> emaczero_profile_state" where
  "emaczero_profile_note_release lifetime_cycles st =
     (let s = prof_stats st;
          s = s\<lparr>ps_rx_released := ps_rx_released s + 1\<rparr>;
          s = s\<lparr>ps_buffer_lifetime_samples := ps_buffer_lifetime_samples s + 1\<rparr>;
          s = s\<lparr>ps_buffer_lifetime_cycles_total :=
                  ps_buffer_lifetime_cycles_total s + ucast lifetime_cycles\<rparr>;
          s = s\<lparr>ps_buffer_lifetime_cycles_max :=
                  (if ps_buffer_lifetime_cycles_max s < lifetime_cycles then lifetime_cycles
                   else ps_buffer_lifetime_cycles_max s)\<rparr>
      in st\<lparr>prof_stats := s\<rparr>)"

definition emaczero_profile_counter ::
  "emaczero_profile_counter_id \<Rightarrow> emaczero_profile_state \<Rightarrow> emaczero_profile_state" where
  "emaczero_profile_counter c st =
     (let s = prof_stats st
      in st\<lparr>prof_stats := s\<lparr>ps_counter := (ps_counter s)(c := ps_counter s c + 1)\<rparr>\<rparr>)"

definition emaczero_profile_add_cycles ::
  "emaczero_profile_cycle_id \<Rightarrow> u32 \<Rightarrow> emaczero_profile_state \<Rightarrow> emaczero_profile_state" where
  "emaczero_profile_add_cycles c cycles st =
     (let s = prof_stats st;
          s = s\<lparr>ps_cycles_total := (ps_cycles_total s)(c := ps_cycles_total s c + ucast cycles)\<rparr>;
          s = (if ps_cycles_max s c < cycles
               then s\<lparr>ps_cycles_max := (ps_cycles_max s)(c := cycles)\<rparr> else s)
      in st\<lparr>prof_stats := s\<rparr>)"

fun emaczero_profile_max ::
  "emaczero_profile_max_id \<Rightarrow> u32 \<Rightarrow> emaczero_profile_state \<Rightarrow> emaczero_profile_state" where
  "emaczero_profile_max MAX_RX_DMA_INFLIGHT v st =
     (let s = prof_stats st
      in st\<lparr>prof_stats := s\<lparr>ps_rx_max_dma_inflight :=
           (if ps_rx_max_dma_inflight s < v then v else ps_rx_max_dma_inflight s)\<rparr>\<rparr>)"
| "emaczero_profile_max MAX_RX_STACK_OWNED v st =
     (let s = prof_stats st
      in st\<lparr>prof_stats := s\<lparr>ps_rx_max_stack_owned :=
           (if ps_rx_max_stack_owned s < v then v else ps_rx_max_stack_owned s)\<rparr>\<rparr>)"

fun emaczero_profile_min ::
  "emaczero_profile_min_id \<Rightarrow> u32 \<Rightarrow> emaczero_profile_state \<Rightarrow> emaczero_profile_state" where
  "emaczero_profile_min MIN_RX_FREE v st =
     (let s = prof_stats st
      in st\<lparr>prof_stats := s\<lparr>ps_rx_min_free :=
           (if v < ps_rx_min_free s then v else ps_rx_min_free s)\<rparr>\<rparr>)"

section \<open>Which frames a drop mode keeps\<close>

text \<open>
  \<^verbatim>\<open>emaczero_profile_should_keep_control\<close>: ARP, and UDP to the profile control port. The
  buffer may be \<^verbatim>\<open>NULL\<close>; \<open>None\<close> as a result is a read outside the buffer.
\<close>

definition EMZ_PROFILE_CONTROL_PORT :: u16 where
  "EMZ_PROFILE_CONTROL_PORT = 5002"

definition emaczero_profile_should_keep_control :: "u8 list option \<Rightarrow> nat \<Rightarrow> bool option" where
  "emaczero_profile_should_keep_control bytes len =
     (case bytes of
        None \<Rightarrow> Some False
      | Some b \<Rightarrow>
          if len < 14 then Some False
          else do {
            eth_type \<leftarrow> rd16 b 12;
            if eth_type = 0x0806 then Some True
            else if eth_type \<noteq> 0x0800 \<or> len < 34 then Some False
            else do {
              vihl \<leftarrow> rd8 b 14;
              let ihl = unat ((vihl AND 0x0f) * 4);
              if ihl < 20 \<or> len < 14 + ihl + 8 then Some False
              else do {
                proto \<leftarrow> rd8 b 23;
                if proto \<noteq> 17 then Some False
                else do {
                  let udp = 14 + ihl;
                  dst_port \<leftarrow> rd16 b (udp + 2);
                  Some (dst_port = EMZ_PROFILE_CONTROL_PORT)
                }
              }
            }
          })"

text \<open>The frames meant: ARP, or an IPv4 UDP datagram to the control port.\<close>

definition keep_control_spec :: "u8 list \<Rightarrow> nat \<Rightarrow> bool" where
  "keep_control_spec b len \<longleftrightarrow>
     (let eth_type = of_be16 (b ! 12) (b ! 13); ihl = unat ((b ! 14 AND 0x0f) * 4)
      in 14 \<le> len \<and>
         (eth_type = 0x0806 \<or>
          eth_type = 0x0800 \<and> 34 \<le> len \<and> 20 \<le> ihl \<and> 22 + ihl \<le> len \<and> b ! 23 = 17 \<and>
          of_be16 (b ! (16 + ihl)) (b ! (17 + ihl)) = EMZ_PROFILE_CONTROL_PORT))"

text \<open>
  The drop-mode filter never reads outside the received frame, whatever its header
  length field says, and keeps exactly ARP and UDP to the control port.
\<close>
theorem should_keep_control_correct:
  assumes "len \<le> length b"
  shows "emaczero_profile_should_keep_control (Some b) len = Some (keep_control_spec b len)"
  using assms
  by (auto simp: emaczero_profile_should_keep_control_def keep_control_spec_def Let_def)

end
