(* ===== verification/EmzState.thy ===== *)
theory EmzState
  imports Config PerfStats Profile
begin

text \<open>
  The driver's state. \<open>emaczero_data\<close> is the per-device struct of
  \<^verbatim>\<open>drivers/ethernet/eth_emaczero.c\<close> with what it points to: the two descriptor rings and
  the packet buffers. A pointer to a buffer is its index in \<open>rx_buffer\<close>; a \<^verbatim>\<open>k_fifo\<close> is
  the list of the buffers linked on it, oldest first. \<open>tr\<close> is the trace, newest event
  first, of what the driver does to hardware and kernel: register accesses, barriers,
  cache-line operations, interrupt masking, work submission. \<open>aux\<close> holds what only
  observes the driver (statistics, profile block, the count of clock reads) and the
  provisioning queue that the RX interceptor feeds.

  \<open>env\<close> answers for everything outside \<^verbatim>\<open>src/\<close>: the cycle counter, device registers (a
  function of the whole trace so far), calls into the network stack and the DMA driver,
  and what the TX engine does to the descriptors while the CPU busy-waits. The theorems
  hold for every \<open>env\<close>.
\<close>

section \<open>Buffers and descriptors\<close>

record emaczero_tx_buffer =
  txb_addr :: u32
  txb_bytes :: "u8 list"

record emaczero_rx_buffer =
  rxb_addr :: u32
  rxb_bytes :: "u8 list"
  rxb_len :: u32
  rxb_status :: int
  rxb_dma_done_cycle :: u32
  rxb_stack_handoff_cycle :: u32

record emaczero_rx_bd =
  nxtdesc :: u32
  nxtdesc_msb :: u32
  buffer_address :: u32
  buffer_address_msb :: u32
  bd_control :: u32
  bd_status :: u32
  app0 :: u32
  app1 :: u32
  app2 :: u32
  app3 :: u32
  app4 :: u32

definition bd_zero :: emaczero_rx_bd where
  "bd_zero = \<lparr>nxtdesc = 0, nxtdesc_msb = 0, buffer_address = 0, buffer_address_msb = 0,
     bd_control = 0, bd_status = 0, app0 = 0, app1 = 0, app2 = 0, app3 = 0, app4 = 0\<rparr>"

abbreviation bd_size :: u32 where "bd_size \<equiv> 64"

text \<open>
  The ring as \<^verbatim>\<open>emz_rx_direct_start\<close> and \<^verbatim>\<open>emz_tx_direct_start\<close> build it: zeroed
  descriptors, each naming the address of the next, the last one the first.
\<close>

definition linked_ring :: "u32 \<Rightarrow> nat \<Rightarrow> emaczero_rx_bd list" where
  "linked_ring base n =
     map (\<lambda>i. bd_zero\<lparr>nxtdesc := base + bd_size * of_nat ((i + 1) mod n)\<rparr>) [0..<n]"

definition EMZ_AXI_DMA_BD_STATUS_COMPLETE :: u32 where
  "EMZ_AXI_DMA_BD_STATUS_COMPLETE = 0x80000000"

definition EMZ_AXI_DMA_BD_STATUS_ERROR_MASK :: u32 where
  "EMZ_AXI_DMA_BD_STATUS_ERROR_MASK = 0x70000000"

definition EMZ_AXI_DMA_BD_STATUS_LEN_MASK :: u32 where
  "EMZ_AXI_DMA_BD_STATUS_LEN_MASK = 0x03ffffff"

definition EMZ_AXI_DMA_BD_CTRL_SOF :: u32 where "EMZ_AXI_DMA_BD_CTRL_SOF = 0x08000000"
definition EMZ_AXI_DMA_BD_CTRL_EOF :: u32 where "EMZ_AXI_DMA_BD_CTRL_EOF = 0x04000000"
definition EMZ_AXI_DMA_BD_CTRL_LEN_MASK :: u32 where "EMZ_AXI_DMA_BD_CTRL_LEN_MASK = 0x03ffffff"

text \<open>The test both rings make of a descriptor: is it completed or failed?\<close>

definition bd_done :: "u32 \<Rightarrow> bool" where
  "bd_done status \<longleftrightarrow>
     status AND (EMZ_AXI_DMA_BD_STATUS_COMPLETE OR EMZ_AXI_DMA_BD_STATUS_ERROR_MASK) \<noteq> 0"

definition bd_failed :: "u32 \<Rightarrow> bool" where
  "bd_failed status \<longleftrightarrow> status AND EMZ_AXI_DMA_BD_STATUS_ERROR_MASK \<noteq> 0"

lemma bd_done_0 [simp]: "\<not> bd_done 0"
  by (simp add: bd_done_def)

definition EMZ_DMA_BUFFER_COUNT_TX :: nat where
  "EMZ_DMA_BUFFER_COUNT_TX = 32"

section \<open>Hardware and kernel events, the environment\<close>

datatype ext_call =
    Ext_dma_config_rx u32 u32 | Ext_dma_reload_rx u32 u32 | Ext_dma_start_rx
  | Ext_dma_config_tx u32 u32 | Ext_dma_reload_tx u32 u32 | Ext_dma_start_tx
  | Ext_net_if_is_up | Ext_net_pkt_rx_alloc | Ext_net_buf_alloc_copy | Ext_net_buf_alloc_zc
  | Ext_net_recv_data "u8 list" | Ext_net_pkt_write "u8 list" | Ext_net_pkt_read | Ext_last_frame_length

datatype hw_ev =
    Mmio_write u32 u32 | Mmio_read u32
  | Fence_iorw | Cbo_clean u32 | Cbo_inval u32 | Dmem_fence
  | Busy_wait nat | Irq_disable nat | Irq_enable nat
  | Submit_recover_work | Schedule_poll_work
  | Eth_errors_rx | Eth_errors_tx | Set_link_addr "u8 list"
  | Ext_called ext_call int

record env =
  clk :: "nat \<Rightarrow> u32"
  ext :: "ext_call \<Rightarrow> nat \<Rightarrow> int"
  mmio :: "hw_ev list \<Rightarrow> u32 \<Rightarrow> u32"
  tx_engine :: "nat \<Rightarrow> emaczero_rx_bd list \<Rightarrow> emaczero_rx_bd list"

text \<open>What every operation is given: build configuration, device configuration, environment.\<close>

record ctx =
  kc :: kconfig
  cfg :: emaczero_config
  env_of :: env

abbreviation rx_count :: "ctx \<Rightarrow> nat" where "rx_count c \<equiv> rx_buffer_count (kc c)"

section \<open>The driver state\<close>

record aux_state =
  perf :: perf_stats
  prof :: emaczero_profile_state
  ticks :: nat
  prov_rx_queue :: "u8 list list"

text \<open>
  \<^verbatim>\<open>emaczero_rx_interceptor_t\<close>: given the frame and its length, it may consume it; it acts
  on statistics and the provisioning queue, never on the driver.
\<close>

type_synonym rx_interceptor_fn = "u8 list \<Rightarrow> nat \<Rightarrow> aux_state \<Rightarrow> bool \<times> aux_state"

record emaczero_data =
  rx_interceptor :: "rx_interceptor_fn option"
  iface :: bool
  mac :: "u8 list"
  promisc :: bool
  dma_is_configured_rx :: bool
  dma_is_configured_tx :: bool
  tx_populated_buffer_index :: nat
  tx_completed_buffer_index :: nat
  tx_bd_inflight :: u32
  rx_dma_inflight :: u32
  last_dma_callback_cycle :: u32
  tx_bd_ring :: "emaczero_rx_bd list option"
  tx_bd_ring_addr :: u32
  rx_bd_ring :: "emaczero_rx_bd list"
  rx_bd_ring_addr :: u32
  rx_bd_buffer :: "nat option list"
  rx_bd_consume_index :: nat
  rx_bd_refill_index :: nat
  rx_bd_tail_index :: nat
  rx_bd_posted :: u32
  rx_direct_ring_started :: bool
  rx_direct_recover_pending :: bool
  rx_free_count :: u32
  rx_dma_fifo_count :: u32
  rx_ready_fifo_count :: u32
  rx_worker_count :: u32
  rx_stack_owned_count :: u32
  rx_free_fifo :: "nat list"
  rx_dma_fifo :: "nat list"
  rx_ready_fifo :: "nat list"
  rx_buffer :: "emaczero_rx_buffer list"
  tx_buffer :: "emaczero_tx_buffer list"

record emz =
  dat :: emaczero_data
  tr :: "hw_ev list"
  aux :: aux_state

section \<open>State access\<close>

definition upd_dat :: "(emaczero_data \<Rightarrow> emaczero_data) \<Rightarrow> emz \<Rightarrow> emz" where
  "upd_dat f s = s\<lparr>dat := f (dat s)\<rparr>"

definition emit :: "hw_ev \<Rightarrow> emz \<Rightarrow> emz" where
  "emit e s = s\<lparr>tr := e # tr s\<rparr>"

definition upd_perf :: "(perf_stats \<Rightarrow> perf_stats) \<Rightarrow> emz \<Rightarrow> emz" where
  "upd_perf f s = s\<lparr>aux := (aux s)\<lparr>perf := f (perf (aux s))\<rparr>\<rparr>"

text \<open>The \<^verbatim>\<open>EMZ_PROFILE_*\<close> macros: nothing without \<^verbatim>\<open>CONFIG_ETH_EMACZERO_PROFILE\<close>.\<close>

definition upd_prof :: "ctx \<Rightarrow> (emaczero_profile_state \<Rightarrow> emaczero_profile_state) \<Rightarrow> emz \<Rightarrow> emz" where
  "upd_prof c f s =
     (if cfg_profile (kc c) then s\<lparr>aux := (aux s)\<lparr>prof := f (prof (aux s))\<rparr>\<rparr> else s)"

text \<open>\<^verbatim>\<open>k_cycle_get_32()\<close>: the value read now, and the state after the read.\<close>

definition cycle_now :: "ctx \<Rightarrow> emz \<Rightarrow> u32" where
  "cycle_now c s = clk (env_of c) (ticks (aux s))"

definition tick :: "emz \<Rightarrow> emz" where
  "tick s = s\<lparr>aux := (aux s)\<lparr>ticks := ticks (aux s) + 1\<rparr>\<rparr>"

text \<open>A call outside the repository: its answer, and the state after it.\<close>

definition ext_ret :: "ctx \<Rightarrow> ext_call \<Rightarrow> emz \<Rightarrow> int" where
  "ext_ret c x s = ext (env_of c) x (ticks (aux s))"

definition ext_call :: "ctx \<Rightarrow> ext_call \<Rightarrow> emz \<Rightarrow> emz" where
  "ext_call c x s = tick (emit (Ext_called x (ext_ret c x s)) s)"

text \<open>\<^verbatim>\<open>sys_read32\<close> and \<^verbatim>\<open>sys_write32\<close> on a device register.\<close>

definition reg_value :: "ctx \<Rightarrow> u32 \<Rightarrow> emz \<Rightarrow> u32" where
  "reg_value c a s = mmio (env_of c) (tr s) a"

definition reg_read :: "u32 \<Rightarrow> emz \<Rightarrow> emz" where
  "reg_read a s = emit (Mmio_read a) s"

definition reg_write :: "u32 \<Rightarrow> u32 \<Rightarrow> emz \<Rightarrow> emz" where
  "reg_write a v s = emit (Mmio_write a v) s"

text \<open>One R7 region sample that ends with a fresh clock read.\<close>

definition r7_since :: "ctx \<Rightarrow> emz_r7_region \<Rightarrow> u32 \<Rightarrow> emz \<Rightarrow> emz" where
  "r7_since c slot start s =
     (let now = cycle_now c s; s = tick s
      in if cfg_r7_instrumentation (kc c)
         then upd_perf (emz_r7_add (r7_slot slot) (now - start)) s else s)"

definition emz_r7_note_lock :: "ctx \<Rightarrow> emz \<Rightarrow> emz" where
  "emz_r7_note_lock c s =
     (if cfg_r7_instrumentation (kc c) then upd_perf (inc32 R7_lock_acquisitions) s else s)"

text \<open>Which part of the state each of these leaves alone.\<close>

lemma dat_frame [simp, emz_frame]:
  "dat (upd_dat f s) = f (dat s)"
  "dat (emit e s) = dat s"
  "dat (upd_perf g s) = dat s"
  "dat (upd_prof c h s) = dat s"
  "dat (tick s) = dat s"
  "dat (ext_call c x s) = dat s"
  "dat (reg_read a s) = dat s"
  "dat (reg_write a v s) = dat s"
  "dat (r7_since c slot start s) = dat s"
  "dat (emz_r7_note_lock c s) = dat s"
  by (simp_all add: upd_dat_def emit_def upd_perf_def upd_prof_def tick_def ext_call_def
      reg_read_def reg_write_def r7_since_def emz_r7_note_lock_def Let_def)

lemma aux_frame [simp, emz_frame]:
  "aux (upd_dat f s) = aux s"
  "aux (emit e s) = aux s"
  "aux (reg_read a s) = aux s"
  "aux (reg_write a v s) = aux s"
  by (simp_all add: upd_dat_def emit_def reg_read_def reg_write_def)

lemma tr_frame [simp, emz_frame]:
  "tr (upd_dat f s) = tr s"
  "tr (emit e s) = e # tr s"
  "tr (upd_perf g s) = tr s"
  "tr (upd_prof c h s) = tr s"
  "tr (tick s) = tr s"
  "tr (reg_read a s) = Mmio_read a # tr s"
  "tr (reg_write a v s) = Mmio_write a v # tr s"
  "tr (r7_since c slot start s) = tr s"
  "tr (emz_r7_note_lock c s) = tr s"
  by (simp_all add: upd_dat_def emit_def upd_perf_def upd_prof_def tick_def
      reg_read_def reg_write_def r7_since_def emz_r7_note_lock_def Let_def)

text \<open>How many events of a kind the trace holds.\<close>

definition ev_count :: "(hw_ev \<Rightarrow> bool) \<Rightarrow> emz \<Rightarrow> nat" where
  "ev_count P s = length (filter P (tr s))"

lemma ev_count_frame [simp]:
  "ev_count P (emit e s) = (if P e then 1 else 0) + ev_count P s"
  "ev_count P (upd_dat f s) = ev_count P s"
  "ev_count P (upd_perf g s) = ev_count P s"
  "ev_count P (upd_prof c h s) = ev_count P s"
  "ev_count P (tick s) = ev_count P s"
  "ev_count P (reg_read a s) = (if P (Mmio_read a) then 1 else 0) + ev_count P s"
  "ev_count P (reg_write a v s) = (if P (Mmio_write a v) then 1 else 0) + ev_count P s"
  "ev_count P (r7_since c slot start s) = ev_count P s"
  "ev_count P (emz_r7_note_lock c s) = ev_count P s"
  "ev_count P (s\<lparr>aux := au\<rparr>) = ev_count P s"
  "ev_count P (ext_call c x s) = (if P (Ext_called x (ext_ret c x s)) then 1 else 0) + ev_count P s"
  by (simp_all add: ev_count_def ext_call_def)

end
