(* ===== verification/Cache.thy ===== *)
theory Cache
  imports EmzState
begin

text \<open>
  D-cache maintenance of \<^verbatim>\<open>drivers/ethernet/eth_emaczero.c\<close>: \<^verbatim>\<open>emz_dma_cache_range\<close>
  applies \<^verbatim>\<open>cbo.clean\<close> or \<^verbatim>\<open>cbo.inval\<close> to every line a range touches, between two fences,
  and skips a range outside the cached aperture. With
  \<^verbatim>\<open>CONFIG_ETH_EMACZERO_DCACHE_MAINT\<close> off the line operations and fences are empty.
\<close>

definition EMZ_DMA_CACHE_LINE_SIZE :: nat where "EMZ_DMA_CACHE_LINE_SIZE = 16"
definition EMZ_DMA_DCACHE_BASE :: u32 where "EMZ_DMA_DCACHE_BASE = 0x90000000"
definition EMZ_DMA_DCACHE_HIGH :: u32 where "EMZ_DMA_DCACHE_HIGH = 0x97FFFFFF"

definition emz_dma_cache_fence :: "ctx \<Rightarrow> emz \<Rightarrow> emz" where
  "emz_dma_cache_fence c s = (if cfg_dcache_maint (kc c) then emit Fence_iorw s else s)"

definition emz_dma_cache_clean_line :: "ctx \<Rightarrow> u32 \<Rightarrow> emz \<Rightarrow> emz" where
  "emz_dma_cache_clean_line c a s = (if cfg_dcache_maint (kc c) then emit (Cbo_clean a) s else s)"

definition emz_dma_cache_invd_line :: "ctx \<Rightarrow> u32 \<Rightarrow> emz \<Rightarrow> emz" where
  "emz_dma_cache_invd_line c a s = (if cfg_dcache_maint (kc c) then emit (Cbo_inval a) s else s)"

text \<open>
  The line addresses the loop visits. They are kept as numbers: both bounds are multiples
  of the line size below \<open>2 ^ 32\<close>, so the loop's \<^verbatim>\<open>line += 16\<close> cannot wrap
  (\<open>cache_lines_no_wrap\<close> below).
\<close>

function cache_lines :: "nat \<Rightarrow> nat \<Rightarrow> nat list" where
  "cache_lines line end_addr =
     (if line < end_addr then line # cache_lines (line + EMZ_DMA_CACHE_LINE_SIZE) end_addr else [])"
  by pat_completeness auto
termination
  by (relation "measure (\<lambda>(line, e). e - line)") (auto simp: EMZ_DMA_CACHE_LINE_SIZE_def)

declare cache_lines.simps [simp del]

definition emz_dma_cache_range ::
  "ctx \<Rightarrow> u32 \<Rightarrow> u32 \<Rightarrow> (u32 \<Rightarrow> emz \<Rightarrow> emz) \<Rightarrow> emz \<Rightarrow> emz" where
  "emz_dma_cache_range c addr sz op s =
     (if sz = 0 then s
      else
        let start = addr AND NOT 15; end_addr = ROUND_UP (addr + sz) 16
        in if end_addr \<le> EMZ_DMA_DCACHE_BASE \<or> EMZ_DMA_DCACHE_HIGH < start then s
           else
             let s = emz_dma_cache_fence c s;
                 s = fold (\<lambda>line. op (of_nat line)) (cache_lines (unat start) (unat end_addr)) s
             in emz_dma_cache_fence c s)"

definition emz_dma_cache_flush :: "ctx \<Rightarrow> u32 \<Rightarrow> u32 \<Rightarrow> emz \<Rightarrow> emz" where
  "emz_dma_cache_flush c addr sz s = emz_dma_cache_range c addr sz (emz_dma_cache_clean_line c) s"

definition emz_dma_cache_invd :: "ctx \<Rightarrow> u32 \<Rightarrow> u32 \<Rightarrow> emz \<Rightarrow> emz" where
  "emz_dma_cache_invd c addr sz s = emz_dma_cache_range c addr sz (emz_dma_cache_invd_line c) s"

section \<open>Frame\<close>

lemma fold_frame:
  assumes "\<And>x s. f (g x s) = f s"
  shows "f (fold g xs s) = f s"
  by (induction xs arbitrary: s) (simp_all add: assms)

lemma cache_frame [simp, emz_frame]:
  "dat (emz_dma_cache_flush c a n s) = dat s"
  "aux (emz_dma_cache_flush c a n s) = aux s"
  "dat (emz_dma_cache_invd c a n s) = dat s"
  "aux (emz_dma_cache_invd c a n s) = aux s"
  by (simp_all add: emz_dma_cache_flush_def emz_dma_cache_invd_def emz_dma_cache_range_def Let_def
      emz_dma_cache_fence_def emz_dma_cache_clean_line_def emz_dma_cache_invd_line_def
      fold_frame [where f = dat] fold_frame [where f = aux])

text \<open>Cache maintenance adds fences and line operations to the trace, nothing else.\<close>

lemma cache_range_ev_count:
  assumes "\<not> P Fence_iorw" and "\<And>a s. ev_count P (opr a s) = ev_count P s"
  shows "ev_count P (emz_dma_cache_range c addr sz opr s) = ev_count P s"
  using assms
  by (simp add: emz_dma_cache_range_def Let_def emz_dma_cache_fence_def
      fold_frame [where f = "ev_count P"])

lemma cache_ev_count:
  assumes "\<not> P Fence_iorw" and "\<And>a. \<not> P (Cbo_clean a)" and "\<And>a. \<not> P (Cbo_inval a)"
  shows "ev_count P (emz_dma_cache_flush c a n s) = ev_count P s"
    and "ev_count P (emz_dma_cache_invd c a n s) = ev_count P s"
  using assms
  by (simp_all add: emz_dma_cache_flush_def emz_dma_cache_invd_def emz_dma_cache_clean_line_def
      emz_dma_cache_invd_line_def cache_range_ev_count)

section \<open>Which lines are maintained\<close>

lemma cache_lines_no_wrap:
  assumes "16 dvd e" and "16 dvd l" and "x \<in> set (cache_lines l e)"
  shows "l \<le> x \<and> 16 dvd x \<and> x + 16 \<le> e"
  using assms
proof (induction l e rule: cache_lines.induct)
  case (1 l e)
  show ?case
  proof (cases "l < e")
    case True
    then have "l + 16 \<le> e" using 1(2,3) by (auto simp: dvd_def)
    with True 1 show ?thesis
      by (auto simp: cache_lines.simps [of l e] EMZ_DMA_CACHE_LINE_SIZE_def)
  next
    case False
    with 1(4) show ?thesis by (simp add: cache_lines.simps [of l e])
  qed
qed

lemma line_of_byte:
  fixes b l :: nat
  assumes "16 dvd l" and "l \<le> b" and "b < l + 16"
  shows "b - b mod 16 = l"
proof -
  obtain q where q: "l = 16 * q" using assms(1) by (auto simp: dvd_def)
  have "b div 16 = q" using assms(2,3) q by (intro div_nat_eqI) auto
  then show ?thesis by (simp add: minus_mod_eq_mult_div q)
qed

lemma cache_lines_cover:
  assumes "16 dvd l" and "l \<le> b" and "b < e"
  shows "b - b mod 16 \<in> set (cache_lines l e)"
  using assms
proof (induction l e rule: cache_lines.induct)
  case (1 l e)
  have e: "set (cache_lines l e) = insert l (set (cache_lines (l + 16) e))"
    using 1(3,4) by (simp add: cache_lines.simps [of l e] EMZ_DMA_CACHE_LINE_SIZE_def)
  show ?case
  proof (cases "b < l + 16")
    case True
    with 1(2,3) have "b - b mod 16 = l" by (intro line_of_byte)
    then show ?thesis by (simp add: e)
  next
    case False
    then show ?thesis
      using 1 by (simp add: e EMZ_DMA_CACHE_LINE_SIZE_def)
  qed
qed

lemma fold_emit_tr:
  assumes "\<And>x s. g x s = emit (ev x) s"
  shows "tr (fold g xs s) = rev (map ev xs) @ tr s"
  by (induction xs arbitrary: s) (simp_all add: assms)

lemma unat_line_start: "unat ((addr :: u32) AND NOT 15) = unat addr - unat addr mod 16"
proof -
  have m: "(15 :: u32) = mask 4" by (simp add: mask_eq_exp_minus_1)
  have "addr AND NOT 15 = push_bit 4 (drop_bit 4 addr)"
    by (rule bit_word_eqI) (auto simp: m bit_simps)
  moreover have "unat (drop_bit 4 addr) = unat addr div 16"
    unfolding drop_bit_eq_div by (simp add: unat_div)
  moreover have "unat addr div 16 * 16 < 2 ^ 32"
    using unat_less_exp [of addr] by simp
  ultimately have "unat (addr AND NOT 15) = unat addr div 16 * 16"
    by (simp add: push_bit_eq_mult unat_mult_no_wrap)
  then show ?thesis by (simp add: minus_mod_eq_div_mult)
qed

lemma unat_line_end:
  assumes "unat addr + unat sz + 15 < 2 ^ 32"
  shows "unat (ROUND_UP (addr + sz) 16) = ((unat addr + unat sz + 15) div 16) * 16"
proof -
  have "unat (addr + sz) = unat addr + unat sz" using assms by (simp add: unat_add_no_wrap)
  then show ?thesis using assms unat_ROUND_UP [of 16 "addr + sz"] by simp
qed

text \<open>The events one maintained range adds, as \<open>Cbo_clean\<close> or \<open>Cbo_inval\<close> gives them.\<close>

lemma cache_range_trace:
  assumes "cfg_dcache_maint (kc c)" and "sz \<noteq> 0"
    and "\<And>x s. op x s = emit (ev x) s"
    and "\<not> (ROUND_UP (addr + sz) 16 \<le> EMZ_DMA_DCACHE_BASE)"
    and "\<not> EMZ_DMA_DCACHE_HIGH < addr AND NOT 15"
  shows "tr (emz_dma_cache_range c addr sz op s) = Fence_iorw #
    rev (map (\<lambda>l. ev (of_nat l))
      (cache_lines (unat (addr AND NOT 15)) (unat (ROUND_UP (addr + sz) 16)))) @ Fence_iorw # tr s"
  using assms
  by (simp add: emz_dma_cache_range_def Let_def emz_dma_cache_fence_def
      fold_emit_tr [where g = "\<lambda>l. op (of_nat l)" and ev = "\<lambda>l. ev (of_nat l)"])

lemma lines_of_range:
  assumes nowrap: "unat addr + unat sz + 15 < 2 ^ 32"
    and b: "unat addr \<le> b" "b < unat addr + unat sz"
  defines "ls \<equiv> cache_lines (unat (addr AND NOT 15)) (unat (ROUND_UP (addr + sz) 16))"
  shows "b - b mod 16 \<in> set ls"
    and "x \<in> set ls \<Longrightarrow> 16 dvd x \<and> unat addr < x + 16 \<and> x < unat addr + unat sz"
proof -
  let ?l = "unat addr - unat addr mod 16" and ?e = "((unat addr + unat sz + 15) div 16) * 16"
  have ls: "ls = cache_lines ?l ?e"
    unfolding ls_def unat_line_start unat_line_end [OF nowrap] ..
  have dvd: "16 dvd ?l" "16 dvd ?e" by (simp_all add: dvd_minus_mod)
  have e: "unat addr + unat sz \<le> ?e" "?e < unat addr + unat sz + 16"
    using round_up_bounds [of 16 "unat addr + unat sz"] by simp_all
  have "b < ?e" using b(2) e(1) by linarith
  then show "b - b mod 16 \<in> set ls"
    unfolding ls using b(1) dvd(1) by (intro cache_lines_cover) auto
  assume "x \<in> set ls"
  then have x: "?l \<le> x \<and> 16 dvd x \<and> x + 16 \<le> ?e"
    unfolding ls using cache_lines_no_wrap [OF dvd(2,1)] by blast
  moreover have "unat addr < ?l + 16"
    using mod_less_divisor [of 16 "unat addr"] by linarith
  ultimately show "16 dvd x \<and> unat addr < x + 16 \<and> x < unat addr + unat sz"
    using e(2) by linarith
qed

text \<open>
  C37: with cache maintenance on, cleaning a range that does not wrap reaches the line of
  every cached byte of it, works between two fences, and touches only lines of the range.
\<close>
theorem cache_flush_covers:
  assumes maint: "cfg_dcache_maint (kc c)"
    and nowrap: "unat addr + unat sz + 15 < 2 ^ 32"
    and b: "unat addr \<le> b" "b < unat addr + unat sz"
    and cached: "unat EMZ_DMA_DCACHE_BASE \<le> b" "b \<le> unat EMZ_DMA_DCACHE_HIGH"
  shows "\<exists>ls. tr (emz_dma_cache_flush c addr sz s) =
           Fence_iorw # map (\<lambda>l. Cbo_clean (of_nat l)) ls @ Fence_iorw # tr s \<and>
         b - b mod 16 \<in> set ls \<and>
         (\<forall>x \<in> set ls. 16 dvd x \<and> unat addr < x + 16 \<and> x < unat addr + unat sz)"
proof -
  let ?ls = "cache_lines (unat (addr AND NOT 15)) (unat (ROUND_UP (addr + sz) 16))"
  have "sz \<noteq> 0" using b by auto
  moreover have "\<not> ROUND_UP (addr + sz) 16 \<le> EMZ_DMA_DCACHE_BASE"
    using b(2) cached(1) round_up_bounds(1) [of 16 "unat addr + unat sz"]
    unfolding word_le_nat_alt unat_line_end [OF nowrap] by simp
  moreover have "\<not> EMZ_DMA_DCACHE_HIGH < addr AND NOT 15"
    unfolding word_less_nat_alt unat_line_start using b(1) cached(2) by linarith
  ultimately have "tr (emz_dma_cache_flush c addr sz s) =
      Fence_iorw # rev (map (\<lambda>l. Cbo_clean (of_nat l)) ?ls) @ Fence_iorw # tr s"
    unfolding emz_dma_cache_flush_def
    by (intro cache_range_trace) (simp_all add: maint emz_dma_cache_clean_line_def)
  then have "tr (emz_dma_cache_flush c addr sz s) =
      Fence_iorw # map (\<lambda>l. Cbo_clean (of_nat l)) (rev ?ls) @ Fence_iorw # tr s"
    by (simp add: rev_map)
  then show ?thesis
    using lines_of_range [OF nowrap b] by (intro exI [of _ "rev ?ls"]) auto
qed

text \<open>
  A range outside the aperture costs nothing: this is the DMA window of the application,
  which a build-time assertion keeps clear of the cached addresses.
\<close>

lemma cache_flush_uncached:
  assumes "unat EMZ_DMA_DCACHE_HIGH + 16 \<le> unat addr"
  shows "emz_dma_cache_flush c addr sz s = s" and "emz_dma_cache_invd c addr sz s = s"
proof -
  have "EMZ_DMA_DCACHE_HIGH < addr AND NOT 15"
    unfolding word_less_nat_alt unat_line_start
    using assms mod_less_divisor [of 16 "unat addr"] by linarith
  then show "emz_dma_cache_flush c addr sz s = s" and "emz_dma_cache_invd c addr sz s = s"
    by (simp_all add: emz_dma_cache_flush_def emz_dma_cache_invd_def emz_dma_cache_range_def Let_def)
qed

end
