(* ===== verification/RxRefill.thy ===== *)
theory RxRefill
  imports Cache
begin

text \<open>
  Giving RX buffers to the DMA engine and getting them back, in
  \<^verbatim>\<open>drivers/ethernet/eth_emaczero.c\<close>: programming a descriptor, posting one buffer,
  the refill loops of the direct ring and of the generic DMA API, releasing a buffer.
  Each operation comes with the equation that says what it does to \<^verbatim>\<open>emaczero_data\<close>;
  the \<open>d_\<close> functions name those data effects, without statistics, caches and clocks.
\<close>

section \<open>Statistics over the driver state\<close>

definition emz_perf_note_dma_callback_gap :: "ctx \<Rightarrow> u32 \<Rightarrow> emz \<Rightarrow> emz" where
  "emz_perf_note_dma_callback_gap c now_cycle s =
     (let last = last_dma_callback_cycle (dat s);
          s = (if last \<noteq> 0 then
                 let gap_cycles = now_cycle - last;
                     s = upd_perf (emz_perf_set_max_u32 Dma_callback_gap_cycles_max gap_cycles) s
                 in if sys_clock_hz (kc c) div 1000 \<le> gap_cycles
                    then upd_perf (inc32 Dma_callback_gap_ge_1ms) s else s
               else s)
      in upd_dat (\<lambda>d. d\<lparr>last_dma_callback_cycle := now_cycle\<rparr>) s)"

definition emz_perf_update_pool_inflight :: "ctx \<Rightarrow> emz \<Rightarrow> emz" where
  "emz_perf_update_pool_inflight c s =
     (let d = dat s;
          free_count = rx_free_count d;
          dma_fifo_count = rx_dma_fifo_count d;
          ready_fifo_count = rx_ready_fifo_count d;
          worker_count = rx_worker_count d;
          stack_owned_count = rx_stack_owned_count d;
          owner_sum = free_count + dma_fifo_count + ready_fifo_count + worker_count
                      + stack_owned_count;
          n = (of_nat (rx_count c) :: u32);
          inflight = (if free_count \<le> n then n - free_count else 0)
      in upd_perf (\<lambda>p.
           let p = set32 Rx_free_current free_count p;
               p = set32 Rx_dma_fifo_current dma_fifo_count p;
               p = set32 Rx_ready_fifo_current ready_fifo_count p;
               p = set32 Rx_worker_current worker_count p;
               p = set32 Rx_stack_owned_current stack_owned_count p;
               p = set32 Rx_owner_sum_current owner_sum p;
               p = (if owner_sum + 8 < n \<or> n + 8 < owner_sum then inc32 Rx_owner_sum_bad p else p);
               p = set32 Rx_pool_inflight_current inflight p
           in emz_perf_set_max_u32 Rx_pool_inflight_high inflight p) s)"

definition emz_perf_set_bd_available :: "ctx \<Rightarrow> emz \<Rightarrow> emz" where
  "emz_perf_set_bd_available c s =
     (let available = of_nat (rx_count c) - rx_bd_posted (dat s)
      in upd_perf (\<lambda>p. emz_perf_set_min_u32 Rx_bd_available_min available
                        (set32 Rx_bd_available_current available p)) s)"

lemma perf_frame [simp, emz_frame]:
  "dat (emz_perf_update_pool_inflight c s) = dat s"
  "tr (emz_perf_update_pool_inflight c s) = tr s"
  "dat (emz_perf_set_bd_available c s) = dat s"
  "tr (emz_perf_set_bd_available c s) = tr s"
  "dat (emz_perf_note_dma_callback_gap c now s) = (dat s)\<lparr>last_dma_callback_cycle := now\<rparr>"
  "tr (emz_perf_note_dma_callback_gap c now s) = tr s"
  by (simp_all add: emz_perf_update_pool_inflight_def emz_perf_set_bd_available_def
      emz_perf_note_dma_callback_gap_def Let_def)

section \<open>The direct ring: posting a buffer\<close>

definition emz_rx_direct_enabled :: "ctx \<Rightarrow> bool" where
  "emz_rx_direct_enabled c \<longleftrightarrow> cfg_rx_direct_ring (kc c) \<and> cfg_dma_base (cfg c) \<noteq> 0"

abbreviation eth_buffer_size :: "ctx \<Rightarrow> u32" where
  "eth_buffer_size c \<equiv> of_nat (net_eth_max_frame_size (kc c))"

definition rx_bd_addr :: "emaczero_data \<Rightarrow> nat \<Rightarrow> u32" where
  "rx_bd_addr d index = rx_bd_ring_addr d + bd_size * of_nat index"

definition emz_rx_direct_program_bd :: "ctx \<Rightarrow> nat \<Rightarrow> nat \<Rightarrow> emz \<Rightarrow> emz" where
  "emz_rx_direct_program_bd c index rx s =
     (let bytes = rxb_addr (rx_buffer (dat s) ! rx);
          s = emz_dma_cache_flush c bytes (eth_buffer_size c) s;
          s = emz_dma_cache_invd c bytes (eth_buffer_size c) s;
          s = upd_dat (\<lambda>d. d\<lparr>rx_bd_ring := (rx_bd_ring d)[index := (rx_bd_ring d ! index)
                \<lparr>buffer_address := bytes, buffer_address_msb := 0,
                 bd_control := eth_buffer_size c AND EMZ_AXI_DMA_BD_CTRL_LEN_MASK,
                 app0 := 0, app1 := 0, app2 := 0, app3 := 0, app4 := 0,
                 bd_status := 0\<rparr>]\<rparr>) s;
          s = upd_dat (\<lambda>d. d\<lparr>rx_bd_buffer := (rx_bd_buffer d)[index := Some rx]\<rparr>) s
      in emz_dma_cache_flush c (rx_bd_addr (dat s) index) bd_size s)"

definition EMZ_AXI_DMA_REG_S2MM_TAILDESC :: u32 where "EMZ_AXI_DMA_REG_S2MM_TAILDESC = 0x40"

definition emz_dma_write :: "ctx \<Rightarrow> u32 \<Rightarrow> u32 \<Rightarrow> emz \<Rightarrow> emz" where
  "emz_dma_write c reg v s = reg_write (cfg_dma_base (cfg c) + reg) v s"

definition emz_rx_direct_update_tail :: "ctx \<Rightarrow> emz \<Rightarrow> emz" where
  "emz_rx_direct_update_tail c s =
     (if \<not> rx_direct_ring_started (dat s) then s
      else
        let index = rx_bd_tail_index (dat s);
            tail_start = cycle_now c s; s = tick s;
            s = emit Dmem_fence s;
            s = emz_dma_write c EMZ_AXI_DMA_REG_S2MM_TAILDESC (rx_bd_addr (dat s) index) s;
            s = r7_since c EMZ_R7_TAIL_CSR tail_start s
        in upd_perf (inc64 Rx_bd_tail_updates) s)"

definition emz_rx_direct_post_one :: "ctx \<Rightarrow> nat \<Rightarrow> emz \<Rightarrow> int \<times> emz" where
  "emz_rx_direct_post_one c rx s =
     (let post_start = cycle_now c s; s = tick s;
          s = emz_r7_note_lock c s;
          index = rx_bd_refill_index (dat s)
      in if rx_bd_buffer (dat s) ! index \<noteq> None then
           let s = r7_since c EMZ_R7_LOCK_POST post_start s;
               s = upd_perf (inc64 Rx_bd_no_free) s
           in (0, s)
         else if of_nat (rx_dma_post_count (kc c)) \<le> rx_dma_inflight (dat s) then
           (0, r7_since c EMZ_R7_LOCK_POST post_start s)
         else
           let s = upd_dat (\<lambda>d. d\<lparr>rx_dma_inflight := rx_dma_inflight d + 1\<rparr>) s;
               s = upd_perf (emz_perf_set_max_u32 Rx_max_dma_inflight (rx_dma_inflight (dat s))) s;
               s = upd_prof c (emaczero_profile_max MAX_RX_DMA_INFLIGHT (rx_dma_inflight (dat s))) s;
               s = emz_rx_direct_program_bd c index rx s;
               s = upd_dat (\<lambda>d. d\<lparr>rx_bd_posted := rx_bd_posted d + 1\<rparr>) s;
               s = emz_perf_set_bd_available c s;
               s = upd_perf (inc64 Rx_bd_refilled) s;
               s = upd_dat (\<lambda>d. d\<lparr>rx_bd_refill_index := (index + 1) mod rx_count c,
                                rx_bd_tail_index := index\<rparr>) s;
               s = r7_since c EMZ_R7_LOCK_POST post_start s;
               s = upd_dat (\<lambda>d. d\<lparr>rx_dma_fifo_count := rx_dma_fifo_count d + 1\<rparr>) s
           in (1, emz_perf_update_pool_inflight c s))"

text \<open>What posting does to the data.\<close>

definition can_post :: "ctx \<Rightarrow> emaczero_data \<Rightarrow> bool" where
  "can_post c d \<longleftrightarrow> rx_bd_buffer d ! rx_bd_refill_index d = None \<and>
     rx_dma_inflight d < of_nat (rx_dma_post_count (kc c))"

definition programmed_bd :: "ctx \<Rightarrow> u32 \<Rightarrow> emaczero_rx_bd \<Rightarrow> emaczero_rx_bd" where
  "programmed_bd c bytes bd = bd\<lparr>buffer_address := bytes, buffer_address_msb := 0,
     bd_control := eth_buffer_size c AND EMZ_AXI_DMA_BD_CTRL_LEN_MASK,
     app0 := 0, app1 := 0, app2 := 0, app3 := 0, app4 := 0, bd_status := 0\<rparr>"

definition d_post :: "ctx \<Rightarrow> nat \<Rightarrow> emaczero_data \<Rightarrow> emaczero_data" where
  "d_post c rx d =
     (let index = rx_bd_refill_index d
      in d\<lparr>rx_dma_inflight := rx_dma_inflight d + 1,
           rx_bd_ring := (rx_bd_ring d)[index :=
             programmed_bd c (rxb_addr (rx_buffer d ! rx)) (rx_bd_ring d ! index)],
           rx_bd_buffer := (rx_bd_buffer d)[index := Some rx],
           rx_bd_posted := rx_bd_posted d + 1,
           rx_bd_refill_index := (index + 1) mod rx_count c,
           rx_bd_tail_index := index,
           rx_dma_fifo_count := rx_dma_fifo_count d + 1\<rparr>)"

lemma program_bd_frame [simp, emz_frame]:
  "dat (emz_rx_direct_program_bd c index rx s) = (dat s)
     \<lparr>rx_bd_ring := (rx_bd_ring (dat s))[index :=
        programmed_bd c (rxb_addr (rx_buffer (dat s) ! rx)) (rx_bd_ring (dat s) ! index)],
      rx_bd_buffer := (rx_bd_buffer (dat s))[index := Some rx]\<rparr>"
  "aux (emz_rx_direct_program_bd c index rx s) = aux s"
  by (simp_all add: emz_rx_direct_program_bd_def programmed_bd_def Let_def)

lemma post_one_dat:
  "emz_rx_direct_post_one c rx s = (ret, s') \<Longrightarrow>
   (if can_post c (dat s) then ret = 1 \<and> dat s' = d_post c rx (dat s)
    else ret = 0 \<and> dat s' = dat s)"
  by (auto simp: emz_rx_direct_post_one_def can_post_def d_post_def Let_def not_le split: if_splits)

lemma update_tail_dat [simp, emz_frame]: "dat (emz_rx_direct_update_tail c s) = dat s"
  by (simp add: emz_rx_direct_update_tail_def emz_dma_write_def Let_def)

section \<open>The direct refill loop\<close>

text \<open>
  \<^verbatim>\<open>emz_rx_direct_refill\<close>: take a free buffer, post it, until the pool is empty or the
  ring takes no more; then publish the tail once. Every round that goes on shortens
  \<open>rx_free_fifo\<close>, which is why the loop ends.
\<close>

definition note_posted :: "ctx \<Rightarrow> emz \<Rightarrow> emz" where
  "note_posted c s =
     (let s = upd_dat (\<lambda>d. d\<lparr>rx_free_count := rx_free_count d - 1\<rparr>) s;
          s = emz_perf_update_pool_inflight c s;
          s = upd_perf (emz_perf_set_min_u32 Rx_min_free (rx_free_count (dat s))) s;
          s = upd_prof c (emaczero_profile_min MIN_RX_FREE (rx_free_count (dat s))) s;
          s = upd_perf (inc64 Rx_refill_queued) s
      in upd_prof c (emaczero_profile_counter COUNTER_RX_REFILL_QUEUED) s)"

lemma note_posted_dat [simp, emz_frame]:
  "dat (note_posted c s) = (dat s)\<lparr>rx_free_count := rx_free_count (dat s) - 1\<rparr>"
  by (simp add: note_posted_def Let_def)

lemma d_post_free [simp]: "rx_free_fifo (d_post c rx d) = rx_free_fifo d"
  by (simp add: d_post_def Let_def)

function direct_refill_loop :: "ctx \<Rightarrow> int \<Rightarrow> emz \<Rightarrow> int \<times> emz" where
  "direct_refill_loop c queued s =
     (case rx_free_fifo (dat s) of
        [] \<Rightarrow>
          let s = upd_perf (inc64 Rx_refill_no_free) s;
              s = upd_perf (inc64 Rx_bd_no_free) s
          in (queued, upd_prof c (emaczero_profile_counter COUNTER_RX_REFILL_NO_FREE) s)
      | rx # rest \<Rightarrow>
          case emz_rx_direct_post_one c rx (upd_dat (\<lambda>d. d\<lparr>rx_free_fifo := rest\<rparr>) s) of
            (ret, s1) \<Rightarrow>
              if ret \<le> 0 then (queued, upd_dat (\<lambda>d. d\<lparr>rx_free_fifo := rx_free_fifo d @ [rx]\<rparr>) s1)
              else direct_refill_loop c (queued + 1) (note_posted c s1))"
  by pat_completeness auto

termination
proof (relation "measure (\<lambda>(c, q, s). length (rx_free_fifo (dat s)))")
  show "wf (measure (\<lambda>(c, q, s). length (rx_free_fifo (dat s))))" by simp
next
  fix c queued s rx rest ret s1
  assume free: "rx_free_fifo (dat s) = rx # rest"
    and r: "(ret, s1) = emz_rx_direct_post_one c rx (upd_dat (\<lambda>d. d\<lparr>rx_free_fifo := rest\<rparr>) s)"
    and go: "\<not> ret \<le> (0 :: int)"
  have "rx_free_fifo (dat s1) = rest"
    using post_one_dat [of c rx "upd_dat (\<lambda>d. d\<lparr>rx_free_fifo := rest\<rparr>) s" ret s1] r go
    by (auto split: if_splits)
  then show "((c, queued + 1, note_posted c s1), (c, queued, s))
      \<in> measure (\<lambda>(c, q, s). length (rx_free_fifo (dat s)))"
    by (simp add: free)
qed

declare direct_refill_loop.simps [simp del]

definition emz_rx_direct_refill :: "ctx \<Rightarrow> emz \<Rightarrow> int \<times> emz" where
  "emz_rx_direct_refill c s =
     (case direct_refill_loop c 0 s of
        (queued, s) \<Rightarrow> (queued, if queued > 0 then emz_rx_direct_update_tail c s else s))"

text \<open>The same on the data: how many buffers are posted and what becomes of the state.\<close>

function d_refill :: "ctx \<Rightarrow> emaczero_data \<Rightarrow> emaczero_data" where
  "d_refill c d =
     (case rx_free_fifo d of
        [] \<Rightarrow> d
      | rx # rest \<Rightarrow>
          if can_post c d
          then d_refill c ((d_post c rx (d\<lparr>rx_free_fifo := rest\<rparr>))
                 \<lparr>rx_free_count := rx_free_count d - 1\<rparr>)
          else d\<lparr>rx_free_fifo := rest @ [rx]\<rparr>)"
  by pat_completeness auto
termination
  by (relation "measure (\<lambda>(c, d). length (rx_free_fifo d))") auto

declare d_refill.simps [simp del]

lemma can_post_free [simp]: "can_post c (d\<lparr>rx_free_fifo := xs\<rparr>) = can_post c d"
  by (simp add: can_post_def)

lemma d_post_free_count [simp]: "rx_free_count (d_post c rx d) = rx_free_count d"
  by (simp add: d_post_def Let_def)

lemma direct_refill_loop_dat: "dat (snd (direct_refill_loop c q s)) = d_refill c (dat s)"
proof (induction c q s rule: direct_refill_loop.induct)
  case (1 c q s)
  show ?case
  proof (cases "rx_free_fifo (dat s)")
    case Nil
    then show ?thesis
      by (simp add: direct_refill_loop.simps [of c q s] d_refill.simps [of c "dat s"] Let_def)
  next
    case (Cons rx rest)
    obtain ret s1 where p:
      "emz_rx_direct_post_one c rx (upd_dat (\<lambda>d. d\<lparr>rx_free_fifo := rest\<rparr>) s) = (ret, s1)"
      by (cases "emz_rx_direct_post_one c rx (upd_dat (\<lambda>d. d\<lparr>rx_free_fifo := rest\<rparr>) s)")
    note dat1 = post_one_dat [OF p, simplified]
    have ih: "0 < ret \<Longrightarrow>
        dat (snd (direct_refill_loop c (q + 1) (note_posted c s1))) = d_refill c (dat (note_posted c s1))"
      using 1 [OF Cons p [symmetric]] by simp
    show ?thesis
      using dat1 ih
      by (auto simp: direct_refill_loop.simps [of c q s] d_refill.simps [of c "dat s"] Cons p
          split: if_splits)
  qed
qed

lemma direct_refill_dat [simp, emz_frame]:
  "dat (snd (emz_rx_direct_refill c s)) = d_refill c (dat s)"
  using direct_refill_loop_dat [of c 0 s]
  by (cases "direct_refill_loop c 0 s") (simp add: emz_rx_direct_refill_def)

section \<open>The generic DMA API\<close>

text \<open>
  \<^verbatim>\<open>emz_queue_dma_rx_buffer\<close>: the first buffer configures the channel, the later ones
  reload it. The channel options other than address and size are constants of the source.
\<close>

definition emz_queue_dma_rx_buffer :: "ctx \<Rightarrow> nat \<Rightarrow> emz \<Rightarrow> int \<times> emz" where
  "emz_queue_dma_rx_buffer c rx s =
     (if \<not> cfg_dma (cfg c) then (- ENODEV, s)
      else
        let bytes = rxb_addr (rx_buffer (dat s) ! rx);
            start = (\<lambda>s.
              let s = emz_dma_cache_flush c bytes (eth_buffer_size c) s;
                  s = emz_dma_cache_invd c bytes (eth_buffer_size c) s;
                  s = upd_dat (\<lambda>d. d\<lparr>rx_dma_fifo := rx_dma_fifo d @ [rx],
                        rx_dma_fifo_count := rx_dma_fifo_count d + 1\<rparr>) s;
                  s = emz_perf_update_pool_inflight c s;
                  s = upd_perf (inc64 Rx_dma_start_calls) s;
                  ret = ext_ret c Ext_dma_start_rx s;
                  s = ext_call c Ext_dma_start_rx s
              in (ret, if ret \<noteq> 0 then upd_perf (inc64 Rx_dma_start_fail) s else s))
        in if \<not> dma_is_configured_rx (dat s) then
             let s = upd_perf (inc64 Rx_dma_config_calls) s;
                 x = Ext_dma_config_rx bytes (eth_buffer_size c);
                 ret = ext_ret c x s; s = ext_call c x s
             in if ret \<noteq> 0 then (ret, upd_perf (inc64 Rx_dma_config_fail) s)
                else start (upd_dat (\<lambda>d. d\<lparr>dma_is_configured_rx := True\<rparr>) s)
           else
             let s = upd_perf (inc64 Rx_dma_reload_calls) s;
                 x = Ext_dma_reload_rx bytes (eth_buffer_size c);
                 ret = ext_ret c x s; s = ext_call c x s
             in if ret \<noteq> 0 then (ret, upd_perf (inc64 Rx_dma_reload_fail) s) else start s)"

definition note_min_free :: "ctx \<Rightarrow> emz \<Rightarrow> emz" where
  "note_min_free c s =
     (let s = upd_perf (emz_perf_set_min_u32 Rx_min_free (rx_free_count (dat s))) s
      in upd_prof c (emaczero_profile_min MIN_RX_FREE (rx_free_count (dat s))) s)"

lemma note_min_free_dat [simp, emz_frame]: "dat (note_min_free c s) = dat s"
  by (simp add: note_min_free_def Let_def)

lemma queue_dma_rx_buffer_free [simp]:
  "rx_free_fifo (dat (snd (emz_queue_dma_rx_buffer c rx s))) = rx_free_fifo (dat s)"
  by (simp add: emz_queue_dma_rx_buffer_def Let_def)

text \<open>
  The loop of \<^verbatim>\<open>emz_refill_dma_rx\<close> on the generic API: claim an inflight slot, take a
  free buffer, queue it; \<open>legacy_unclaim\<close> and \<open>legacy_give_back\<close> are the two ways out.
  \<open>Inl\<close> is the early return of the error, \<open>Inr\<close> the number of buffers queued.
\<close>

definition legacy_claim :: "ctx \<Rightarrow> emz \<Rightarrow> emz" where
  "legacy_claim c s =
     (let s = upd_dat (\<lambda>d. d\<lparr>rx_dma_inflight := rx_dma_inflight d + 1\<rparr>) s;
          s = upd_perf (emz_perf_set_max_u32 Rx_max_dma_inflight (rx_dma_inflight (dat s))) s
      in upd_prof c (emaczero_profile_max MAX_RX_DMA_INFLIGHT (rx_dma_inflight (dat s))) s)"

definition legacy_unclaim :: "ctx \<Rightarrow> emz \<Rightarrow> emz" where
  "legacy_unclaim c s =
     (let s = upd_dat (\<lambda>d. d\<lparr>rx_dma_inflight := rx_dma_inflight d - 1\<rparr>) s;
          s = upd_perf (inc64 Rx_refill_no_free) s
      in upd_prof c (emaczero_profile_counter COUNTER_RX_REFILL_NO_FREE) s)"

definition legacy_take :: "ctx \<Rightarrow> nat list \<Rightarrow> emz \<Rightarrow> emz" where
  "legacy_take c rest s =
     (let s = upd_dat (\<lambda>d. d\<lparr>rx_free_fifo := rest\<rparr>) s;
          s = upd_dat (\<lambda>d. d\<lparr>rx_free_count := rx_free_count d - 1\<rparr>) s;
          s = emz_perf_update_pool_inflight c s
      in note_min_free c s)"

definition legacy_give_back :: "ctx \<Rightarrow> nat \<Rightarrow> emz \<Rightarrow> emz" where
  "legacy_give_back c rx s =
     (let s = upd_dat (\<lambda>d. d\<lparr>rx_dma_inflight := rx_dma_inflight d - 1\<rparr>) s;
          s = upd_dat (\<lambda>d. d\<lparr>rx_free_count := rx_free_count d + 1\<rparr>) s;
          s = emz_perf_update_pool_inflight c s
      in upd_dat (\<lambda>d. d\<lparr>rx_free_fifo := rx_free_fifo d @ [rx]\<rparr>) s)"

definition legacy_note_queued :: "ctx \<Rightarrow> emz \<Rightarrow> emz" where
  "legacy_note_queued c s =
     upd_prof c (emaczero_profile_counter COUNTER_RX_REFILL_QUEUED) (upd_perf (inc64 Rx_refill_queued) s)"

lemma legacy_dat [simp, emz_frame]:
  "dat (legacy_claim c s) = (dat s)\<lparr>rx_dma_inflight := rx_dma_inflight (dat s) + 1\<rparr>"
  "dat (legacy_unclaim c s) = (dat s)\<lparr>rx_dma_inflight := rx_dma_inflight (dat s) - 1\<rparr>"
  "dat (legacy_take c rest s) =
     (dat s)\<lparr>rx_free_fifo := rest, rx_free_count := rx_free_count (dat s) - 1\<rparr>"
  "dat (legacy_give_back c rx s) = (dat s)\<lparr>rx_dma_inflight := rx_dma_inflight (dat s) - 1,
     rx_free_count := rx_free_count (dat s) + 1, rx_free_fifo := rx_free_fifo (dat s) @ [rx]\<rparr>"
  "dat (legacy_note_queued c s) = dat s"
  by (simp_all add: legacy_claim_def legacy_unclaim_def legacy_take_def legacy_give_back_def
      legacy_note_queued_def Let_def)

function legacy_refill_loop :: "ctx \<Rightarrow> int \<Rightarrow> emz \<Rightarrow> (int + int) \<times> emz" where
  "legacy_refill_loop c queued s =
     (if of_nat (rx_dma_post_count (kc c)) \<le> rx_dma_inflight (dat s) then (Inr queued, s)
      else
        (case rx_free_fifo (dat (legacy_claim c s)) of
           [] \<Rightarrow> (Inr queued, legacy_unclaim c (legacy_claim c s))
         | rx # rest \<Rightarrow>
             (case emz_queue_dma_rx_buffer c rx (legacy_take c rest (legacy_claim c s)) of
                (ret, s1) \<Rightarrow>
                  if ret \<noteq> 0 then (Inl ret, legacy_give_back c rx s1)
                  else legacy_refill_loop c (queued + 1) (legacy_note_queued c s1))))"
  by pat_completeness auto
termination
proof (relation "measure (\<lambda>(c, q, s). length (rx_free_fifo (dat s)))")
  show "wf (measure (\<lambda>(c, q, s). length (rx_free_fifo (dat s))))" by simp
next
  fix c :: ctx and q :: int and s rx rest ret s1
  assume a: "rx_free_fifo (dat (legacy_claim c s)) = rx # rest"
    "(ret, s1) = emz_queue_dma_rx_buffer c rx (legacy_take c rest (legacy_claim c s))"
  have "rx_free_fifo (dat s1) = rest"
    using queue_dma_rx_buffer_free [of c rx "legacy_take c rest (legacy_claim c s)"] a(2) [symmetric]
    by simp
  then show "((c, q + 1, legacy_note_queued c s1), (c, q, s))
      \<in> measure (\<lambda>(c, q, s). length (rx_free_fifo (dat s)))"
    using a(1) by simp
qed

declare legacy_refill_loop.simps [simp del]

definition emz_refill_dma_rx :: "ctx \<Rightarrow> emz \<Rightarrow> int \<times> emz" where
  "emz_refill_dma_rx c s =
     (let start_cycle = cycle_now c s; s = tick s;
          s = upd_prof c (emaczero_profile_counter COUNTER_RX_REFILL_CALLS) s;
          s = upd_perf (inc64 Rx_refill_calls) s;
          out = (\<lambda>queued s.
            let s = upd_perf (emz_perf_set_max_u32 Rx_refill_queued_max (word_of_int queued)) s
            in (queued,
                if queued > 0 then
                  let refill_cycles = cycle_now c s - start_cycle; s = tick s;
                      s = upd_perf (emz_perf_set_max_u32 Rx_refill_cycles_max refill_cycles) s
                  in if sys_clock_hz (kc c) div 1000 \<le> refill_cycles
                     then upd_perf (inc32 Rx_refill_cycles_ge_1ms) s else s
                else s))
      in if emz_rx_direct_enabled c then
           (case emz_rx_direct_refill c s of (queued, s) \<Rightarrow> out queued s)
         else
           (case legacy_refill_loop c 0 s of
              (Inl err, s) \<Rightarrow> (err, s)
            | (Inr queued, s) \<Rightarrow> out queued s))"

lemma refill_dma_rx_dat [simp, emz_frame]:
  "emz_rx_direct_enabled c \<Longrightarrow> dat (snd (emz_refill_dma_rx c s)) = d_refill c (dat s)"
  using direct_refill_dat [of c "upd_perf (inc64 Rx_refill_calls)
      (upd_prof c (emaczero_profile_counter COUNTER_RX_REFILL_CALLS) (tick s))"]
  by (cases "emz_rx_direct_refill c (upd_perf (inc64 Rx_refill_calls)
      (upd_prof c (emaczero_profile_counter COUNTER_RX_REFILL_CALLS) (tick s)))")
    (simp add: emz_refill_dma_rx_def Let_def)

section \<open>Releasing a buffer\<close>

definition emz_release_rx_buffer :: "ctx \<Rightarrow> nat \<Rightarrow> emz \<Rightarrow> emz" where
  "emz_release_rx_buffer c rx s =
     (let b = rx_buffer (dat s) ! rx;
          stack_handoff_cycle = rxb_stack_handoff_cycle b;
          r7_rel_start = cycle_now c s; s = tick s;
          s = (if cfg_profile (kc c) then
                 let now = cycle_now c s; s = tick s
                 in upd_prof c (emaczero_profile_note_release
                      (emaczero_profile_elapsed (rxb_dma_done_cycle b) now)) s
               else s);
          s = (if stack_handoff_cycle \<noteq> 0 then
                 let now = cycle_now c s; s = tick s;
                     s = upd_perf (emz_perf_note_dwell (sys_clock_hz (kc c)) (now - stack_handoff_cycle)) s
                 in upd_dat (\<lambda>d. d\<lparr>rx_buffer :=
                      (rx_buffer d)[rx := (rx_buffer d ! rx)\<lparr>rxb_stack_handoff_cycle := 0\<rparr>]\<rparr>) s
               else s);
          s = upd_perf (inc64 Rx_released) s;
          s = upd_dat (\<lambda>d. d\<lparr>rx_free_count := rx_free_count d + 1\<rparr>) s;
          s = emz_perf_update_pool_inflight c s;
          s = upd_dat (\<lambda>d. d\<lparr>rx_free_fifo := rx_free_fifo d @ [rx]\<rparr>) s;
          s = snd (emz_refill_dma_rx c s)
      in r7_since c EMZ_R7_RELEASE_REFILL r7_rel_start s)"

definition emz_release_rx_buffer_from_worker :: "ctx \<Rightarrow> nat \<Rightarrow> emz \<Rightarrow> emz" where
  "emz_release_rx_buffer_from_worker c rx s =
     (let s = upd_dat (\<lambda>d. d\<lparr>rx_worker_count := rx_worker_count d - 1\<rparr>) s;
          s = emz_perf_update_pool_inflight c s
      in emz_release_rx_buffer c rx s)"

text \<open>
  \<^verbatim>\<open>emz_rx_frag_destroy\<close>: the network stack drops its last reference. The context of the
  fragment names the buffer, \<open>None\<close> when it was cleared.
\<close>

definition emz_rx_frag_destroy :: "ctx \<Rightarrow> nat option \<Rightarrow> emz \<Rightarrow> emz" where
  "emz_rx_frag_destroy c ctx_rx s =
     (case ctx_rx of
        None \<Rightarrow> s
      | Some rx \<Rightarrow>
          let s = upd_dat (\<lambda>d. d\<lparr>rx_stack_owned_count := rx_stack_owned_count d - 1\<rparr>) s
          in emz_release_rx_buffer c rx s)"

definition d_release :: "ctx \<Rightarrow> nat \<Rightarrow> emaczero_data \<Rightarrow> emaczero_data" where
  "d_release c rx d = d_refill c
     (d\<lparr>rx_buffer := (rx_buffer d)[rx := (rx_buffer d ! rx)\<lparr>rxb_stack_handoff_cycle := 0\<rparr>],
        rx_free_count := rx_free_count d + 1,
        rx_free_fifo := rx_free_fifo d @ [rx]\<rparr>)"

lemma release_rx_buffer_dat [simp, emz_frame]:
  assumes "emz_rx_direct_enabled c"
  shows "dat (emz_release_rx_buffer c rx s) = d_release c rx (dat s)"
proof -
  have same: "rxb_stack_handoff_cycle (rx_buffer d ! rx) = 0 \<Longrightarrow>
      (rx_buffer d)[rx := (rx_buffer d ! rx)\<lparr>rxb_stack_handoff_cycle := 0\<rparr>] = rx_buffer d" for d
    by (cases "rx < length (rx_buffer d)") (simp_all add: list_update_same_conv list_update_beyond)
  show ?thesis
    using assms same [of "dat s"]
    by (auto simp: emz_release_rx_buffer_def d_release_def Let_def)
qed

lemma release_from_worker_dat [simp, emz_frame]:
  "emz_rx_direct_enabled c \<Longrightarrow> dat (emz_release_rx_buffer_from_worker c rx s) =
     d_release c rx ((dat s)\<lparr>rx_worker_count := rx_worker_count (dat s) - 1\<rparr>)"
  by (simp add: emz_release_rx_buffer_from_worker_def Let_def)

lemma frag_destroy_dat [simp, emz_frame]:
  "emz_rx_direct_enabled c \<Longrightarrow> dat (emz_rx_frag_destroy c (Some rx) s) =
     d_release c rx ((dat s)\<lparr>rx_stack_owned_count := rx_stack_owned_count (dat s) - 1\<rparr>)"
  by (simp add: emz_rx_frag_destroy_def Let_def)

end
