(* ===== verification/DmaMem.thy ===== *)
theory DmaMem
  imports Config
begin

text \<open>
  The bump allocators of \<^verbatim>\<open>drivers/ethernet/eth_emaczero.c\<close> over the DMA-visible window
  and over the optional descriptor BRAM. Both are one algorithm, so their contract is the
  locale \<open>bump_allocator\<close>; the code's two pools are its two instances. The end of the DMA
  pool leaves out the top 8 KiB, where the statistics block and the JTAG mailbox live.
\<close>

section \<open>State and operations\<close>

record dma_mem =
  emz_dma_mem_cursor :: u32
  emz_dma_mem_end :: u32
  emz_sg_mem_cursor :: u32
  emz_sg_mem_end :: u32

definition EMACZERO_PERF_STATS_DMA_RESERVED :: u32 where
  "EMACZERO_PERF_STATS_DMA_RESERVED = 0x2000"

definition EMACZERO_PERF_STATS_ADDR :: "kconfig \<Rightarrow> u32" where
  "EMACZERO_PERF_STATS_ADDR k = dma_memory_base k + dma_memory_size k - 0x1000"

definition EMACZERO_JTAG_MAILBOX_ADDR :: "kconfig \<Rightarrow> u32" where
  "EMACZERO_JTAG_MAILBOX_ADDR k = dma_memory_base k + dma_memory_size k - 0x2000"

definition emz_dma_mem_reset :: "kconfig \<Rightarrow> dma_mem \<Rightarrow> dma_mem" where
  "emz_dma_mem_reset k m = m\<lparr>emz_dma_mem_cursor := dma_memory_base k,
     emz_dma_mem_end := dma_memory_base k + dma_memory_size k - EMACZERO_PERF_STATS_DMA_RESERVED\<rparr>"

definition emz_sg_mem_reset :: "kconfig \<Rightarrow> dma_mem \<Rightarrow> dma_mem" where
  "emz_sg_mem_reset k m =
     (if sg_memory_size k \<noteq> 0
      then m\<lparr>emz_sg_mem_cursor := sg_memory_base k,
             emz_sg_mem_end := sg_memory_base k + sg_memory_size k\<rparr>
      else m\<lparr>emz_sg_mem_cursor := 0, emz_sg_mem_end := 0\<rparr>)"

definition emz_dma_mem_alloc :: "u32 \<Rightarrow> u32 \<Rightarrow> dma_mem \<Rightarrow> u32 option \<times> dma_mem" where
  "emz_dma_mem_alloc align sz m =
     (let ptr = ROUND_UP (emz_dma_mem_cursor m) align; nxt = ROUND_UP (ptr + sz) align
      in if ptr = 0 \<or> emz_dma_mem_end m < nxt \<or> nxt < ptr then (None, m)
         else (Some ptr, m\<lparr>emz_dma_mem_cursor := nxt\<rparr>))"

definition emz_sg_mem_alloc :: "kconfig \<Rightarrow> u32 \<Rightarrow> u32 \<Rightarrow> dma_mem \<Rightarrow> u32 option \<times> dma_mem" where
  "emz_sg_mem_alloc k align sz m =
     (if sg_memory_size k \<noteq> 0 then
        let ptr = ROUND_UP (emz_sg_mem_cursor m) align; nxt = ROUND_UP (ptr + sz) align
        in if ptr = 0 \<or> emz_sg_mem_end m < nxt \<or> nxt < ptr then (None, m)
           else (Some ptr, m\<lparr>emz_sg_mem_cursor := nxt\<rparr>)
      else emz_dma_mem_alloc align sz m)"

definition dma_xilinx_axi_dma_sg_descriptor_alloc ::
  "kconfig \<Rightarrow> u32 \<Rightarrow> u32 \<Rightarrow> dma_mem \<Rightarrow> u32 option \<times> dma_mem" where
  "dma_xilinx_axi_dma_sg_descriptor_alloc k align sz m = emz_sg_mem_alloc k align sz m"

text \<open>
  The loop of \<^verbatim>\<open>emz_init\<close> that gives each buffer its memory: the pointers stored, in
  order. A failed allocation stores \<^verbatim>\<open>NULL\<close>, which ends the loop.
\<close>

fun emz_alloc_buffers :: "nat \<Rightarrow> u32 \<Rightarrow> dma_mem \<Rightarrow> u32 list \<times> dma_mem" where
  "emz_alloc_buffers 0 sz m = ([], m)"
| "emz_alloc_buffers (Suc n) sz m =
     (case emz_dma_mem_alloc 64 sz m of
        (None, m1) \<Rightarrow> ([0], m1)
      | (Some p, m1) \<Rightarrow>
          (case emz_alloc_buffers n sz m1 of (ps, m2) \<Rightarrow> (p # ps, m2)))"

section \<open>One allocation\<close>

text \<open>
  The arithmetic of one allocation: \<open>cur\<close> the cursor, \<open>lim\<close> the end. The test
  \<^verbatim>\<open>next < ptr\<close> catches the wrap-around of \<^verbatim>\<open>ptr + size\<close> for every size up to
  \<open>2 ^ 32 - align\<close>.
\<close>

lemma bump_alloc_arith:
  fixes cur lim align sz :: u32
  defines "ptr \<equiv> ROUND_UP cur align"
  defines "nxt \<equiv> ROUND_UP (ptr + sz) align"
  assumes align: "0 < unat align" and cur: "unat cur + unat align \<le> 2 ^ 32"
    and sz: "unat sz + unat align \<le> 2 ^ 32"
    and ok: "ptr \<noteq> 0" "nxt \<le> lim" "ptr \<le> nxt"
  shows "unat cur \<le> unat ptr" and "unat align dvd unat ptr"
    and "unat ptr + unat sz \<le> unat nxt" and "unat nxt \<le> unat lim"
proof -
  let ?a = "unat align"
  have cur': "unat cur + (?a - 1) < 2 ^ 32" using align cur by linarith
  have ptr: "unat ptr = ((unat cur + (?a - 1)) div ?a) * ?a"
    unfolding ptr_def by (rule unat_ROUND_UP [OF align cur'])
  then show "unat cur \<le> unat ptr" and "?a dvd unat ptr"
    using round_up_bounds(1) [OF align, of "unat cur"] by simp_all
  show "unat nxt \<le> unat lim" using ok(2) by (simp add: word_le_nat_alt)
  have ge: "unat ptr \<le> unat nxt" using ok(3) by (simp add: word_le_nat_alt)
  have pos: "0 < unat ptr" using ok(1) by (simp add: unat_gt_0)
  have lt: "unat ptr < 2 ^ 32" using unat_less_exp [of ptr] by simp
  show "unat ptr + unat sz \<le> unat nxt"
  proof (cases "unat ptr + unat sz < 2 ^ 32")
    case True
    then have v: "unat (ptr + sz) = unat ptr + unat sz" by (simp add: unat_add_no_wrap)
    show ?thesis
    proof (cases "unat ptr + unat sz + (?a - 1) < 2 ^ 32")
      case True
      then have "unat nxt = ((unat ptr + unat sz + (?a - 1)) div ?a) * ?a"
        unfolding nxt_def using unat_ROUND_UP [OF align, of "ptr + sz"] by (simp add: v)
      then show ?thesis using round_up_bounds(1) [OF align, of "unat ptr + unat sz"] by simp
    next
      case False
      have "unat (ptr + sz + (align - 1)) = unat ptr + unat sz + (?a - 1) - 2 ^ 32"
        using False v unat_pred_word [OF align] unat_less_exp [of align] \<open>unat ptr + unat sz < 2 ^ 32\<close>
        by (simp add: unat_word_ariths mod_if)
      also have "... < ?a" using \<open>unat ptr + unat sz < 2 ^ 32\<close> align by linarith
      finally have "unat ((ptr + sz + (align - 1)) div align) = 0" by (simp add: unat_div)
      then have "nxt = 0" unfolding nxt_def ROUND_UP_def by (simp add: unat_eq_zero)
      with ge pos show ?thesis by simp
    qed
  next
    case False
    have v: "unat (ptr + sz) = unat ptr + unat sz - 2 ^ 32"
      using False lt unat_less_exp [of sz] by (simp add: unat_word_ariths mod_if)
    then have below: "unat (ptr + sz) + ?a \<le> unat ptr" using sz False by linarith
    with lt align have "unat (ptr + sz) + (?a - 1) < 2 ^ 32" by linarith
    then have "unat nxt = ((unat (ptr + sz) + (?a - 1)) div ?a) * ?a"
      unfolding nxt_def by (rule unat_ROUND_UP [OF align])
    then have "unat nxt < unat (ptr + sz) + ?a"
      using round_up_bounds(2) [OF align, of "unat (ptr + sz)"] by simp
    with below ge show ?thesis by linarith
  qed
qed

section \<open>The allocator contract\<close>

text \<open>
  A run of requests \<open>(alignment, size)\<close>: the blocks obtained, each with its size, in order;
  a refused request is skipped.
\<close>

fun alloc_seq ::
  "(u32 \<Rightarrow> u32 \<Rightarrow> 's \<Rightarrow> u32 option \<times> 's) \<Rightarrow> (u32 \<times> u32) list \<Rightarrow> 's \<Rightarrow> (u32 \<times> u32) list \<times> 's" where
  "alloc_seq alloc [] s = ([], s)"
| "alloc_seq alloc ((a, n) # rs) s =
     (case alloc a n s of
        (None, s1) \<Rightarrow> alloc_seq alloc rs s1
      | (Some p, s1) \<Rightarrow> (case alloc_seq alloc rs s1 of (ps, s2) \<Rightarrow> ((p, n) # ps, s2)))"

definition block_before :: "u32 \<times> u32 \<Rightarrow> u32 \<times> u32 \<Rightarrow> bool" where
  "block_before x y \<longleftrightarrow> unat (fst x) + unat (snd x) \<le> unat (fst y)"

lemma block_before_iff [simp]: "block_before (p, n) y \<longleftrightarrow> unat p + unat n \<le> unat (fst y)"
  by (simp add: block_before_def)

locale bump_allocator =
  fixes alloc :: "u32 \<Rightarrow> u32 \<Rightarrow> 's \<Rightarrow> u32 option \<times> 's"
    and cursor :: "'s \<Rightarrow> u32"
    and limit :: "'s \<Rightarrow> u32"
  assumes alloc_None: "alloc a n s = (None, s') \<Longrightarrow> s' = s"
    and alloc_limit: "alloc a n s = (x, s') \<Longrightarrow> limit s' = limit s"
    and alloc_Some: "alloc a n s = (Some p, s') \<Longrightarrow> 0 < unat a \<Longrightarrow>
      unat (cursor s) + unat a \<le> 2 ^ 32 \<Longrightarrow> unat n + unat a \<le> 2 ^ 32 \<Longrightarrow>
      unat (cursor s) \<le> unat p \<and> unat a dvd unat p \<and>
      unat p + unat n \<le> unat (cursor s') \<and> unat (cursor s') \<le> unat (limit s')"
begin

lemma alloc_seq_blocks:
  assumes "alloc_seq alloc rs s = (ps, s')"
    and "\<forall>(a, n) \<in> set rs. 0 < unat a \<and> unat (limit s) + unat a \<le> 2 ^ 32 \<and> unat n + unat a \<le> 2 ^ 32"
    and "unat (cursor s) \<le> unat (limit s)"
  shows "sorted_wrt block_before ps \<and> limit s' = limit s \<and>
    unat (cursor s) \<le> unat (cursor s') \<and> unat (cursor s') \<le> unat (limit s) \<and>
    (\<forall>(p, n) \<in> set ps. unat (cursor s) \<le> unat p \<and> unat p + unat n \<le> unat (cursor s'))"
  using assms
proof (induction rs arbitrary: s ps)
  case Nil
  then show ?case by auto
next
  case (Cons r rs)
  obtain a n where r: "r = (a, n)" by (cases r)
  obtain x s1 where al: "alloc a n s = (x, s1)" by fastforce
  have lim: "limit s1 = limit s" using alloc_limit [OF al] .
  show ?case
  proof (cases x)
    case None
    then have "s1 = s" using al alloc_None by simp
    then show ?thesis using Cons r al None by auto
  next
    case (Some p)
    have b: "unat (cursor s) \<le> unat p \<and> unat p + unat n \<le> unat (cursor s1) \<and>
        unat (cursor s1) \<le> unat (limit s)"
      using alloc_Some [OF al [unfolded Some]] Cons.prems(2,3) r lim by auto
    obtain qs where q: "alloc_seq alloc rs s1 = (qs, s')" "ps = (p, n) # qs"
      using Cons.prems(1) r al Some by (auto split: prod.splits)
    have ih: "sorted_wrt block_before qs \<and> limit s' = limit s1 \<and>
        unat (cursor s1) \<le> unat (cursor s') \<and> unat (cursor s') \<le> unat (limit s1) \<and>
        (\<forall>(p, n) \<in> set qs. unat (cursor s1) \<le> unat p \<and> unat p + unat n \<le> unat (cursor s'))"
      using Cons.IH [OF q(1)] Cons.prems(2) b lim by auto
    then have mem: "unat (cursor s1) \<le> unat x \<and> unat x + unat m \<le> unat (cursor s')"
      if "(x, m) \<in> set qs" for x m
      using that by auto
    have "\<forall>y \<in> set qs. block_before (p, n) y"
      using b by (auto dest!: mem)
    moreover have "unat (cursor s) \<le> unat x \<and> unat x + unat m \<le> unat (cursor s')"
      if "(x, m) \<in> set qs" for x m
      using mem [OF that] b by linarith
    ultimately show ?thesis using ih q(2) b lim by auto
  qed
qed

end

interpretation dma_pool: bump_allocator emz_dma_mem_alloc emz_dma_mem_cursor emz_dma_mem_end
proof
  fix a n p :: u32 and s s' :: dma_mem
  assume "emz_dma_mem_alloc a n s = (Some p, s')" and "0 < unat a"
    and "unat (emz_dma_mem_cursor s) + unat a \<le> 2 ^ 32" and "unat n + unat a \<le> 2 ^ 32"
  then show "unat (emz_dma_mem_cursor s) \<le> unat p \<and> unat a dvd unat p \<and>
      unat p + unat n \<le> unat (emz_dma_mem_cursor s') \<and>
      unat (emz_dma_mem_cursor s') \<le> unat (emz_dma_mem_end s')"
    using bump_alloc_arith [of a "emz_dma_mem_cursor s" n "emz_dma_mem_end s"]
    by (auto simp: emz_dma_mem_alloc_def Let_def not_less split: if_splits)
qed (auto simp: emz_dma_mem_alloc_def Let_def split: if_splits)

text \<open>The descriptor pool is the BRAM window when there is one, else the DMA pool itself.\<close>

definition sg_cursor :: "kconfig \<Rightarrow> dma_mem \<Rightarrow> u32" where
  "sg_cursor k m = (if sg_memory_size k \<noteq> 0 then emz_sg_mem_cursor m else emz_dma_mem_cursor m)"

definition sg_limit :: "kconfig \<Rightarrow> dma_mem \<Rightarrow> u32" where
  "sg_limit k m = (if sg_memory_size k \<noteq> 0 then emz_sg_mem_end m else emz_dma_mem_end m)"

interpretation sg_pool: bump_allocator "emz_sg_mem_alloc k" "sg_cursor k" "sg_limit k" for k
proof
  fix a n p :: u32 and s s' :: dma_mem
  assume "emz_sg_mem_alloc k a n s = (Some p, s')" and "0 < unat a"
    and "unat (sg_cursor k s) + unat a \<le> 2 ^ 32" and "unat n + unat a \<le> 2 ^ 32"
  then show "unat (sg_cursor k s) \<le> unat p \<and> unat a dvd unat p \<and>
      unat p + unat n \<le> unat (sg_cursor k s') \<and> unat (sg_cursor k s') \<le> unat (sg_limit k s')"
    using bump_alloc_arith [of a "sg_cursor k s" n "sg_limit k s"]
    by (auto simp: emz_sg_mem_alloc_def emz_dma_mem_alloc_def sg_cursor_def sg_limit_def Let_def
          not_less split: if_splits)
qed (auto simp: emz_sg_mem_alloc_def emz_dma_mem_alloc_def sg_limit_def Let_def split: if_splits)

section \<open>Buffers\<close>

lemma alloc_buffers_seq:
  "emz_alloc_buffers n sz m = (ps, m') \<Longrightarrow> 0 \<notin> set ps \<Longrightarrow>
   alloc_seq emz_dma_mem_alloc (replicate n (64, sz)) m = (map (\<lambda>p. (p, sz)) ps, m') \<and> length ps = n"
  by (induction n arbitrary: m ps) (auto split: prod.splits option.splits)

text \<open>Blocks of non-zero size that follow each other have distinct addresses.\<close>

lemma blocks_distinct:
  "sorted_wrt block_before ps \<Longrightarrow> \<forall>(p, n) \<in> set ps. 0 < unat n \<Longrightarrow> distinct (map fst ps)"
  by (induction ps) fastforce+

definition dma_window_ok :: "kconfig \<Rightarrow> bool" where
  "dma_window_ok k \<longleftrightarrow> 0x2000 \<le> unat (dma_memory_size k) \<and>
     unat (dma_memory_base k) + unat (dma_memory_size k) < 2 ^ 32"

lemma dma_reset_window:
  assumes "dma_window_ok k"
  shows "unat (emz_dma_mem_cursor (emz_dma_mem_reset k m)) = unat (dma_memory_base k)"
    and "unat (emz_dma_mem_end (emz_dma_mem_reset k m)) =
      unat (dma_memory_base k) + unat (dma_memory_size k) - 0x2000"
    and "unat (EMACZERO_JTAG_MAILBOX_ADDR k) =
      unat (dma_memory_base k) + unat (dma_memory_size k) - 0x2000"
proof -
  have e: "unat (dma_memory_base k + dma_memory_size k) =
      unat (dma_memory_base k) + unat (dma_memory_size k)"
    using assms by (simp add: dma_window_ok_def unat_add_no_wrap)
  have le: "(0x2000 :: u32) \<le> dma_memory_base k + dma_memory_size k"
    using assms by (simp add: word_le_nat_alt e dma_window_ok_def)
  show "unat (emz_dma_mem_cursor (emz_dma_mem_reset k m)) = unat (dma_memory_base k)"
    by (simp add: emz_dma_mem_reset_def)
  show "unat (emz_dma_mem_end (emz_dma_mem_reset k m)) =
      unat (dma_memory_base k) + unat (dma_memory_size k) - 0x2000"
    and "unat (EMACZERO_JTAG_MAILBOX_ADDR k) =
      unat (dma_memory_base k) + unat (dma_memory_size k) - 0x2000"
    using unat_sub [OF le]
    by (simp_all add: emz_dma_mem_reset_def EMACZERO_PERF_STATS_DMA_RESERVED_def
          EMACZERO_JTAG_MAILBOX_ADDR_def e)
qed

text \<open>
  C16: whatever sequence of RX buffers, TX buffers and descriptor rings is taken from the
  freshly reset DMA pool, the blocks obtained do not overlap, lie inside the window and end
  below the JTAG mailbox (and so below the statistics block).
\<close>
theorem dma_blocks_disjoint:
  assumes win: "dma_window_ok k"
    and run: "alloc_seq emz_dma_mem_alloc rs (emz_dma_mem_reset k m) = (ps, m')"
    and req: "\<forall>(a, n) \<in> set rs. 0 < unat a \<and> unat a \<le> 0x2000 \<and> unat n + unat a \<le> 2 ^ 32"
  shows "sorted_wrt block_before ps \<and>
    (\<forall>(p, n) \<in> set ps. unat (dma_memory_base k) \<le> unat p \<and>
       unat p + unat n \<le> unat (EMACZERO_JTAG_MAILBOX_ADDR k))"
proof -
  let ?s = "emz_dma_mem_reset k m"
  have "\<forall>(a, n) \<in> set rs. 0 < unat a \<and> unat (emz_dma_mem_end ?s) + unat a \<le> 2 ^ 32 \<and>
      unat n + unat a \<le> 2 ^ 32"
    using req dma_reset_window(2) [OF win, of m] win by (auto simp: dma_window_ok_def)
  moreover have "unat (emz_dma_mem_cursor ?s) \<le> unat (emz_dma_mem_end ?s)"
    unfolding dma_reset_window [OF win] using win unfolding dma_window_ok_def by arith
  ultimately show ?thesis
    using dma_pool.alloc_seq_blocks [OF run] dma_reset_window [OF win] by fastforce
qed

theorem dma_blocks_disjoint_witness:
  "dma_window_ok app_kconfig \<and>
   (case alloc_seq emz_dma_mem_alloc [(64, 1518), (64, 8192)]
           (emz_dma_mem_reset app_kconfig \<lparr>emz_dma_mem_cursor = 0, emz_dma_mem_end = 0,
              emz_sg_mem_cursor = 0, emz_sg_mem_end = 0\<rparr>) of
      (ps, m') \<Rightarrow> ps = [(0x9f000000, 1518), (0x9f000600, 8192)] \<and> sorted_wrt block_before ps)"
proof -
  let ?m = "emz_dma_mem_reset app_kconfig \<lparr>emz_dma_mem_cursor = 0, emz_dma_mem_end = 0,
              emz_sg_mem_cursor = 0, emz_sg_mem_end = 0\<rparr>"
  have win: "dma_window_ok app_kconfig" by (simp add: dma_window_ok_def app_kconfig_def)
  obtain ps m' where run: "alloc_seq emz_dma_mem_alloc [(64, 1518), (64, 8192)] ?m = (ps, m')"
    by fastforce
  have "ps = [(0x9f000000, 1518), (0x9f000600, 8192)]"
    using run by (simp add: emz_dma_mem_alloc_def emz_dma_mem_reset_def app_kconfig_def ROUND_UP_def
      EMACZERO_PERF_STATS_DMA_RESERVED_def)
  moreover have "sorted_wrt block_before ps"
    using dma_blocks_disjoint [OF win run] by simp
  ultimately show ?thesis using win run by simp
qed

end
