(* ===== verification/RingQueue.thy ===== *)
theory RingQueue
  imports Prelude
begin

text \<open>
  Circular windows and the bounded queue they implement. The RX and TX descriptor rings of
  \<^verbatim>\<open>drivers/ethernet/eth_emaczero.c\<close> and the message queue of \<^verbatim>\<open>app/src/provision.c\<close> all keep
  a head, a count and fixed storage. \<open>window\<close> reads the occupied slots in order;
  \<open>bounded_fifo\<close> is the interface the rest of the development uses: a push appends, a
  pop removes the oldest, and so nothing is lost, duplicated or reordered.
\<close>

section \<open>Windows of a circular array\<close>

definition window :: "nat \<Rightarrow> nat \<Rightarrow> 'a list \<Rightarrow> 'a list" where
  "window head n slots = map (\<lambda>i. slots ! ((head + i) mod length slots)) [0..<n]"

lemma length_window [simp]: "length (window head n slots) = n"
  by (simp add: window_def)

lemma window_0 [simp]: "window head 0 slots = []"
  by (simp add: window_def)

lemma nth_window: "i < n \<Longrightarrow> window head n slots ! i = slots ! ((head + i) mod length slots)"
  by (simp add: window_def)

text \<open>Distinct offsets below the capacity reach distinct slots.\<close>

lemma mod_offset_inj:
  fixes N :: nat
  assumes "i < N" and "j < N" and "(h + i) mod N = (h + j) mod N"
  shows "i = j"
proof -
  have le: "x = y" if "x \<le> y" "y < N" "(h + x) mod N = (h + y) mod N" for x y :: nat
  proof -
    have "N dvd (h + y) - (h + x)"
      using that by (subst mod_eq_dvd_iff_nat [symmetric]) simp_all
    then show ?thesis using that by (auto dest: dvd_imp_le)
  qed
  show ?thesis using assms le [of i j] le [of j i] by linarith
qed

lemma window_push:
  assumes "n < length slots"
  shows "window head (n + 1) (slots[(head + n) mod length slots := x]) = window head n slots @ [x]"
proof (rule nth_equalityI)
  fix i assume "i < length (window head (n + 1) (slots[(head + n) mod length slots := x]))"
  then have i: "i \<le> n" by simp
  have pos: "0 < length slots" using assms by linarith
  show "window head (n + 1) (slots[(head + n) mod length slots := x]) ! i = (window head n slots @ [x]) ! i"
  proof (cases "i = n")
    case True
    with pos show ?thesis by (simp add: nth_window nth_append)
  next
    case False
    with i have "i < n" by simp
    then have "(head + n) mod length slots \<noteq> (head + i) mod length slots"
      using mod_offset_inj [of n "length slots" i head] assms by auto
    with \<open>i < n\<close> show ?thesis by (simp add: nth_window nth_append)
  qed
qed simp

lemma window_pop:
  assumes "head < length slots" and "n < length slots"
  shows "window head (n + 1) slots = slots ! head # window (Suc head mod length slots) n (slots[head := x])"
proof (rule nth_equalityI)
  fix i assume "i < length (window head (n + 1) slots)"
  then have i: "i \<le> n" by simp
  show "window head (n + 1) slots ! i =
      (slots ! head # window (Suc head mod length slots) n (slots[head := x])) ! i"
  proof (cases i)
    case 0
    with assms show ?thesis by (simp add: nth_window)
  next
    case (Suc j)
    have "(head + i) mod length slots \<noteq> head"
    proof
      assume "(head + i) mod length slots = head"
      then have "(head + i) mod length slots = (head + 0) mod length slots" using assms by simp
      moreover have "i < length slots" "0 < length slots" using assms i by linarith+
      ultimately have "i = 0" by (rule mod_offset_inj [rotated 2])
      with Suc show False by simp
    qed
    moreover have "(Suc head mod length slots + j) mod length slots = (head + i) mod length slots"
      by (simp add: Suc mod_add_left_eq)
    ultimately show ?thesis using Suc i by (simp add: nth_window)
  qed
qed simp

text \<open>Every slot is at one offset from the head.\<close>

lemma slot_offset:
  fixes N :: nat
  assumes "k < N"
  shows "\<exists>i < N. (h + i) mod N = k"
proof -
  have "(h + (N - h mod N + k) mod N) mod N = (h + (N - h mod N) + k) mod N"
    by (simp add: mod_add_right_eq add.assoc)
  also have "(h + (N - h mod N)) mod N = 0"
  proof -
    have "h mod N < N" using assms by simp
    then have "(h mod N + (N - h mod N)) mod N = 0" by simp
    then show ?thesis by (simp add: mod_add_left_eq)
  qed
  then have "(h + (N - h mod N) + k) mod N = k"
    using assms by (metis add_0 mod_add_left_eq mod_less)
  finally show ?thesis
    using assms by (intro exI [of _ "(N - h mod N + k) mod N"]) simp
qed

section \<open>The bounded queue interface\<close>

datatype 'a queue_op = Push 'a | Pop

text \<open>What a sequence of operations hands in and out of a list seen as a queue.\<close>

fun pushed :: "'a queue_op list \<Rightarrow> 'a list" where
  "pushed [] = []"
| "pushed (Push x # ops) = x # pushed ops"
| "pushed (Pop # ops) = pushed ops"

fun popped :: "'a list \<Rightarrow> 'a queue_op list \<Rightarrow> 'a list" where
  "popped q [] = []"
| "popped q (Push x # ops) = popped (q @ [x]) ops"
| "popped q (Pop # ops) = hd q # popped (tl q) ops"

text \<open>No pop of an empty queue, no push into a full one.\<close>

fun legal_ops :: "nat \<Rightarrow> nat \<Rightarrow> 'a queue_op list \<Rightarrow> bool" where
  "legal_ops cap n [] = True"
| "legal_ops cap n (Push x # ops) = (n < cap \<and> legal_ops cap (n + 1) ops)"
| "legal_ops cap n (Pop # ops) = (0 < n \<and> legal_ops cap (n - 1) ops)"

locale bounded_fifo =
  fixes inv :: "'s \<Rightarrow> bool" and items :: "'s \<Rightarrow> 'a list" and cap :: nat
    and push :: "'a \<Rightarrow> 's \<Rightarrow> 's" and pop :: "'s \<Rightarrow> 's"
  assumes push_inv: "inv s \<Longrightarrow> length (items s) < cap \<Longrightarrow> inv (push x s)"
    and push_items: "inv s \<Longrightarrow> length (items s) < cap \<Longrightarrow> items (push x s) = items s @ [x]"
    and pop_inv: "inv s \<Longrightarrow> items s \<noteq> [] \<Longrightarrow> inv (pop s)"
    and pop_items: "inv s \<Longrightarrow> items s \<noteq> [] \<Longrightarrow> items (pop s) = tl (items s)"
begin

definition step :: "'a queue_op \<Rightarrow> 's \<Rightarrow> 's" where
  "step op s = (case op of Push x \<Rightarrow> push x s | Pop \<Rightarrow> pop s)"

definition run :: "'a queue_op list \<Rightarrow> 's \<Rightarrow> 's" where
  "run ops s = fold step ops s"

text \<open>
  The implementation follows the list: what was in it and what came in is what went out and
  what is left, in that order.
\<close>

lemma fifo_order:
  assumes "inv s" and "legal_ops cap (length (items s)) ops"
  shows "inv (run ops s)"
    and "items s @ pushed ops = popped (items s) ops @ items (run ops s)"
proof -
  have "inv (run ops s) \<and> items s @ pushed ops = popped (items s) ops @ items (run ops s)"
    using assms
  proof (induction ops arbitrary: s)
    case Nil
    then show ?case by (simp add: run_def)
  next
    case (Cons op ops)
    show ?case
    proof (cases op)
      case (Push x)
      with Cons.prems have "length (items s) < cap" by simp
      with Cons.prems Push push_inv push_items
      have "inv (push x s)" "items (push x s) = items s @ [x]" by blast+
      with Cons.IH [of "push x s"] Cons.prems Push show ?thesis
        by (simp add: run_def step_def)
    next
      case Pop
      with Cons.prems have ne: "items s \<noteq> []" by auto
      with Cons.prems pop_inv pop_items have "inv (pop s)" "items (pop s) = tl (items s)" by blast+
      with Cons.IH [of "pop s"] Cons.prems Pop ne show ?thesis
        by (cases "items s") (simp_all add: run_def step_def)
    qed
  qed
  then show "inv (run ops s)"
    and "items s @ pushed ops = popped (items s) ops @ items (run ops s)" by blast+
qed

lemma push_pushes:
  assumes "inv s" and "length (items s) + length xs \<le> cap"
  shows "inv (fold push xs s)" and "items (fold push xs s) = items s @ xs"
proof -
  have "inv (fold push xs s) \<and> items (fold push xs s) = items s @ xs"
    using assms by (induction xs arbitrary: s) (simp_all add: push_inv push_items)
  then show "inv (fold push xs s)" and "items (fold push xs s) = items s @ xs" by blast+
qed

end

end
