(* ===== verification/RxPoll.thy ===== *)
theory RxPoll
  imports RxRefill DmaMem RingQueue
begin

text \<open>
  The receive side of the direct descriptor ring in
  \<^verbatim>\<open>drivers/ethernet/eth_emaczero.c\<close>: consuming completed descriptors, the interrupt
  handler, the 1 ms poll, arming and rebuilding the ring, start-up.
\<close>

definition emz_rx_direct_request_recover :: "emz \<Rightarrow> emz" where
  "emz_rx_direct_request_recover s =
     (if \<not> rx_direct_recover_pending (dat s)
      then emit Submit_recover_work (upd_dat (\<lambda>d. d\<lparr>rx_direct_recover_pending := True\<rparr>) s)
      else s)"

section \<open>One completed descriptor\<close>

text \<open>
  The locked part of one round of \<^verbatim>\<open>emz_rx_direct_poll\<close>. \<open>None\<close> leaves the loop;
  \<open>Some (rx, status)\<close> is the retired buffer with the status word the engine wrote.
\<close>

definition poll_take :: "ctx \<Rightarrow> emz \<Rightarrow> (nat \<times> u32) option \<times> emz" where
  "poll_take c s =
     (let r7_lock_start = cycle_now c s; s = tick s;
          s = emz_r7_note_lock c s;
          index = rx_bd_consume_index (dat s);
          s = emz_dma_cache_invd c (rx_bd_addr (dat s) index) bd_size s;
          status = bd_status (rx_bd_ring (dat s) ! index)
      in if \<not> bd_done status then (None, r7_since c EMZ_R7_LOCK_CONSUME r7_lock_start s)
         else case rx_bd_buffer (dat s) ! index of
           None \<Rightarrow>
             let s = r7_since c EMZ_R7_LOCK_CONSUME r7_lock_start s;
                 s = upd_perf (inc32 Rx_bd_errors) s
             in (None, emz_rx_direct_request_recover s)
         | Some rx \<Rightarrow>
             let s = upd_dat (\<lambda>d. d\<lparr>rx_bd_ring := (rx_bd_ring d)[index :=
                       (rx_bd_ring d ! index)\<lparr>bd_status := 0\<rparr>]\<rparr>) s;
                 s = emz_dma_cache_flush c (rx_bd_addr (dat s) index) bd_size s;
                 s = upd_dat (\<lambda>d. d\<lparr>rx_bd_buffer := (rx_bd_buffer d)[index := None],
                       rx_bd_posted := rx_bd_posted d - 1\<rparr>) s;
                 s = emz_perf_set_bd_available c s;
                 s = upd_dat (\<lambda>d. d\<lparr>rx_bd_consume_index := (index + 1) mod rx_count c\<rparr>) s;
                 s = upd_dat (\<lambda>d. d\<lparr>rx_dma_inflight :=
                       (if 0 < rx_dma_inflight d then rx_dma_inflight d - 1 else rx_dma_inflight d)\<rparr>) s;
                 s = r7_since c EMZ_R7_LOCK_CONSUME r7_lock_start s;
                 s = upd_dat (\<lambda>d. d\<lparr>rx_dma_fifo_count := rx_dma_fifo_count d - 1\<rparr>) s
             in (Some (rx, status), s))"

text \<open>\<^verbatim>\<open>DMA_STATUS_COMPLETE\<close> of Zephyr's \<^verbatim>\<open>drivers/dma.h\<close>.\<close>

abbreviation DMA_STATUS_COMPLETE :: int where "DMA_STATUS_COMPLETE \<equiv> 0"

definition upd_rx :: "nat \<Rightarrow> (emaczero_rx_buffer \<Rightarrow> emaczero_rx_buffer) \<Rightarrow> emaczero_data \<Rightarrow> emaczero_data" where
  "upd_rx rx f d = d\<lparr>rx_buffer := (rx_buffer d)[rx := f (rx_buffer d ! rx)]\<rparr>"

text \<open>\<open>rx->status\<close> and \<open>rx->len\<close> from the status word, the length clamped to the buffer.\<close>

definition set_rx_result :: "ctx \<Rightarrow> u32 \<Rightarrow> emaczero_rx_buffer \<Rightarrow> emaczero_rx_buffer" where
  "set_rx_result c status b =
     (let b = b\<lparr>rxb_status := (if bd_failed status then - EFAULT else DMA_STATUS_COMPLETE)\<rparr>;
          b = b\<lparr>rxb_len := status AND EMZ_AXI_DMA_BD_STATUS_LEN_MASK\<rparr>
      in if eth_buffer_size c < rxb_len b
         then b\<lparr>rxb_len := eth_buffer_size c, rxb_status := - EFAULT\<rparr> else b)"

definition run_interceptor :: "rx_interceptor_fn option \<Rightarrow> emaczero_rx_buffer \<Rightarrow> emz \<Rightarrow> bool \<times> emz" where
  "run_interceptor f b s =
     (case f of
        None \<Rightarrow> (False, s)
      | Some g \<Rightarrow> (case g (rxb_bytes b) (unat (rxb_len b)) (aux s) of (eaten, a) \<Rightarrow> (eaten, s\<lparr>aux := a\<rparr>)))"

definition note_completed :: "ctx \<Rightarrow> bool \<Rightarrow> emz \<Rightarrow> emz" where
  "note_completed c err s =
     (let s = upd_perf (inc64 Dma_callbacks) s;
          s = upd_prof c (emaczero_profile_counter COUNTER_DMA_CALLBACKS) s;
          s = upd_perf (inc64 Rx_bd_hw_completed) s
      in if err then upd_perf (inc32 Rx_bd_errors) (upd_perf (inc64 Dma_errors) s) else s)"

text \<open>\<^verbatim>\<open>DROP_AFTER_DMA\<close>: everything but the control traffic is dropped here.\<close>

definition drop_after_dma :: "ctx \<Rightarrow> emaczero_rx_buffer \<Rightarrow> emz \<Rightarrow> bool" where
  "drop_after_dma c b s \<longleftrightarrow> cfg_profile (kc c) \<and>
     emaczero_profile_get_mode (prof (aux s)) = EMACZERO_PROFILE_MODE_DROP_AFTER_DMA \<and>
     emaczero_profile_should_keep_control (Some (rxb_bytes b)) (unat (rxb_len b)) = Some False"

text \<open>\<open>poll_mark\<close> records the result in the buffer, \<open>poll_keep\<close> is the part after the interceptor.\<close>

definition poll_mark :: "ctx \<Rightarrow> nat \<Rightarrow> u32 \<Rightarrow> emz \<Rightarrow> emz" where
  "poll_mark c rx status s =
     (let s = upd_dat (upd_rx rx (set_rx_result c status)) s;
          s = (if eth_buffer_size c < status AND EMZ_AXI_DMA_BD_STATUS_LEN_MASK
               then upd_perf (inc32 Rx_bd_errors) s else s);
          b = rx_buffer (dat s) ! rx
      in emz_dma_cache_invd c (rxb_addr b) (rxb_len b) s)"

definition poll_keep :: "ctx \<Rightarrow> nat \<Rightarrow> emaczero_rx_buffer \<Rightarrow> emz \<Rightarrow> emz" where
  "poll_keep c rx b s =
     (let s = (if cfg_profile (kc c) then
                 let now = cycle_now c s; s = tick s
                 in upd_dat (upd_rx rx (\<lambda>b. b\<lparr>rxb_dma_done_cycle := now\<rparr>)) s
               else s)
      in if drop_after_dma c b s then
           let s = upd_prof c (emaczero_profile_counter COUNTER_DMA_DROP_AFTER_DMA) s;
               s = emz_release_rx_buffer c rx s
           in note_completed c (rxb_status b < 0) s
         else
           let r7_enq_start = cycle_now c s; s = tick s;
               s = upd_dat (\<lambda>d. d\<lparr>rx_ready_fifo_count := rx_ready_fifo_count d + 1,
                     rx_ready_fifo := rx_ready_fifo d @ [rx]\<rparr>) s;
               s = r7_since c EMZ_R7_READY_ENQUEUE r7_enq_start s;
               s = emz_perf_update_pool_inflight c s
           in note_completed c (rxb_status b < 0) s)"

definition poll_dispatch :: "ctx \<Rightarrow> nat \<Rightarrow> u32 \<Rightarrow> emz \<Rightarrow> emz" where
  "poll_dispatch c rx status s =
     (let s = poll_mark c rx status s;
          b = rx_buffer (dat s) ! rx
      in case (if rxb_status b = DMA_STATUS_COMPLETE
               then run_interceptor (rx_interceptor (dat s)) b s else (False, s)) of
           (eaten, s) \<Rightarrow>
             if eaten then note_completed c False (emz_release_rx_buffer c rx s)
             else poll_keep c rx b s)"

section \<open>What a round does to the data\<close>

definition d_retire :: "ctx \<Rightarrow> emaczero_data \<Rightarrow> emaczero_data" where
  "d_retire c d =
     (let index = rx_bd_consume_index d
      in d\<lparr>rx_bd_ring := (rx_bd_ring d)[index := (rx_bd_ring d ! index)\<lparr>bd_status := 0\<rparr>],
           rx_bd_buffer := (rx_bd_buffer d)[index := None],
           rx_bd_posted := rx_bd_posted d - 1,
           rx_bd_consume_index := (index + 1) mod rx_count c,
           rx_dma_inflight := (if 0 < rx_dma_inflight d then rx_dma_inflight d - 1 else rx_dma_inflight d),
           rx_dma_fifo_count := rx_dma_fifo_count d - 1\<rparr>)"

definition d_enqueue :: "nat \<Rightarrow> emaczero_data \<Rightarrow> emaczero_data" where
  "d_enqueue rx d = d\<lparr>rx_ready_fifo_count := rx_ready_fifo_count d + 1,
     rx_ready_fifo := rx_ready_fifo d @ [rx]\<rparr>"

text \<open>\<open>upd_rx\<close> of a function that keeps a buffer's address and bytes.\<close>

definition keeps_memory :: "(emaczero_rx_buffer \<Rightarrow> emaczero_rx_buffer) \<Rightarrow> bool" where
  "keeps_memory f \<longleftrightarrow> (\<forall>b. rxb_addr (f b) = rxb_addr b \<and> rxb_bytes (f b) = rxb_bytes b)"

lemma request_recover_dat:
  "dat (emz_rx_direct_request_recover s) = (dat s)\<lparr>rx_direct_recover_pending := True\<rparr>"
  by (simp add: emz_rx_direct_request_recover_def)

lemma poll_take_None:
  "poll_take c s = (None, s') \<Longrightarrow> dat s' = dat s \<or> dat s' = (dat s)\<lparr>rx_direct_recover_pending := True\<rparr>"
  by (auto simp: poll_take_def Let_def request_recover_dat split: if_splits option.splits)

lemma poll_take_Some:
  "poll_take c s = (Some (rx, status), s') \<Longrightarrow>
     dat s' = d_retire c (dat s) \<and> bd_done status \<and>
     status = bd_status (rx_bd_ring (dat s) ! rx_bd_consume_index (dat s)) \<and>
     rx_bd_buffer (dat s) ! rx_bd_consume_index (dat s) = Some rx"
  by (auto simp: poll_take_def d_retire_def Let_def split: if_splits option.splits)

lemma note_completed_dat [simp, emz_frame]: "dat (note_completed c e s) = dat s"
  by (simp add: note_completed_def Let_def)

lemma run_interceptor_dat: "run_interceptor f b s = (eaten, s') \<Longrightarrow> dat s' = dat s"
  by (auto simp: run_interceptor_def split: option.splits prod.splits)

definition d_result :: "ctx \<Rightarrow> nat \<Rightarrow> u32 \<Rightarrow> u32 option \<Rightarrow> emaczero_data \<Rightarrow> emaczero_data" where
  "d_result c rx status now d = upd_rx rx (\<lambda>b. let b = set_rx_result c status b
     in case now of None \<Rightarrow> b | Some t \<Rightarrow> b\<lparr>rxb_dma_done_cycle := t\<rparr>) d"

lemma upd_rx_upd_rx: "upd_rx rx f (upd_rx rx g d) = upd_rx rx (f \<circ> g) d"
  by (cases "rx < length (rx_buffer d)") (simp_all add: upd_rx_def list_update_beyond)

lemma poll_mark_dat: "dat (poll_mark c rx status s) = d_result c rx status None (dat s)"
  by (simp add: poll_mark_def d_result_def Let_def)

lemma poll_keep_dat:
  assumes "emz_rx_direct_enabled c" and "dat s = d_result c rx status None d"
  shows "\<exists>now. dat (poll_keep c rx b s) = d_release c rx (d_result c rx status now d)
     \<or> dat (poll_keep c rx b s) = d_enqueue rx (d_result c rx status now d)"
proof -
  have r: "upd_rx rx (\<lambda>b. b\<lparr>rxb_dma_done_cycle := t\<rparr>) (d_result c rx status None d)
      = d_result c rx status (Some t) d" for t
    by (simp add: d_result_def upd_rx_upd_rx comp_def Let_def)
  show ?thesis
    by (cases "cfg_profile (kc c)")
      (auto simp: poll_keep_def Let_def assms r d_enqueue_def)
qed

lemma poll_dispatch_dat:
  assumes "emz_rx_direct_enabled c"
  shows "\<exists>now. dat (poll_dispatch c rx status s) = d_release c rx (d_result c rx status now (dat s))
     \<or> dat (poll_dispatch c rx status s) = d_enqueue rx (d_result c rx status now (dat s))"
proof -
  let ?s = "poll_mark c rx status s"
  let ?b = "rx_buffer (dat ?s) ! rx"
  obtain eaten s2 where e: "(if rxb_status ?b = 0 then run_interceptor (rx_interceptor (dat ?s)) ?b ?s
      else (False, ?s)) = (eaten, s2)" by (metis surj_pair)
  then have s2: "dat s2 = d_result c rx status None (dat s)"
    by (auto dest: run_interceptor_dat simp: poll_mark_dat split: if_splits)
  have "poll_dispatch c rx status s =
      (if eaten then note_completed c False (emz_release_rx_buffer c rx s2) else poll_keep c rx ?b s2)"
    unfolding poll_dispatch_def Let_def e by simp
  then show ?thesis
    using poll_keep_dat [OF assms s2, of ?b] assms s2 by (cases eaten) auto
qed

section \<open>The poll loop\<close>

text \<open>
  \<open>done_count\<close> counts the completed descriptors of a ring. No round adds one (a posted
  descriptor has status 0) and retiring removes one, so the loop of \<^verbatim>\<open>emz_rx_direct_poll\<close>
  ends. The model polls what the engine has completed when the loop starts; completions
  that arrive meanwhile are seen by the next poll.
\<close>

definition done_count :: "emaczero_rx_bd list \<Rightarrow> nat" where
  "done_count ring = length (filter (\<lambda>b. bd_done (bd_status b)) ring)"

lemma done_count_le: "\<not> bd_done (bd_status b) \<Longrightarrow> done_count (ring[i := b]) \<le> done_count ring"
  unfolding done_count_def
  by (induction ring arbitrary: i) (auto split: nat.split intro: le_SucI)

lemma done_count_less:
  "\<not> bd_done (bd_status b) \<Longrightarrow> i < length ring \<Longrightarrow> bd_done (bd_status (ring ! i)) \<Longrightarrow>
   done_count (ring[i := b]) < done_count ring"
  unfolding done_count_def
  by (subst (2) id_take_nth_drop [of i]) (simp_all add: upd_conv_take_nth_drop)

lemma done_count_d_refill: "done_count (rx_bd_ring (d_refill c d)) \<le> done_count (rx_bd_ring d)"
proof (induction c d rule: d_refill.induct)
  case (1 c d)
  have "done_count (rx_bd_ring (d_post c rx d')) \<le> done_count (rx_bd_ring d')" for rx d'
    by (simp add: d_post_def Let_def programmed_bd_def done_count_le)
  note post = this
  show ?case
  proof (cases "rx_free_fifo d")
    case Nil
    then show ?thesis by (simp add: d_refill.simps [of c d])
  next
    case (Cons rx rest)
    have "can_post c d \<Longrightarrow> done_count (rx_bd_ring (d_refill c
        ((d_post c rx (d\<lparr>rx_free_fifo := rest\<rparr>))\<lparr>rx_free_count := rx_free_count d - 1\<rparr>))) \<le>
        done_count (rx_bd_ring (d_post c rx (d\<lparr>rx_free_fifo := rest\<rparr>)))"
      using 1 [OF Cons] by simp
    then show ?thesis
      using post [of rx "d\<lparr>rx_free_fifo := rest\<rparr>"]
      by (auto simp: d_refill.simps [of c d] Cons)
  qed
qed

lemma queue_dma_rx_buffer_ring [simp]:
  "rx_bd_ring (dat (snd (emz_queue_dma_rx_buffer c rx s))) = rx_bd_ring (dat s)"
  by (simp add: emz_queue_dma_rx_buffer_def Let_def)

lemma legacy_refill_ring [simp]:
  "rx_bd_ring (dat (snd (legacy_refill_loop c q s))) = rx_bd_ring (dat s)"
proof (induction c q s rule: legacy_refill_loop.induct)
  case (1 c q s)
  show ?case
  proof (cases "rx_free_fifo (dat s)")
    case Nil
    then show ?thesis by (simp add: legacy_refill_loop.simps [of c q s])
  next
    case (Cons rx rest)
    obtain ret s1 where q:
      "emz_queue_dma_rx_buffer c rx (legacy_take c rest (legacy_claim c s)) = (ret, s1)"
      by (cases "emz_queue_dma_rx_buffer c rx (legacy_take c rest (legacy_claim c s))")
    then have "rx_bd_ring (dat s1) = rx_bd_ring (dat s)"
      using queue_dma_rx_buffer_ring [of c rx "legacy_take c rest (legacy_claim c s)"] by simp
    then show ?thesis
      using 1 [OF _ _ q [symmetric]] Cons q by (simp add: legacy_refill_loop.simps [of c q s])
  qed
qed

lemma refill_dma_rx_done:
  "done_count (rx_bd_ring (dat (snd (emz_refill_dma_rx c s)))) \<le> done_count (rx_bd_ring (dat s))"
proof (cases "emz_rx_direct_enabled c")
  case True
  then show ?thesis by (simp add: done_count_d_refill)
next
  case False
  let ?s = "upd_perf (inc64 Rx_refill_calls) (upd_prof c (emaczero_profile_counter COUNTER_RX_REFILL_CALLS) (tick s))"
  have "rx_bd_ring (dat (snd (emz_refill_dma_rx c s))) = rx_bd_ring (dat s)"
    using False legacy_refill_ring [of c 0 ?s]
    by (cases "legacy_refill_loop c 0 ?s")
      (auto simp: emz_refill_dma_rx_def Let_def split: sum.split)
  then show ?thesis by simp
qed

lemma release_done:
  "done_count (rx_bd_ring (dat (emz_release_rx_buffer c rx s))) \<le> done_count (rx_bd_ring (dat s))"
  unfolding emz_release_rx_buffer_def Let_def dat_frame
  by (rule order_trans [OF refill_dma_rx_done]) auto

lemma poll_dispatch_done:
  "done_count (rx_bd_ring (dat (poll_dispatch c rx status s))) \<le> done_count (rx_bd_ring (dat s))"
proof -
  let ?s = "poll_mark c rx status s"
  let ?b = "rx_buffer (dat ?s) ! rx"
  obtain eaten s2 where e: "(if rxb_status ?b = 0 then run_interceptor (rx_interceptor (dat ?s)) ?b ?s
      else (False, ?s)) = (eaten, s2)" by (metis surj_pair)
  have ring: "rx_bd_ring (dat s2) = rx_bd_ring (dat s)"
    using e by (auto dest!: run_interceptor_dat simp: poll_mark_dat d_result_def upd_rx_def split: if_splits)
  have keep: "done_count (rx_bd_ring (dat (poll_keep c rx b s'))) \<le> done_count (rx_bd_ring (dat s'))" for b s'
    unfolding poll_keep_def Let_def
    by (auto simp: upd_rx_def intro!: order_trans [OF release_done])
  have "poll_dispatch c rx status s =
      (if eaten then note_completed c False (emz_release_rx_buffer c rx s2) else poll_keep c rx ?b s2)"
    unfolding poll_dispatch_def Let_def e by simp
  then show ?thesis
    using keep [of ?b s2] release_done [of c rx s2] ring by auto
qed

text \<open>
  The guard on the consume index is for termination on arbitrary states only: in every
  state the driver reaches it holds (\<open>rx_inv\<close> of the ownership theory).
\<close>

function poll_loop :: "ctx \<Rightarrow> u32 \<Rightarrow> emz \<Rightarrow> u32 \<times> emz" where
  "poll_loop c completed s =
     (if rx_bd_consume_index (dat s) < length (rx_bd_ring (dat s)) then
        (case poll_take c s of
           (None, s1) \<Rightarrow> (completed, s1)
         | (Some (rx, status), s1) \<Rightarrow> poll_loop c (completed + 1) (poll_dispatch c rx status s1))
      else (completed, s))"
  by pat_completeness auto
termination
proof (relation "measure (\<lambda>(c, q, s). done_count (rx_bd_ring (dat s)))")
  show "wf (measure (\<lambda>(c, q, s). done_count (rx_bd_ring (dat s))))" by simp
next
  fix c :: ctx and completed :: u32 and s x s1 p rx status
  assume i: "rx_bd_consume_index (dat s) < length (rx_bd_ring (dat s))"
    and t: "(x, s1) = poll_take c s" "x = Some p" "(rx, status) = p"
  have r: "dat s1 = d_retire c (dat s)"
    and d: "bd_done (bd_status (rx_bd_ring (dat s) ! rx_bd_consume_index (dat s)))"
    using poll_take_Some [of c s rx status s1] t by auto
  have "done_count (rx_bd_ring (dat s1)) < done_count (rx_bd_ring (dat s))"
    unfolding r d_retire_def Let_def using d i by (simp add: done_count_less)
  then show "((c, completed + 1, poll_dispatch c rx status s1), (c, completed, s))
      \<in> measure (\<lambda>(c, q, s). done_count (rx_bd_ring (dat s)))"
    using poll_dispatch_done [of c rx status s1] by simp
qed

declare poll_loop.simps [simp del]

definition emz_rx_direct_poll :: "ctx \<Rightarrow> emz \<Rightarrow> emz" where
  "emz_rx_direct_poll c s =
     (case poll_loop c 0 s of
        (completed, s) \<Rightarrow>
          let s = upd_perf (emz_perf_set_max_u32 Rx_poll_completed_max completed) s
          in if completed \<noteq> 0 then snd (emz_refill_dma_rx c s) else s)"

text \<open>The delayable work: poll when the ring runs, reschedule in 1 ms.\<close>

definition emz_rx_direct_poll_work_handler :: "ctx \<Rightarrow> emz \<Rightarrow> emz" where
  "emz_rx_direct_poll_work_handler c s =
     (let s = (if rx_direct_ring_started (dat s) then emz_rx_direct_poll c s else s)
      in emit Schedule_poll_work s)"

section \<open>Arming, interrupts, recovery\<close>

definition EMZ_AXI_DMA_REG_S2MM_DMACR :: u32 where "EMZ_AXI_DMA_REG_S2MM_DMACR = 0x30"
definition EMZ_AXI_DMA_REG_S2MM_DMASR :: u32 where "EMZ_AXI_DMA_REG_S2MM_DMASR = 0x34"
definition EMZ_AXI_DMA_REG_S2MM_CURDESC :: u32 where "EMZ_AXI_DMA_REG_S2MM_CURDESC = 0x38"

definition EMZ_AXI_DMA_DMACR_RESET :: u32 where "EMZ_AXI_DMA_DMACR_RESET = BIT 2"
definition EMZ_AXI_DMA_DMACR_RS :: u32 where "EMZ_AXI_DMA_DMACR_RS = BIT 0"
definition EMZ_AXI_DMA_DMACR_IOC_IRQEN :: u32 where "EMZ_AXI_DMA_DMACR_IOC_IRQEN = BIT 12"
definition EMZ_AXI_DMA_DMACR_DLY_IRQEN :: u32 where "EMZ_AXI_DMA_DMACR_DLY_IRQEN = BIT 13"
definition EMZ_AXI_DMA_DMACR_ERR_IRQEN :: u32 where "EMZ_AXI_DMA_DMACR_ERR_IRQEN = BIT 14"
definition EMZ_AXI_DMA_DMASR_IRQ_ALL :: u32 where
  "EMZ_AXI_DMA_DMASR_IRQ_ALL = BIT 14 OR BIT 13 OR BIT 12"
definition EMZ_AXI_DMA_DMASR_ERROR_MASK :: u32 where
  "EMZ_AXI_DMA_DMASR_ERROR_MASK = BIT 10 OR BIT 9 OR BIT 8 OR BIT 6 OR BIT 5 OR BIT 4"
definition EMZ_AXI_DMA_DMASR_HALTED :: u32 where "EMZ_AXI_DMA_DMASR_HALTED = BIT 0"

definition rx_dmacr :: u32 where
  "rx_dmacr = EMZ_AXI_DMA_DMACR_RS OR EMZ_AXI_DMA_DMACR_IOC_IRQEN OR
     EMZ_AXI_DMA_DMACR_DLY_IRQEN OR EMZ_AXI_DMA_DMACR_ERR_IRQEN OR
     push_bit 16 32 OR push_bit 24 32"

definition emz_rx_direct_arm :: "ctx \<Rightarrow> emz \<Rightarrow> emz" where
  "emz_rx_direct_arm c s =
     (let s = emz_dma_write c EMZ_AXI_DMA_REG_S2MM_DMACR EMZ_AXI_DMA_DMACR_RESET s;
          s = emit (Busy_wait 10) s;
          s = emz_dma_write c EMZ_AXI_DMA_REG_S2MM_DMASR 0xffffffff s;
          s = emz_dma_write c EMZ_AXI_DMA_REG_S2MM_CURDESC
                (rx_bd_addr (dat s) (rx_bd_consume_index (dat s))) s;
          s = emit Dmem_fence s;
          s = emz_dma_write c EMZ_AXI_DMA_REG_S2MM_DMACR rx_dmacr s;
          s = emit Dmem_fence s;
          s = upd_dat (\<lambda>d. d\<lparr>rx_direct_ring_started := True\<rparr>) s
      in if 0 < rx_bd_posted (dat s) then
           let s = emz_dma_write c EMZ_AXI_DMA_REG_S2MM_TAILDESC
                     (rx_bd_addr (dat s) (rx_bd_tail_index (dat s))) s
           in upd_perf (inc64 Rx_bd_tail_updates) s
         else s)"

text \<open>
  \<^verbatim>\<open>emz_rx_direct_recover\<close>. \<open>orphans\<close> are the buffers still recorded in the ring, in
  slot order.
\<close>

definition orphans :: "emaczero_data \<Rightarrow> nat list" where
  "orphans d = List.map_filter (\<lambda>x. x) (rx_bd_buffer d)"

definition clear_ring :: "emaczero_data \<Rightarrow> emaczero_data" where
  "clear_ring d = d\<lparr>rx_direct_ring_started := False,
     rx_bd_buffer := map (\<lambda>_. None) (rx_bd_buffer d),
     rx_bd_ring := map (\<lambda>b. b\<lparr>bd_status := 0, bd_control := 0\<rparr>) (rx_bd_ring d),
     rx_bd_consume_index := 0, rx_bd_refill_index := 0, rx_bd_tail_index := 0,
     rx_bd_posted := 0, rx_dma_inflight := 0\<rparr>"

definition put_free :: "nat \<Rightarrow> emaczero_data \<Rightarrow> emaczero_data" where
  "put_free rx d = d\<lparr>rx_free_count := rx_free_count d + 1, rx_free_fifo := rx_free_fifo d @ [rx]\<rparr>"

text \<open>
  \<open>recover_body\<close> runs up to \<^verbatim>\<open>irq_enable\<close>; what follows it can already be preceded by
  the interrupt handler.
\<close>

definition recover_body :: "ctx \<Rightarrow> emz \<Rightarrow> emz" where
  "recover_body c s =
     (let irq = cfg_dma_rx_irq (cfg c);
          s = emit (Irq_disable irq) s;
          s = emz_dma_write c EMZ_AXI_DMA_REG_S2MM_DMACR EMZ_AXI_DMA_DMACR_RESET s;
          s = emit (Busy_wait 10) s;
          s = emz_dma_write c EMZ_AXI_DMA_REG_S2MM_DMASR 0xffffffff s;
          s = emit Dmem_fence s;
          orph = orphans (dat s);
          s = upd_dat clear_ring s;
          s = emz_perf_set_bd_available c s;
          s = emz_dma_cache_flush c (rx_bd_ring_addr (dat s)) (bd_size * of_nat (rx_count c)) s;
          s = upd_dat (\<lambda>d. d\<lparr>rx_dma_fifo_count := rx_dma_fifo_count d - of_nat (length orph)\<rparr>) s;
          s = upd_dat (fold put_free orph) s;
          s = emz_perf_update_pool_inflight c s;
          s = snd (emz_rx_direct_refill c s);
          s = emz_rx_direct_arm c s
      in emit (Irq_enable irq) s)"

definition recover_finish :: "emz \<Rightarrow> emz" where
  "recover_finish s =
     upd_dat (\<lambda>d. d\<lparr>rx_direct_recover_pending := False\<rparr>) (upd_perf (inc32 Rx_dma_recoveries) s)"

definition emz_rx_direct_recover :: "ctx \<Rightarrow> emz \<Rightarrow> emz" where
  "emz_rx_direct_recover c s = recover_finish (recover_body c s)"

text \<open>
  The work item. \<^verbatim>\<open>data->dev\<close> is set at initialisation, before the work can be
  submitted.
\<close>

definition emz_rx_direct_recover_work_handler :: "ctx \<Rightarrow> emz \<Rightarrow> emz" where
  "emz_rx_direct_recover_work_handler c s = emz_rx_direct_recover c s"

text \<open>The handler: \<open>isr_ack\<close> is the part before the poll, up to the acknowledgement and its barrier.\<close>

definition isr_ack :: "ctx \<Rightarrow> u32 \<Rightarrow> emz \<Rightarrow> emz" where
  "isr_ack c now_cycle s =
     (let dmasr_addr = cfg_dma_base (cfg c) + EMZ_AXI_DMA_REG_S2MM_DMASR;
          dmasr = reg_value c dmasr_addr s; s = reg_read dmasr_addr s;
          s = upd_perf (inc64 Rx_irq_count) s;
          s = emz_perf_note_dma_callback_gap c now_cycle s;
          s = (if dmasr AND EMZ_AXI_DMA_DMASR_ERROR_MASK \<noteq> 0 then
                 let s = upd_perf (inc64 Dma_errors) s;
                     s = upd_perf (inc32 Rx_bd_errors) s
                 in if dmasr AND EMZ_AXI_DMA_DMASR_HALTED \<noteq> 0
                    then emz_rx_direct_request_recover s else s
               else s);
          s = emz_dma_write c EMZ_AXI_DMA_REG_S2MM_DMASR
                (dmasr AND (EMZ_AXI_DMA_DMASR_IRQ_ALL OR EMZ_AXI_DMA_DMASR_ERROR_MASK)) s
      in emit Dmem_fence s)"

definition emz_rx_direct_isr :: "ctx \<Rightarrow> emz \<Rightarrow> emz" where
  "emz_rx_direct_isr c s =
     (let now_cycle = cycle_now c s; s = tick s;
          r7_isr_start = now_cycle;
          s = isr_ack c now_cycle s;
          s = emz_rx_direct_poll c s;
          s = emit Dmem_fence s
      in r7_since c EMZ_R7_ISR_TOTAL r7_isr_start s)"

section \<open>Start-up\<close>

definition emz_rx_direct_start :: "ctx \<Rightarrow> dma_mem \<Rightarrow> emz \<Rightarrow> int \<times> dma_mem \<times> emz" where
  "emz_rx_direct_start c m s =
     (case emz_sg_mem_alloc (kc c) 64 (bd_size * of_nat (rx_count c)) m of
        (None, m) \<Rightarrow> (- ENOMEM, m, s)
      | (Some base, m) \<Rightarrow>
          let s = upd_dat (\<lambda>d. d\<lparr>rx_bd_ring_addr := base, rx_bd_ring := linked_ring base (rx_count c)\<rparr>) s;
              s = emz_dma_cache_flush c base (bd_size * of_nat (rx_count c)) s;
              s = upd_perf (set32 Rx_bd_available_min 0xffffffff) s;
              s = emz_perf_set_bd_available c s
          in case emz_rx_direct_refill c s of
               (queued, s) \<Rightarrow>
                 if queued \<le> 0 then (if queued < 0 then queued else - ENOSPC, m, s)
                 else
                   let s = emit (Irq_disable (cfg_dma_rx_irq (cfg c))) s;
                       s = emz_rx_direct_arm c s;
                       s = emit (Irq_enable (cfg_dma_rx_irq (cfg c))) s
                   in (queued, m, emit Schedule_poll_work s))"

section \<open>Data effects of the handlers\<close>

lemma arm_dat [simp, emz_frame]:
  "dat (emz_rx_direct_arm c s) = (dat s)\<lparr>rx_direct_ring_started := True\<rparr>"
  by (simp add: emz_rx_direct_arm_def emz_dma_write_def Let_def)

definition d_recover :: "ctx \<Rightarrow> emaczero_data \<Rightarrow> emaczero_data" where
  "d_recover c d =
     (let orph = orphans d; d = clear_ring d;
          d = d\<lparr>rx_dma_fifo_count := rx_dma_fifo_count d - of_nat (length orph)\<rparr>;
          d = d_refill c (fold put_free orph d)
      in d\<lparr>rx_direct_ring_started := True, rx_direct_recover_pending := False\<rparr>)"

lemma recover_body_dat:
  "dat (recover_body c s) = d_refill c (fold put_free (orphans (dat s))
     ((clear_ring (dat s))\<lparr>rx_dma_fifo_count :=
        rx_dma_fifo_count (dat s) - of_nat (length (orphans (dat s)))\<rparr>))
     \<lparr>rx_direct_ring_started := True\<rparr>"
  by (simp add: recover_body_def Let_def emz_dma_write_def) (simp add: clear_ring_def)

lemma recover_dat: "dat (emz_rx_direct_recover c s) = d_recover c (dat s)"
  by (simp add: emz_rx_direct_recover_def recover_finish_def recover_body_dat d_recover_def Let_def)
    (simp add: clear_ring_def)

end
