(* ===== verification/RxOwnership.thy ===== *)
theory RxOwnership
  imports RxPoll "HOL-Library.Multiset"
begin

text \<open>
  Who owns which RX buffer. \<open>ring_inv\<close> is the shape of the direct descriptor ring:
  the recorded buffers are exactly the slots from the consume index up to the refill index,
  the engine's tail is the last of them, and the counters agree. Under it the ring is a
  bounded queue (interpretation \<open>rx_ring\<close>). \<open>rx_inv\<close> adds the pool: the free list, the
  ring, the ready list, the worker, the network stack and the handler at work partition the
  buffers \<open>0..<N\<close>, and the five atomic counters count them.
\<close>

section \<open>The ring invariant\<close>

definition rx_cap :: "ctx \<Rightarrow> nat" where
  "rx_cap c = min (rx_count c) (rx_dma_post_count (kc c))"

definition posted_buffers :: "emaczero_data \<Rightarrow> nat list" where
  "posted_buffers d = map the (window (rx_bd_consume_index d) (unat (rx_bd_posted d)) (rx_bd_buffer d))"

definition slots_ok :: "nat \<Rightarrow> nat \<Rightarrow> 'a option list \<Rightarrow> bool" where
  "slots_ok head n slots \<longleftrightarrow>
     (\<forall>i < length slots. slots ! ((head + i) mod length slots) \<noteq> None \<longleftrightarrow> i < n)"

definition ring_inv :: "ctx \<Rightarrow> emaczero_data \<Rightarrow> bool" where
  "ring_inv c d \<longleftrightarrow> kconfig_ok (kc c) \<and>
     length (rx_bd_ring d) = rx_count c \<and> length (rx_bd_buffer d) = rx_count c \<and>
     rx_bd_consume_index d < rx_count c \<and> unat (rx_bd_posted d) \<le> rx_cap c \<and>
     rx_bd_refill_index d = (rx_bd_consume_index d + unat (rx_bd_posted d)) mod rx_count c \<and>
     (0 < rx_bd_posted d \<longrightarrow>
        rx_bd_tail_index d = (rx_bd_consume_index d + unat (rx_bd_posted d) - 1) mod rx_count c) \<and>
     slots_ok (rx_bd_consume_index d) (unat (rx_bd_posted d)) (rx_bd_buffer d) \<and>
     rx_dma_inflight d = rx_bd_posted d \<and> rx_dma_fifo_count d = rx_bd_posted d"

lemma length_posted [simp]: "length (posted_buffers d) = unat (rx_bd_posted d)"
  by (simp add: posted_buffers_def)

lemma ring_inv_slots:
  assumes "ring_inv c d" and "i < rx_count c"
  shows "rx_bd_buffer d ! ((rx_bd_consume_index d + i) mod rx_count c) \<noteq> None
    \<longleftrightarrow> i < unat (rx_bd_posted d)"
proof -
  have "slots_ok (rx_bd_consume_index d) (unat (rx_bd_posted d)) (rx_bd_buffer d)"
    and len: "length (rx_bd_buffer d) = rx_count c"
    using assms by (simp_all add: ring_inv_def)
  then show ?thesis unfolding slots_ok_def len using assms(2) by blast
qed

lemma ring_inv_first:
  assumes "ring_inv c d"
  shows "rx_bd_buffer d ! rx_bd_consume_index d \<noteq> None \<longleftrightarrow> 0 < unat (rx_bd_posted d)"
proof -
  have h: "rx_bd_consume_index d < rx_count c" using assms by (simp add: ring_inv_def)
  then show ?thesis using ring_inv_slots [OF assms, of 0] by simp
qed

lemma rx_cap_small:
  assumes "kconfig_ok (kc c)"
  shows "0 < rx_cap c" and "rx_cap c \<le> rx_count c" and "rx_cap c < 256" and "0 < rx_count c"
    and "rx_count c \<le> 256" and "rx_cap c \<le> rx_dma_post_count (kc c)"
  using kconfig_ok_rx_count [OF assms] by (auto simp: rx_cap_def)

lemma slots_ok_push:
  assumes "slots_ok head n slots" and "n < length slots"
  shows "slots_ok head (n + 1) (slots[(head + n) mod length slots := Some x])"
  unfolding slots_ok_def
proof (intro allI impI)
  fix i assume "i < length (slots[(head + n) mod length slots := Some x])"
  then have i: "i < length slots" by simp
  then have pos: "0 < length slots" by linarith
  show "slots[(head + n) mod length slots := Some x] !
      ((head + i) mod length (slots[(head + n) mod length slots := Some x])) \<noteq> None \<longleftrightarrow> i < n + 1"
  proof (cases "i = n")
    case True
    with pos show ?thesis by simp
  next
    case False
    then have "(head + n) mod length slots \<noteq> (head + i) mod length slots"
      using mod_offset_inj [OF assms(2) i] by blast
    with assms(1) i False show ?thesis by (auto simp: slots_ok_def)
  qed
qed

lemma slots_ok_pop:
  assumes "slots_ok head (n + 1) slots" and "head < length slots" and "n < length slots"
  shows "slots_ok (Suc head mod length slots) n (slots[head := None])"
  unfolding slots_ok_def
proof (intro allI impI)
  fix i assume "i < length (slots[head := None])"
  then have i: "i < length slots" by simp
  have idx: "(Suc head mod length slots + i) mod length slots = (head + Suc i) mod length slots"
    by (simp add: mod_add_left_eq)
  show "slots[head := None] ! ((Suc head mod length slots + i) mod length (slots[head := None])) \<noteq> None
      \<longleftrightarrow> i < n"
  proof (cases "Suc i = length slots")
    case True
    then have "(head + Suc i) mod length slots = head" using assms(2) by simp
    with True assms(2,3) show ?thesis by (simp add: idx)
  next
    case False
    then have lt: "Suc i < length slots" using i by simp
    have "(head + Suc i) mod length slots \<noteq> head"
    proof
      assume "(head + Suc i) mod length slots = head"
      then have "(head + Suc i) mod length slots = (head + 0) mod length slots" using assms(2) by simp
      moreover have "0 < length slots" using i by linarith
      ultimately show False using mod_offset_inj [OF lt] by blast
    qed
    moreover have "slots ! ((head + Suc i) mod length slots) \<noteq> None \<longleftrightarrow> Suc i < n + 1"
      using assms(1) lt unfolding slots_ok_def by blast
    ultimately show ?thesis by (simp add: idx)
  qed
qed

section \<open>Posting and retiring keep it\<close>

lemma posted_succ:
  assumes "ring_inv c d" and "unat (rx_bd_posted d) < rx_cap c"
  shows "unat (rx_bd_posted d + 1) = unat (rx_bd_posted d) + 1"
  using assms rx_cap_small [of c] by (intro unat_Suc_word) (auto simp: ring_inv_def)

lemma d_post_sel [simp]:
  "rx_bd_consume_index (d_post c rx d) = rx_bd_consume_index d"
  "rx_bd_posted (d_post c rx d) = rx_bd_posted d + 1"
  "rx_bd_buffer (d_post c rx d) = (rx_bd_buffer d)[rx_bd_refill_index d := Some rx]"
  "rx_ready_fifo (d_post c rx d) = rx_ready_fifo d"
  "rx_ready_fifo_count (d_post c rx d) = rx_ready_fifo_count d"
  "rx_worker_count (d_post c rx d) = rx_worker_count d"
  "rx_stack_owned_count (d_post c rx d) = rx_stack_owned_count d"
  "rx_buffer (d_post c rx d) = rx_buffer d"
  by (simp_all add: d_post_def Let_def)

lemma d_post_inv:
  assumes "ring_inv c d" and "unat (rx_bd_posted d) < rx_cap c"
  shows "ring_inv c (d_post c rx d)"
    and "posted_buffers (d_post c rx d) = posted_buffers d @ [rx]"
proof -
  let ?n = "unat (rx_bd_posted d)" and ?h = "rx_bd_consume_index d"
  note inv = assms(1) [unfolded ring_inv_def]
  have k: "kconfig_ok (kc c)" and refill: "rx_bd_refill_index d = (?h + ?n) mod rx_count c"
    and len: "length (rx_bd_buffer d) = rx_count c"
    using inv by auto
  note cap = rx_cap_small [OF k]
  have n: "?n < length (rx_bd_buffer d)" using assms(2) cap len by simp
  note succ = posted_succ [OF assms]
  have ok: "slots_ok ?h (?n + 1) ((rx_bd_buffer d)[(?h + ?n) mod rx_count c := Some rx])"
    using slots_ok_push [of ?h ?n "rx_bd_buffer d" rx] inv n by simp
  have "Suc ((?h + ?n) mod rx_count c) mod rx_count c = (?h + (?n + 1)) mod rx_count c"
    by (simp add: mod_Suc_eq)
  then show "ring_inv c (d_post c rx d)"
    unfolding ring_inv_def using inv ok succ assms(2)
    by (simp add: refill) (simp add: d_post_def Let_def refill)
  show "posted_buffers (d_post c rx d) = posted_buffers d @ [rx]"
    unfolding posted_buffers_def
    using window_push [OF n, of ?h "Some rx"] by (simp add: succ refill len)
qed

lemma d_retire_sel [simp]:
  "rx_free_fifo (d_retire c d) = rx_free_fifo d"
  "rx_free_count (d_retire c d) = rx_free_count d"
  "rx_ready_fifo (d_retire c d) = rx_ready_fifo d"
  "rx_ready_fifo_count (d_retire c d) = rx_ready_fifo_count d"
  "rx_worker_count (d_retire c d) = rx_worker_count d"
  "rx_stack_owned_count (d_retire c d) = rx_stack_owned_count d"
  "rx_buffer (d_retire c d) = rx_buffer d"
  by (simp_all add: d_retire_def Let_def)

lemma d_retire_inv:
  assumes "ring_inv c d" and "posted_buffers d \<noteq> []"
  shows "ring_inv c (d_retire c d)"
    and "posted_buffers d = the (rx_bd_buffer d ! rx_bd_consume_index d) # posted_buffers (d_retire c d)"
proof -
  let ?h = "rx_bd_consume_index d"
  obtain n where n: "unat (rx_bd_posted d) = n + 1"
    using assms(2) length_posted [of d] by (cases "unat (rx_bd_posted d)") (simp_all del: length_posted)
  note inv = assms(1) [unfolded ring_inv_def]
  have k: "kconfig_ok (kc c)" and len: "length (rx_bd_buffer d) = rx_count c"
    and h: "?h < rx_count c" and refill: "rx_bd_refill_index d = (?h + (n + 1)) mod rx_count c"
    using inv n by auto
  note cap = rx_cap_small [OF k]
  have nl: "n < length (rx_bd_buffer d)" using inv cap len n by simp
  have p1: "unat (rx_bd_posted d - 1) = n" using unat_pred_word [of "rx_bd_posted d"] n by simp
  have pos: "0 < rx_bd_posted d" using n by (simp add: word_greater_zero_iff) (metis Zero_not_Suc unat_0)
  have ok: "slots_ok (Suc ?h mod rx_count c) n ((rx_bd_buffer d)[?h := None])"
    using slots_ok_pop [of ?h n "rx_bd_buffer d"] inv h nl n by simp
  have tail: "rx_bd_tail_index d = (?h + n) mod rx_count c" using inv pos n by simp
  have r1: "(Suc ?h mod rx_count c + n) mod rx_count c = (?h + (n + 1)) mod rx_count c"
    by (simp add: mod_add_left_eq)
  have r2: "0 < n \<Longrightarrow> (Suc ?h mod rx_count c + n - 1) mod rx_count c = (?h + n) mod rx_count c"
    by (cases n) (simp_all add: mod_add_left_eq)
  have "n \<le> rx_cap c" using inv n by simp
  have pos1: "0 < rx_bd_posted d - 1 \<Longrightarrow> 0 < n" using p1 by (cases n) (auto simp: unat_eq_zero)
  show "ring_inv c (d_retire c d)"
    unfolding ring_inv_def using inv ok p1 pos \<open>n \<le> rx_cap c\<close> cap(4) tail r1 r2 pos1
    by (simp add: d_retire_def Let_def refill)
  show "posted_buffers d = the (rx_bd_buffer d ! ?h) # posted_buffers (d_retire c d)"
    using window_pop [of ?h "rx_bd_buffer d" n None] h nl len
    by (simp add: posted_buffers_def n d_retire_def Let_def p1)
qed

text \<open>The direct ring is a bounded queue of buffers: posting appends, retiring removes the oldest.\<close>

interpretation rx_ring: bounded_fifo "ring_inv c" posted_buffers "rx_cap c" "d_post c" "d_retire c"
  for c
  by unfold_locales
    (simp_all add: d_post_inv, metis d_retire_inv(1), metis d_retire_inv(2) list.sel(3))

lemma can_post_iff:
  assumes "ring_inv c d"
  shows "can_post c d \<longleftrightarrow> unat (rx_bd_posted d) < rx_cap c"
proof -
  let ?n = "unat (rx_bd_posted d)"
  note inv = assms [unfolded ring_inv_def]
  have k: "kconfig_ok (kc c)" using inv by simp
  note cap = rx_cap_small [OF k]
  have idx: "rx_bd_refill_index d = (rx_bd_consume_index d + ?n) mod rx_count c"
    using inv by simp
  note slots = ring_inv_slots [OF assms]
  have free: "?n < rx_count c \<Longrightarrow> rx_bd_buffer d ! rx_bd_refill_index d = None"
    using slots [of ?n] idx by simp
  have "rx_bd_refill_index d = (rx_bd_consume_index d + 0) mod rx_count c" if "?n = rx_count c"
    using idx that by simp
  then have full: "?n = rx_count c \<Longrightarrow> rx_bd_buffer d ! rx_bd_refill_index d \<noteq> None"
    using slots [of 0] cap(4) by metis
  have "rx_dma_inflight d < of_nat (rx_dma_post_count (kc c)) \<longleftrightarrow> ?n < rx_dma_post_count (kc c)"
    using inv kconfig_ok_rx_count [OF k] by (simp add: word_less_nat_alt)
  moreover have "?n \<le> rx_count c" using inv cap by simp
  ultimately show ?thesis
    using free full by (cases "?n = rx_count c") (auto simp: can_post_def rx_cap_def)
qed

section \<open>The pool invariant\<close>

text \<open>
  \<open>W\<close> is what the RX worker holds, \<open>K\<close> what the network stack holds, \<open>H\<close> what the
  running handler has in hand.
\<close>

definition owned :: "nat list \<Rightarrow> nat list \<Rightarrow> nat list \<Rightarrow> emaczero_data \<Rightarrow> nat multiset" where
  "owned W K H d = mset (rx_free_fifo d) + mset (posted_buffers d) + mset (rx_ready_fifo d)
     + mset W + mset K + mset H"

definition buffers_ok :: "ctx \<Rightarrow> emaczero_data \<Rightarrow> bool" where
  "buffers_ok c d \<longleftrightarrow> length (rx_buffer d) = rx_count c \<and>
     (\<forall>b \<in> set (rx_buffer d). length (rxb_bytes b) = net_eth_max_frame_size (kc c) \<and>
        unat (rxb_len b) \<le> net_eth_max_frame_size (kc c))"

text \<open>
  A descriptor that records a buffer points the engine at that buffer, with the size of
  the buffer as its limit.
\<close>

definition bds_ok :: "ctx \<Rightarrow> emaczero_data \<Rightarrow> bool" where
  "bds_ok c d \<longleftrightarrow> length (rx_bd_ring d) = length (rx_bd_buffer d) \<and>
     (\<forall>i < length (rx_bd_buffer d). \<forall>rx. rx_bd_buffer d ! i = Some rx \<longrightarrow>
        buffer_address (rx_bd_ring d ! i) = rxb_addr (rx_buffer d ! rx) \<and>
        buffer_address_msb (rx_bd_ring d ! i) = 0 \<and>
        bd_control (rx_bd_ring d ! i) = eth_buffer_size c AND EMZ_AXI_DMA_BD_CTRL_LEN_MASK)"

definition rx_inv :: "ctx \<Rightarrow> nat list \<Rightarrow> nat list \<Rightarrow> nat list \<Rightarrow> emaczero_data \<Rightarrow> bool" where
  "rx_inv c W K H d \<longleftrightarrow> ring_inv c d \<and> buffers_ok c d \<and> bds_ok c d \<and>
     owned W K H d = mset [0..<rx_count c] \<and>
     rx_free_count d = of_nat (length (rx_free_fifo d)) \<and>
     rx_ready_fifo_count d = of_nat (length (rx_ready_fifo d)) \<and>
     rx_worker_count d = of_nat (length W) \<and>
     rx_stack_owned_count d = of_nat (length K)"

lemma rx_invI:
  assumes "ring_inv c d" "buffers_ok c d" "bds_ok c d" "owned W K H d = mset [0..<rx_count c]"
    "rx_free_count d = of_nat (length (rx_free_fifo d))"
    "rx_ready_fifo_count d = of_nat (length (rx_ready_fifo d))"
    "rx_worker_count d = of_nat (length W)" "rx_stack_owned_count d = of_nat (length K)"
  shows "rx_inv c W K H d"
  using assms by (simp add: rx_inv_def)

lemma rx_inv_ring: "rx_inv c W K H d \<Longrightarrow> ring_inv c d"
  by (simp add: rx_inv_def)

lemma rx_inv_distinct:
  assumes "rx_inv c W K H d"
  shows "distinct (rx_free_fifo d @ posted_buffers d @ rx_ready_fifo d @ W @ K @ H)"
    and "set (rx_free_fifo d @ posted_buffers d @ rx_ready_fifo d @ W @ K @ H) = {0..<rx_count c}"
proof -
  have m: "mset (rx_free_fifo d @ posted_buffers d @ rx_ready_fifo d @ W @ K @ H) = mset [0..<rx_count c]"
    using assms by (simp add: rx_inv_def owned_def add.assoc)
  show "distinct (rx_free_fifo d @ posted_buffers d @ rx_ready_fifo d @ W @ K @ H)"
    using mset_eq_imp_distinct_iff [OF m] by simp
  show "set (rx_free_fifo d @ posted_buffers d @ rx_ready_fifo d @ W @ K @ H) = {0..<rx_count c}"
    using mset_eq_setD [OF m] by simp
qed

text \<open>Fields the ring and the pool do not read.\<close>

lemma rx_inv_other [simp]:
  "rx_inv c W K H (d\<lparr>rx_direct_recover_pending := p\<rparr>) = rx_inv c W K H d"
  "rx_inv c W K H (d\<lparr>rx_direct_ring_started := b\<rparr>) = rx_inv c W K H d"
  "rx_inv c W K H (d\<lparr>last_dma_callback_cycle := t\<rparr>) = rx_inv c W K H d"
  by (simp_all add: rx_inv_def ring_inv_def owned_def posted_buffers_def buffers_ok_def bds_ok_def)

lemma ring_inv_pool [simp]:
  "ring_inv c (d\<lparr>rx_free_fifo := xs\<rparr>) = ring_inv c d"
  "ring_inv c (d\<lparr>rx_free_count := n\<rparr>) = ring_inv c d"
  "ring_inv c (d\<lparr>rx_ready_fifo := xs\<rparr>) = ring_inv c d"
  "ring_inv c (d\<lparr>rx_ready_fifo_count := n\<rparr>) = ring_inv c d"
  "ring_inv c (d\<lparr>rx_worker_count := n\<rparr>) = ring_inv c d"
  "ring_inv c (d\<lparr>rx_stack_owned_count := n\<rparr>) = ring_inv c d"
  "ring_inv c (d\<lparr>rx_buffer := bs\<rparr>) = ring_inv c d"
  by (simp_all add: ring_inv_def)

lemma posted_pool [simp]:
  "posted_buffers (d\<lparr>rx_free_fifo := xs\<rparr>) = posted_buffers d"
  "posted_buffers (d\<lparr>rx_free_count := n\<rparr>) = posted_buffers d"
  "posted_buffers (d\<lparr>rx_ready_fifo := xs\<rparr>) = posted_buffers d"
  "posted_buffers (d\<lparr>rx_ready_fifo_count := n\<rparr>) = posted_buffers d"
  "posted_buffers (d\<lparr>rx_worker_count := n\<rparr>) = posted_buffers d"
  "posted_buffers (d\<lparr>rx_stack_owned_count := n\<rparr>) = posted_buffers d"
  "posted_buffers (d\<lparr>rx_buffer := bs\<rparr>) = posted_buffers d"
  by (simp_all add: posted_buffers_def)

lemma buffers_ok_same:
  "rx_buffer d' = rx_buffer d \<Longrightarrow> buffers_ok c d' = buffers_ok c d"
  by (simp add: buffers_ok_def)

lemma bds_ok_pool [simp]:
  "bds_ok c (d\<lparr>rx_free_fifo := xs\<rparr>) = bds_ok c d"
  "bds_ok c (d\<lparr>rx_free_count := n\<rparr>) = bds_ok c d"
  "bds_ok c (d\<lparr>rx_ready_fifo := xs\<rparr>) = bds_ok c d"
  "bds_ok c (d\<lparr>rx_ready_fifo_count := n\<rparr>) = bds_ok c d"
  "bds_ok c (d\<lparr>rx_worker_count := n\<rparr>) = bds_ok c d"
  "bds_ok c (d\<lparr>rx_stack_owned_count := n\<rparr>) = bds_ok c d"
  by (simp_all add: bds_ok_def)

lemma bds_ok_post: "bds_ok c d \<Longrightarrow> bds_ok c (d_post c rx d)"
  by (cases "rx_bd_refill_index d < length (rx_bd_buffer d)")
    (auto simp: bds_ok_def d_post_def Let_def programmed_bd_def nth_list_update list_update_beyond
      split: if_splits)

lemma bds_ok_retire: "bds_ok c d \<Longrightarrow> bds_ok c (d_retire c d)"
  by (cases "rx_bd_consume_index d < length (rx_bd_buffer d)")
    (auto simp: bds_ok_def d_retire_def Let_def nth_list_update list_update_beyond split: if_splits)

lemma bds_ok_clear: "bds_ok c d \<Longrightarrow> bds_ok c ((clear_ring d)\<lparr>rx_dma_fifo_count := n\<rparr>)"
  by (simp add: bds_ok_def clear_ring_def)

lemma bds_ok_upd_rx:
  "bds_ok c d \<Longrightarrow> (\<And>b. rxb_addr (f b) = rxb_addr b) \<Longrightarrow> bds_ok c (upd_rx rx f d)"
  by (cases "rx < length (rx_buffer d)")
    (auto simp: bds_ok_def upd_rx_def list_update_beyond nth_list_update)

section \<open>The operations keep the pool invariant\<close>

text \<open>One round of the refill loop: a buffer moves from the free list into the ring.\<close>

lemma refill_round_inv:
  assumes inv: "rx_inv c W K H d" and free: "rx_free_fifo d = rx # rest" and post: "can_post c d"
  shows "rx_inv c W K H ((d_post c rx (d\<lparr>rx_free_fifo := rest\<rparr>))\<lparr>rx_free_count := rx_free_count d - 1\<rparr>)"
proof -
  let ?d = "d\<lparr>rx_free_fifo := rest\<rparr>"
  have ring: "ring_inv c ?d" and cap: "unat (rx_bd_posted ?d) < rx_cap c"
    using inv post can_post_iff [of c d] by (simp_all add: rx_inv_def)
  note p = d_post_inv [OF ring cap, of rx]
  show ?thesis
    using inv p free
    by (intro rx_invI)
      (simp_all add: rx_inv_def owned_def bds_ok_post buffers_ok_same [of "d_post c rx ?d" d]
        buffers_ok_same [of "(d_post c rx ?d)\<lparr>rx_free_count := n\<rparr>" d for n] add.assoc)
qed

lemma refill_rotate_inv:
  assumes "rx_inv c W K H d" and "rx_free_fifo d = rx # rest"
  shows "rx_inv c W K H (d\<lparr>rx_free_fifo := rest @ [rx]\<rparr>)"
  using assms by (simp add: rx_inv_def owned_def buffers_ok_def)

lemma d_refill_inv:
  assumes "rx_inv c W K H d"
  shows "rx_inv c W K H (d_refill c d)"
  using assms
proof (induction c d rule: d_refill.induct)
  case (1 c d)
  then show ?case
    by (cases "rx_free_fifo d")
      (simp_all add: d_refill.simps [of c d] refill_round_inv refill_rotate_inv)
qed

lemma put_free_inv:
  "rx_inv c W K (rx # H) d \<Longrightarrow> rx_inv c W K H (put_free rx d)"
  by (simp add: rx_inv_def put_free_def owned_def buffers_ok_def add.assoc)

lemma set_upd_rx:
  "b \<in> set (rx_buffer (upd_rx rx f d)) \<Longrightarrow> b \<in> set (rx_buffer d) \<or>
     (\<exists>b' \<in> set (rx_buffer d). b = f b')"
  by (cases "rx < length (rx_buffer d)")
    (auto simp: upd_rx_def list_update_beyond dest!: subsetD [OF set_update_subset_insert])

lemma upd_rx_inv:
  assumes "rx_inv c W K H d"
    and "\<And>b. rxb_addr (f b) = rxb_addr b"
    and "\<And>b. length (rxb_bytes (f b)) = length (rxb_bytes b)"
    and "\<And>b. unat (rxb_len b) \<le> net_eth_max_frame_size (kc c) \<Longrightarrow>
           unat (rxb_len (f b)) \<le> net_eth_max_frame_size (kc c)"
  shows "rx_inv c W K H (upd_rx rx f d)"
proof -
  have "buffers_ok c (upd_rx rx f d)"
    unfolding buffers_ok_def
  proof (intro conjI ballI)
    show "length (rx_buffer (upd_rx rx f d)) = rx_count c"
      using assms(1) by (simp add: rx_inv_def buffers_ok_def upd_rx_def)
    fix b assume "b \<in> set (rx_buffer (upd_rx rx f d))"
    then consider "b \<in> set (rx_buffer d)" | b' where "b' \<in> set (rx_buffer d)" "b = f b'"
      using set_upd_rx by blast
    then show "length (rxb_bytes b) = net_eth_max_frame_size (kc c)"
      and "unat (rxb_len b) \<le> net_eth_max_frame_size (kc c)"
      using assms by (cases; simp add: rx_inv_def buffers_ok_def)+
  qed
  then show ?thesis
    using assms(1) bds_ok_upd_rx [of c d f rx] assms(2) by (simp add: rx_inv_def upd_rx_def owned_def)
qed

lemma d_release_inv:
  assumes "rx_inv c W K (rx # H) d"
  shows "rx_inv c W K H (d_release c rx d)"
proof -
  have "d_release c rx d = d_refill c (put_free rx (upd_rx rx (\<lambda>b. b\<lparr>rxb_stack_handoff_cycle := 0\<rparr>) d))"
    by (simp add: d_release_def put_free_def upd_rx_def)
  then show ?thesis
    by (simp add: d_refill_inv put_free_inv upd_rx_inv assms)
qed

lemma d_retire_pool_inv:
  assumes inv: "rx_inv c W K H d" and some: "rx_bd_buffer d ! rx_bd_consume_index d = Some rx"
  shows "rx_inv c W K (rx # H) (d_retire c d)"
proof -
  have ring: "ring_inv c d" using inv by (rule rx_inv_ring)
  then have k: "kconfig_ok (kc c)" by (simp add: ring_inv_def)
  have "0 < unat (rx_bd_posted d)"
    using ring_inv_first [OF ring] some by simp
  then have "posted_buffers d \<noteq> []" by (metis length_posted less_irrefl list.size(3))
  note r = d_retire_inv [OF ring this]
  show ?thesis
    using inv r(1) r(2) some
    by (intro rx_invI) (simp_all add: rx_inv_def owned_def bds_ok_retire buffers_ok_same [of "d_retire c d" d])
qed

lemma d_enqueue_inv:
  "rx_inv c W K (rx # H) d \<Longrightarrow> rx_inv c W K H (d_enqueue rx d)"
  by (simp add: rx_inv_def d_enqueue_def owned_def buffers_ok_def add.assoc)

text \<open>The length recorded from the status word never exceeds the buffer.\<close>

lemma set_rx_result_len:
  assumes "kconfig_ok (kc c)"
  shows "unat (rxb_len (set_rx_result c status b)) \<le> net_eth_max_frame_size (kc c)"
proof -
  have "unat (eth_buffer_size c) = net_eth_max_frame_size (kc c)"
    using assms by (simp add: kconfig_ok_def)
  then show ?thesis
    by (auto simp: set_rx_result_def Let_def word_less_nat_alt)
qed

lemma set_rx_result_bytes [simp]:
  "rxb_bytes (set_rx_result c status b) = rxb_bytes b"
  "rxb_addr (set_rx_result c status b) = rxb_addr b"
  by (simp_all add: set_rx_result_def Let_def)

lemma d_result_inv:
  assumes "rx_inv c W K H d"
  shows "rx_inv c W K H (d_result c rx status now d)"
proof -
  have k: "kconfig_ok (kc c)" using rx_inv_ring [OF assms] by (simp add: ring_inv_def)
  show ?thesis
    unfolding d_result_def
    by (rule upd_rx_inv [OF assms]; cases now) (simp_all add: Let_def set_rx_result_len [OF k])
qed

section \<open>Recovery\<close>

lemma offset_perm:
  assumes "0 < N"
  shows "mset (map (\<lambda>i. (h + i) mod N) [0..<N]) = mset [0..<N]"
proof -
  have "distinct (map (\<lambda>i. (h + i) mod N) [0..<N])"
    using mod_offset_inj by (fastforce simp: distinct_map inj_on_def)
  moreover have "set (map (\<lambda>i. (h + i) mod N) [0..<N]) = set [0..<N]"
  proof (intro equalityI subsetI)
    fix x assume "x \<in> set (map (\<lambda>i. (h + i) mod N) [0..<N])"
    then show "x \<in> set [0..<N]" using assms by auto
  next
    fix x assume "x \<in> set [0..<N]"
    then obtain i where "i < N" "(h + i) mod N = x" using slot_offset [of x N h] by auto
    then show "x \<in> set (map (\<lambda>i. (h + i) mod N) [0..<N])" by force
  qed
  ultimately show ?thesis by (metis distinct_upt set_eq_iff_mset_eq_distinct)
qed

lemma mset_map_filter: "mset xs = mset ys \<Longrightarrow> mset (List.map_filter f xs) = mset (List.map_filter f ys)"
  by (simp add: List.map_filter_def)

lemma map_filter_map: "List.map_filter f (map g xs) = List.map_filter (\<lambda>x. f (g x)) xs"
  by (simp add: List.map_filter_def filter_map comp_def)

lemma orphans_posted:
  assumes "ring_inv c d"
  shows "mset (orphans d) = mset (posted_buffers d)"
proof -
  let ?N = "rx_count c" and ?h = "rx_bd_consume_index d" and ?n = "unat (rx_bd_posted d)"
  note inv = assms [unfolded ring_inv_def]
  have k: "kconfig_ok (kc c)" and len: "length (rx_bd_buffer d) = ?N" using inv by auto
  note cap = rx_cap_small [OF k]
  have slots: "\<forall>i < ?N. rx_bd_buffer d ! ((?h + i) mod ?N) \<noteq> None \<longleftrightarrow> i < ?n"
    using ring_inv_slots [OF assms] by blast
  have n: "?n \<le> ?N" using inv cap by simp
  let ?g = "\<lambda>i. rx_bd_buffer d ! ((?h + i) mod ?N)"
  have "mset (orphans d) = mset (List.map_filter (\<lambda>i. rx_bd_buffer d ! i) [0..<?N])"
    using map_filter_map [of "\<lambda>x. x" "\<lambda>i. rx_bd_buffer d ! i" "[0..<?N]"]
    unfolding orphans_def len [symmetric] map_nth by simp
  also have "\<dots> = mset (List.map_filter (\<lambda>i. rx_bd_buffer d ! i) (map (\<lambda>i. (?h + i) mod ?N) [0..<?N]))"
    by (rule mset_map_filter) (simp add: offset_perm cap del: mset_map)
  also have "\<dots> = mset (List.map_filter ?g [0..<?N])"
    unfolding map_filter_map ..
  also have "List.map_filter ?g [0..<?N] = map (the \<circ> ?g) (filter (\<lambda>i. i < ?n) [0..<?N])"
    unfolding List.map_filter_def using slots by (auto intro!: arg_cong [of _ _ "map _"] filter_cong)
  also have "filter (\<lambda>i. i < ?n) [0..<?N] = [0..<?n]"
  proof -
    have "[0..<?N] = [0..<?n] @ [?n..<?N]" using n upt_add_eq_append [of 0 ?n "?N - ?n"] by simp
    then show ?thesis by (simp add: filter_empty_conv)
  qed
  finally show ?thesis by (simp add: posted_buffers_def window_def len comp_def)
qed

lemma clear_ring_inv:
  assumes "ring_inv c d"
  shows "ring_inv c ((clear_ring d)\<lparr>rx_dma_fifo_count := 0\<rparr>)"
    and "posted_buffers ((clear_ring d)\<lparr>rx_dma_fifo_count := 0\<rparr>) = []"
  using assms rx_cap_small [of c]
  by (auto simp: ring_inv_def clear_ring_def slots_ok_def posted_buffers_def)

lemma put_frees_inv:
  "rx_inv c W K (xs @ H) d \<Longrightarrow> rx_inv c W K H (fold put_free xs d)"
  by (induction xs arbitrary: d) (simp_all add: put_free_inv)

lemma clear_ring_pool_inv:
  assumes "rx_inv c W K H d"
  shows "rx_inv c W K (orphans d @ H) ((clear_ring d)\<lparr>rx_dma_fifo_count := 0\<rparr>)"
proof -
  have ring: "ring_inv c d" using assms by (rule rx_inv_ring)
  show ?thesis
    using assms clear_ring_inv [OF ring] bds_ok_clear [of c d 0] orphans_posted [OF ring]
    by (auto simp: rx_inv_def owned_def buffers_ok_def clear_ring_def ac_simps)
qed

lemma d_recover_inv:
  assumes "rx_inv c W K H d"
  shows "rx_inv c W K H (d_recover c d)"
proof -
  have ring: "ring_inv c d" using assms by (rule rx_inv_ring)
  have "length (orphans d) = unat (rx_bd_posted d)"
    using arg_cong [OF orphans_posted [OF ring], of size] by simp
  then have zero: "rx_dma_fifo_count (clear_ring d) - of_nat (length (orphans d)) = 0"
    using ring by (simp add: clear_ring_def ring_inv_def)
  from put_frees_inv [OF clear_ring_pool_inv [OF assms]] show ?thesis
    by (simp add: d_recover_def Let_def zero d_refill_inv)
qed

lemma d_refill_consume: "rx_bd_consume_index (d_refill c d) = rx_bd_consume_index d"
proof (induction c d rule: d_refill.induct)
  case (1 c d)
  then show ?case by (cases "rx_free_fifo d") (simp_all add: d_refill.simps [of c d])
qed

end
