(* ===== verification/RxRing.thy ===== *)
theory RxRing
  imports RxOwnership
begin

text \<open>
  What the handlers of the direct RX ring achieve: refill posts the free buffers in order
  and publishes the last one, the poll hands over the completed prefix of the ring in ring
  order, recovery rebuilds the ring from slot 0, and all of them keep every buffer
  accounted for (\<open>rx_inv\<close>).
\<close>

section \<open>Refill\<close>

definition refill_amount :: "ctx \<Rightarrow> emaczero_data \<Rightarrow> nat" where
  "refill_amount c d = min (length (rx_free_fifo d)) (rx_cap c - unat (rx_bd_posted d))"

lemma d_refill_effect:
  assumes "rx_inv c W K H d"
  shows "posted_buffers (d_refill c d) = posted_buffers d @ take (refill_amount c d) (rx_free_fifo d)"
    and "rx_free_fifo (d_refill c d) = (if refill_amount c d = length (rx_free_fifo d) then []
           else rotate1 (drop (refill_amount c d) (rx_free_fifo d)))"
proof -
  have "posted_buffers (d_refill c d) = posted_buffers d @ take (refill_amount c d) (rx_free_fifo d) \<and>
    rx_free_fifo (d_refill c d) = (if refill_amount c d = length (rx_free_fifo d) then []
           else rotate1 (drop (refill_amount c d) (rx_free_fifo d)))"
    using assms
  proof (induction c d rule: d_refill.induct)
    case (1 c d)
    note ring = rx_inv_ring [OF 1(2)]
    show ?case
    proof (cases "rx_free_fifo d")
      case Nil
      then show ?thesis by (simp add: d_refill.simps [of c d] refill_amount_def)
    next
      case (Cons rx rest)
      let ?d = "(d_post c rx (d\<lparr>rx_free_fifo := rest\<rparr>))\<lparr>rx_free_count := rx_free_count d - 1\<rparr>"
      show ?thesis
      proof (cases "can_post c d")
        case True
        then have cap: "unat (rx_bd_posted d) < rx_cap c" by (simp add: can_post_iff [OF ring])
        have ring': "ring_inv c (d\<lparr>rx_free_fifo := rest\<rparr>)" using ring by simp
        have p: "posted_buffers ?d = posted_buffers d @ [rx]"
          using d_post_inv(2) [OF ring', of rx] cap by simp
        have n: "unat (rx_bd_posted ?d) = unat (rx_bd_posted d) + 1"
          using posted_succ [OF ring cap] by simp
        have k: "refill_amount c d = Suc (refill_amount c ?d)"
          using cap n Cons by (simp add: refill_amount_def)
        show ?thesis
          using 1(1) [OF Cons True refill_round_inv [OF 1(2) Cons True]] True p k Cons
          by (simp add: d_refill.simps [of c d])
      next
        case False
        then have "refill_amount c d = 0" by (simp add: can_post_iff [OF ring] refill_amount_def)
        with False Cons show ?thesis by (simp add: d_refill.simps [of c d])
      qed
    qed
  qed
  then show "posted_buffers (d_refill c d) = posted_buffers d @ take (refill_amount c d) (rx_free_fifo d)"
    and "rx_free_fifo (d_refill c d) = (if refill_amount c d = length (rx_free_fifo d) then []
           else rotate1 (drop (refill_amount c d) (rx_free_fifo d)))" by blast+
qed

lemma refill_loop_count:
  assumes "rx_inv c W K H (dat s)"
  shows "fst (direct_refill_loop c q s) = q + int (refill_amount c (dat s))"
  using assms
proof (induction c q s rule: direct_refill_loop.induct)
  case (1 c q s)
  note ring = rx_inv_ring [OF 1(2)]
  show ?case
  proof (cases "rx_free_fifo (dat s)")
    case Nil
    then show ?thesis by (simp add: direct_refill_loop.simps [of c q s] refill_amount_def Let_def)
  next
    case (Cons rx rest)
    obtain ret s1 where p:
      "emz_rx_direct_post_one c rx (upd_dat (\<lambda>d. d\<lparr>rx_free_fifo := rest\<rparr>) s) = (ret, s1)"
      by (cases "emz_rx_direct_post_one c rx (upd_dat (\<lambda>d. d\<lparr>rx_free_fifo := rest\<rparr>) s)")
    note dat1 = post_one_dat [OF p, simplified]
    show ?thesis
    proof (cases "can_post c (dat s)")
      case True
      then have cap: "unat (rx_bd_posted (dat s)) < rx_cap c" by (simp add: can_post_iff [OF ring])
      have d: "ret = 1" "dat (note_posted c s1) =
          (d_post c rx ((dat s)\<lparr>rx_free_fifo := rest\<rparr>))\<lparr>rx_free_count := rx_free_count (dat s) - 1\<rparr>"
        using dat1 True by simp_all
      have "refill_amount c (dat s) = Suc (refill_amount c (dat (note_posted c s1)))"
        using cap posted_succ [OF ring cap] Cons d(2) by (simp add: refill_amount_def)
      then show ?thesis
        using 1(1) [OF Cons p [symmetric]] refill_round_inv [OF 1(2) Cons True] d p Cons
        by (simp add: direct_refill_loop.simps [of c q s])
    next
      case False
      then have "refill_amount c (dat s) = 0" by (simp add: can_post_iff [OF ring] refill_amount_def)
      with False dat1 p Cons show ?thesis by (simp add: direct_refill_loop.simps [of c q s])
    qed
  qed
qed

lemma update_tail_trace:
  "rx_direct_ring_started (dat s) \<Longrightarrow> tr (emz_rx_direct_update_tail c s) =
     Mmio_write (cfg_dma_base (cfg c) + EMZ_AXI_DMA_REG_S2MM_TAILDESC)
       (rx_bd_addr (dat s) (rx_bd_tail_index (dat s))) # Dmem_fence # tr s"
  by (simp add: emz_rx_direct_update_tail_def emz_dma_write_def Let_def)

lemma tail_is_last_posted:
  assumes "rx_inv c W K H d" and "posted_buffers d \<noteq> []"
  shows "rx_bd_buffer d ! rx_bd_tail_index d = Some (last (posted_buffers d))"
proof -
  have ring: "ring_inv c d" using assms(1) by (rule rx_inv_ring)
  then have k: "kconfig_ok (kc c)" by (simp add: ring_inv_def)
  note cap = rx_cap_small [OF k]
  obtain n where n: "unat (rx_bd_posted d) = Suc n"
    using assms(2) length_posted [of d] by (cases "unat (rx_bd_posted d)") (simp_all del: length_posted)
  then have pos: "0 < rx_bd_posted d" by (simp add: word_less_nat_alt)
  have t: "rx_bd_tail_index d = (rx_bd_consume_index d + n) mod rx_count c"
    using ring pos n by (simp add: ring_inv_def)
  have "n < rx_count c" using ring n cap by (simp add: ring_inv_def)
  then have "rx_bd_buffer d ! rx_bd_tail_index d \<noteq> None"
    using ring_inv_slots [OF ring] n t by simp
  moreover have "last (posted_buffers d) = the (rx_bd_buffer d ! rx_bd_tail_index d)"
    using ring n t by (simp add: posted_buffers_def window_def ring_inv_def)
  ultimately show ?thesis by simp
qed

text \<open>
  C5: refilling the direct ring posts as many free buffers as there is room for, oldest
  free buffer first, behind those already posted; if any was posted on a running ring, the
  last thing it does to the hardware is a barrier and the write of TAILDESC with the
  descriptor of the last posted buffer.
\<close>
theorem refill_posts_in_order:
  assumes inv: "rx_inv c W K H (dat s)" and run: "emz_rx_direct_refill c s = (queued, s')"
  shows "queued = int (refill_amount c (dat s))
    \<and> posted_buffers (dat s') = posted_buffers (dat s) @ take (refill_amount c (dat s)) (rx_free_fifo (dat s))
    \<and> rx_inv c W K H (dat s')
    \<and> (0 < queued \<and> rx_direct_ring_started (dat s') \<longrightarrow>
        (\<exists>t. tr s' = Mmio_write (cfg_dma_base (cfg c) + EMZ_AXI_DMA_REG_S2MM_TAILDESC)
                  (rx_bd_addr (dat s') (rx_bd_tail_index (dat s'))) # Dmem_fence # t)
        \<and> rx_bd_buffer (dat s') ! rx_bd_tail_index (dat s') = Some (last (posted_buffers (dat s'))))"
proof -
  obtain s1 where l: "direct_refill_loop c 0 s = (queued, s1)"
    and s': "s' = (if queued > 0 then emz_rx_direct_update_tail c s1 else s1)"
    using run by (auto simp: emz_rx_direct_refill_def split: prod.splits)
  have q: "queued = int (refill_amount c (dat s))" using refill_loop_count [OF inv, of 0] l by simp
  have d: "dat s' = d_refill c (dat s)" using direct_refill_dat [of c s] run by simp
  have inv': "rx_inv c W K H (dat s')" using d_refill_inv [OF inv] d by simp
  have posted: "posted_buffers (dat s') =
      posted_buffers (dat s) @ take (refill_amount c (dat s)) (rx_free_fifo (dat s))"
    using d_refill_effect(1) [OF inv] d by simp
  have "posted_buffers (dat s') \<noteq> []" if "0 < queued"
    using that q posted by (auto simp: refill_amount_def)
  then show ?thesis
    using q posted inv' tail_is_last_posted [OF inv'] s' update_tail_trace [of s1 c]
    by (cases "0 < queued") auto
qed

section \<open>The handlers keep every buffer accounted for\<close>

lemma poll_dispatch_inv:
  assumes "emz_rx_direct_enabled c" and "rx_inv c W K (rx # H) (dat s)"
  shows "rx_inv c W K H (dat (poll_dispatch c rx status s))"
proof -
  obtain now where "dat (poll_dispatch c rx status s) = d_release c rx (d_result c rx status now (dat s))
     \<or> dat (poll_dispatch c rx status s) = d_enqueue rx (d_result c rx status now (dat s))"
    using poll_dispatch_dat [OF assms(1)] by blast
  then show ?thesis
    using d_release_inv [OF d_result_inv [OF assms(2)]] d_enqueue_inv [OF d_result_inv [OF assms(2)]]
    by metis
qed

lemma poll_take_Some_inv:
  assumes "rx_inv c W K H (dat s)" and "poll_take c s = (Some (rx, status), s1)"
  shows "rx_inv c W K (rx # H) (dat s1)"
  using poll_take_Some [OF assms(2)] d_retire_pool_inv [OF assms(1)] by simp

lemma poll_take_None_inv:
  assumes "rx_inv c W K H (dat s)" and "poll_take c s = (None, s1)"
  shows "rx_inv c W K H (dat s1)"
  using poll_take_None [OF assms(2)] assms(1) by auto

lemma poll_loop_inv:
  assumes "emz_rx_direct_enabled c" and "rx_inv c W K H (dat s)"
  shows "rx_inv c W K H (dat (snd (poll_loop c q s)))"
  using assms
proof (induction c q s rule: poll_loop.induct)
  case (1 c q s)
  show ?case
  proof (cases "poll_take c s")
    case (Pair x s1)
    show ?thesis
    proof (cases x)
      case None
      then show ?thesis
        using Pair 1(3) poll_take_None_inv [OF 1(3)] by (simp add: poll_loop.simps [of c q s])
    next
      case (Some p)
      obtain rx status where p: "p = (rx, status)" by (cases p)
      note t = Pair [unfolded Some p]
      have "rx_inv c W K H (dat (poll_dispatch c rx status s1))"
        using poll_dispatch_inv [OF 1(2)] poll_take_Some_inv [OF 1(3) t] by blast
      then show ?thesis
        using 1(1) [OF _ t [symmetric] refl refl 1(2)] t 1(3)
        by (simp add: poll_loop.simps [of c q s])
    qed
  qed
qed

lemma poll_inv:
  assumes "emz_rx_direct_enabled c" and "rx_inv c W K H (dat s)"
  shows "rx_inv c W K H (dat (emz_rx_direct_poll c s))"
  using poll_loop_inv [OF assms, of 0] assms(1)
  by (cases "poll_loop c 0 s") (simp add: emz_rx_direct_poll_def Let_def d_refill_inv)

lemma isr_ack_inv: "rx_inv c W K H (dat (isr_ack c now s)) = rx_inv c W K H (dat s)"
  by (simp add: isr_ack_def Let_def emz_dma_write_def request_recover_dat)

lemma isr_inv:
  assumes "emz_rx_direct_enabled c" and "rx_inv c W K H (dat s)"
  shows "rx_inv c W K H (dat (emz_rx_direct_isr c s))"
  using poll_inv [OF assms(1)] assms(2) by (simp add: emz_rx_direct_isr_def Let_def isr_ack_inv)

lemma poll_work_inv:
  assumes "emz_rx_direct_enabled c" and "rx_inv c W K H (dat s)"
  shows "rx_inv c W K H (dat (emz_rx_direct_poll_work_handler c s))"
  using assms by (simp add: emz_rx_direct_poll_work_handler_def Let_def poll_inv)

lemma recover_inv:
  assumes "rx_inv c W K H (dat s)"
  shows "rx_inv c W K H (dat (emz_rx_direct_recover c s))"
  using d_recover_inv [OF assms] by (simp add: recover_dat)

section \<open>Recovery\<close>

text \<open>
  C4: recovery rebuilds the ring from slot 0. Whatever the engine left in the ring, the
  buffers it held go back to the free list behind those already free, the ring is filled
  from there, the request flag is cleared, the ring runs, and no buffer is lost.
\<close>
theorem recover_rebuilds:
  assumes inv: "rx_inv c W K H (dat s)"
  defines "s' \<equiv> emz_rx_direct_recover c s"
  shows "rx_bd_consume_index (dat s') = 0
    \<and> posted_buffers (dat s') = take (rx_cap c) (rx_free_fifo (dat s) @ orphans (dat s))
    \<and> mset (orphans (dat s)) = mset (posted_buffers (dat s))
    \<and> rx_direct_ring_started (dat s') \<and> \<not> rx_direct_recover_pending (dat s')
    \<and> rx_inv c W K H (dat s')"
proof -
  let ?d = "dat s" let ?o = "orphans (dat s)"
  define e where "e = fold put_free ?o ((clear_ring ?d)\<lparr>rx_dma_fifo_count :=
    rx_dma_fifo_count ?d - of_nat (length ?o)\<rparr>)"
  note ring = rx_inv_ring [OF inv]
  have fold_sel: "rx_free_fifo (fold put_free xs d) = rx_free_fifo d @ xs"
    "rx_bd_posted (fold put_free xs d) = rx_bd_posted d"
    "rx_bd_consume_index (fold put_free xs d) = rx_bd_consume_index d"
    "rx_bd_buffer (fold put_free xs d) = rx_bd_buffer d" for xs d
    by (induction xs arbitrary: d) (simp_all add: put_free_def)
  have e_sel: "rx_free_fifo e = rx_free_fifo ?d @ ?o" "rx_bd_posted e = 0"
    "rx_bd_consume_index e = 0" "posted_buffers e = []"
    by (simp_all add: e_def fold_sel clear_ring_def posted_buffers_def)
  have zero: "rx_dma_fifo_count ?d - of_nat (length ?o) = 0"
    using arg_cong [OF orphans_posted [OF ring], of size] ring by (simp add: ring_inv_def)
  have "rx_inv c W K (?o @ H) ((clear_ring ?d)\<lparr>rx_dma_fifo_count := 0\<rparr>)"
    by (rule clear_ring_pool_inv [OF inv])
  then have einv: "rx_inv c W K H e" unfolding e_def zero by (rule put_frees_inv)
  have amount: "take (refill_amount c e) (rx_free_fifo e) = take (rx_cap c) (rx_free_fifo e)"
    by (simp add: refill_amount_def e_sel min_def)
  have consume: "rx_bd_consume_index (d_refill c x) = rx_bd_consume_index x" for x
    by (rule d_refill_consume)
  have s': "dat s' = (d_refill c e)\<lparr>rx_direct_ring_started := True, rx_direct_recover_pending := False\<rparr>"
    by (simp add: s'_def recover_dat d_recover_def Let_def e_def clear_ring_def)
  have posted': "posted_buffers (x\<lparr>rx_direct_ring_started := a, rx_direct_recover_pending := b\<rparr>)
      = posted_buffers x" for x a b
    by (simp add: posted_buffers_def)
  show ?thesis
    using d_refill_effect(1) [OF einv] amount consume [of e] e_sel orphans_posted [OF ring]
      d_refill_inv [OF einv]
    by (simp add: s' posted')
qed

section \<open>The poll delivers the completed prefix\<close>

text \<open>The posted descriptors in ring order, and how many of them are completed from the front.\<close>

definition posted_bds :: "emaczero_data \<Rightarrow> emaczero_rx_bd list" where
  "posted_bds d = window (rx_bd_consume_index d) (unat (rx_bd_posted d)) (rx_bd_ring d)"

definition done_prefix :: "emaczero_data \<Rightarrow> nat" where
  "done_prefix d = length (takeWhile (\<lambda>b. bd_done (bd_status b)) (posted_bds d))"

lemma done_prefix_0: "unat (rx_bd_posted d) = 0 \<Longrightarrow> done_prefix d = 0"
  by (simp add: done_prefix_def posted_bds_def)

lemma done_prefix_le: "done_prefix d \<le> unat (rx_bd_posted d)"
  using length_takeWhile_le [of _ "posted_bds d"] by (simp add: done_prefix_def posted_bds_def)

lemma posted_bds_retire:
  assumes "ring_inv c d" and "posted_buffers d \<noteq> []"
  shows "posted_bds d = rx_bd_ring d ! rx_bd_consume_index d # posted_bds (d_retire c d)"
proof -
  let ?h = "rx_bd_consume_index d"
  obtain n where n: "unat (rx_bd_posted d) = n + 1"
    using assms(2) length_posted [of d] by (cases "unat (rx_bd_posted d)") (simp_all del: length_posted)
  note inv = assms(1) [unfolded ring_inv_def]
  have k: "kconfig_ok (kc c)" using inv by simp
  have h: "?h < length (rx_bd_ring d)" and nl: "n < length (rx_bd_ring d)"
    using inv n rx_cap_small [OF k] by simp_all
  have p1: "unat (rx_bd_posted d - 1) = n" using unat_pred_word [of "rx_bd_posted d"] n by simp
  show ?thesis
    using window_pop [OF h nl, of "(rx_bd_ring d ! ?h)\<lparr>bd_status := 0\<rparr>"] inv
    by (simp add: posted_bds_def n d_retire_def Let_def p1)
qed

lemma done_prefix_retire:
  assumes "ring_inv c d" and "posted_buffers d \<noteq> []"
  shows "done_prefix d = (if bd_done (bd_status (rx_bd_ring d ! rx_bd_consume_index d))
    then Suc (done_prefix (d_retire c d)) else 0)"
  using posted_bds_retire [OF assms] by (simp add: done_prefix_def)

text \<open>
  The configuration of normal traffic: no interceptor and no profile mode that drops
  frames at this point.
\<close>

definition keeps_all :: "ctx \<Rightarrow> emz \<Rightarrow> bool" where
  "keeps_all c s \<longleftrightarrow> rx_interceptor (dat s) = None \<and>
     (cfg_profile (kc c) \<longrightarrow>
       emaczero_profile_get_mode (prof (aux s)) \<noteq> EMACZERO_PROFILE_MODE_DROP_AFTER_DMA)"

lemma prof_frame [simp]:
  "prof (aux (upd_perf g s)) = prof (aux s)"
  "prof (aux (tick s)) = prof (aux s)"
  "prof (aux (r7_since c slot start s)) = prof (aux s)"
  "prof (aux (emz_r7_note_lock c s)) = prof (aux s)"
  "prof (aux (emz_perf_update_pool_inflight c s)) = prof (aux s)"
  "prof (aux (emz_perf_set_bd_available c s)) = prof (aux s)"
  "prof_mode (prof (aux (note_completed c e s))) = prof_mode (prof (aux s))"
  by (simp_all add: upd_perf_def tick_def r7_since_def emz_r7_note_lock_def note_completed_def
      emz_perf_update_pool_inflight_def emz_perf_set_bd_available_def Let_def
      upd_prof_def emaczero_profile_counter_def)

lemma poll_take_keeps:
  "poll_take c s = (Some p, s1) \<Longrightarrow> keeps_all c s \<Longrightarrow> keeps_all c s1"
  by (auto simp: poll_take_def keeps_all_def Let_def split: if_splits option.splits)

lemma poll_mark_keeps:
  "keeps_all c (poll_mark c rx status s) = keeps_all c s"
  by (simp add: poll_mark_def keeps_all_def Let_def upd_rx_def)

lemma poll_dispatch_keeps:
  assumes "keeps_all c s"
  shows "keeps_all c (poll_dispatch c rx status s)"
    and "\<exists>now. dat (poll_dispatch c rx status s) = d_enqueue rx (d_result c rx status now (dat s))"
proof -
  let ?s = "poll_mark c rx status s"
  let ?b = "rx_buffer (dat ?s) ! rx"
  have k: "keeps_all c ?s" using assms by (simp add: poll_mark_keeps)
  then have "(if rxb_status ?b = 0 then run_interceptor (rx_interceptor (dat ?s)) ?b ?s
      else (False, ?s)) = (False, ?s)" by (simp add: keeps_all_def run_interceptor_def)
  then have d: "poll_dispatch c rx status s = poll_keep c rx ?b ?s"
    by (simp add: poll_dispatch_def Let_def)
  have "\<not> drop_after_dma c ?b x" if "keeps_all c x" for x
    using that by (auto simp: drop_after_dma_def keeps_all_def)
  moreover have "keeps_all c (upd_dat (upd_rx rx f) (tick ?s))" for f
    using k by (simp add: keeps_all_def upd_rx_def)
  ultimately have n: "\<not> drop_after_dma c ?b (if cfg_profile (kc c)
      then upd_dat (upd_rx rx f) (tick ?s) else ?s)" for f
    using k by simp
  show "keeps_all c (poll_dispatch c rx status s)"
    using n k unfolding d poll_keep_def Let_def
    by (cases "cfg_profile (kc c)") (auto simp: keeps_all_def upd_rx_def emaczero_profile_get_mode_def)
  have r: "upd_rx rx (\<lambda>b. b\<lparr>rxb_dma_done_cycle := t\<rparr>) (d_result c rx status None (dat s))
      = d_result c rx status (Some t) (dat s)" for t
    by (simp add: d_result_def upd_rx_upd_rx comp_def Let_def)
  show "\<exists>now. dat (poll_dispatch c rx status s) = d_enqueue rx (d_result c rx status now (dat s))"
    using n unfolding d poll_keep_def Let_def
    by (cases "cfg_profile (kc c)") (auto simp: poll_mark_dat r d_enqueue_def)
qed

lemma enqueue_result_sel:
  "rx_ready_fifo (d_enqueue rx (d_result c rx' st now d)) = rx_ready_fifo d @ [rx]"
  "rx_free_fifo (d_enqueue rx (d_result c rx' st now d)) = rx_free_fifo d"
  "posted_buffers (d_enqueue rx (d_result c rx' st now d)) = posted_buffers d"
  "done_prefix (d_enqueue rx (d_result c rx' st now d)) = done_prefix d"
  by (simp_all add: d_enqueue_def d_result_def upd_rx_def posted_buffers_def done_prefix_def posted_bds_def)

lemma poll_loop_delivers:
  assumes "emz_rx_direct_enabled c" and "rx_inv c W K H (dat s)" and "keeps_all c s"
    and "poll_loop c q s = (completed, s')"
  shows "completed = q + of_nat (done_prefix (dat s))
    \<and> rx_ready_fifo (dat s') = rx_ready_fifo (dat s) @ take (done_prefix (dat s)) (posted_buffers (dat s))
    \<and> posted_buffers (dat s') = drop (done_prefix (dat s)) (posted_buffers (dat s))
    \<and> rx_free_fifo (dat s') = rx_free_fifo (dat s)"
  using assms
proof (induction c q s arbitrary: completed s' rule: poll_loop.induct)
  case (1 c q s)
  note inv = 1(3) and ring = rx_inv_ring [OF 1(3)]
  have idx: "rx_bd_consume_index (dat s) < length (rx_bd_ring (dat s))"
    using ring by (simp add: ring_inv_def)
  obtain x s1 where x: "poll_take c s = (x, s1)" by (cases "poll_take c s")
  have some: "rx_bd_buffer (dat s) ! rx_bd_consume_index (dat s) \<noteq> None \<longleftrightarrow> posted_buffers (dat s) \<noteq> []"
    using ring_inv_first [OF ring] length_posted [of "dat s"]
    by (metis length_greater_0_conv)
  show ?case
  proof (cases x)
    case None
    have stop: "posted_buffers (dat s) = [] \<or> \<not> bd_done (bd_status (rx_bd_ring (dat s) ! rx_bd_consume_index (dat s)))"
      using x None some by (auto simp: poll_take_def Let_def split: if_splits option.splits)
    have "done_prefix (dat s) = 0"
    proof (cases "posted_buffers (dat s) = []")
      case True
      then show ?thesis using length_posted [of "dat s"] by (simp add: done_prefix_0)
    next
      case False
      then show ?thesis using stop done_prefix_retire [OF ring] by simp
    qed
    moreover have "rx_ready_fifo (dat s1) = rx_ready_fifo (dat s)"
      "posted_buffers (dat s1) = posted_buffers (dat s)" "rx_free_fifo (dat s1) = rx_free_fifo (dat s)"
      using poll_take_None [of c s s1] x None by (auto simp: posted_buffers_def)
    ultimately show ?thesis
      using 1(5) x None idx by (simp add: poll_loop.simps [of c q s])
  next
    case (Some p)
    obtain rx status where p: "p = (rx, status)" by (cases p)
    note t = x [unfolded Some p]
    note ts = poll_take_Some [OF t]
    have ne: "posted_buffers (dat s) \<noteq> []" using ts some by simp
    have dp: "done_prefix (dat s) = Suc (done_prefix (d_retire c (dat s)))"
      using done_prefix_retire [OF ring ne] ts by metis
    have pb: "posted_buffers (dat s) = rx # posted_buffers (d_retire c (dat s))"
      using d_retire_inv(2) [OF ring ne] ts by simp
    have k1: "keeps_all c s1" by (rule poll_take_keeps [OF x [unfolded Some] 1(4)])
    obtain now where disp: "dat (poll_dispatch c rx status s1) =
        d_enqueue rx (d_result c rx status now (d_retire c (dat s)))"
      using poll_dispatch_keeps(2) [OF k1] ts by metis
    have inv2: "rx_inv c W K H (dat (poll_dispatch c rx status s1))"
      using poll_dispatch_inv [OF 1(2)] poll_take_Some_inv [OF inv t] by blast
    have loop: "poll_loop c (q + 1) (poll_dispatch c rx status s1) = (completed, s')"
      using 1(5) t idx by (simp add: poll_loop.simps [of c q s])
    show ?thesis
      using 1(1) [OF idx t [symmetric] refl refl 1(2) inv2 poll_dispatch_keeps(1) [OF k1] loop]
      by (simp add: disp enqueue_result_sel dp pb)
  qed
qed


end
