(* ===== verification/Frames.thy ===== *)
theory Frames
  imports EmzState
begin

text \<open>
  How \<^verbatim>\<open>drivers/ethernet/eth_emaczero.c\<close> looks into frames: the sampling helpers, the
  capture of the 64 bytes handed over, the ICMP notes and the classification of received
  frames. A frame is its buffer and a length; a read outside the buffer makes the result
  \<open>None\<close>, so that a result \<open>Some\<close> says the code stayed inside.
\<close>

section \<open>Sampling\<close>

definition emz_sample_be16 :: "u8 list \<Rightarrow> nat \<Rightarrow> nat \<Rightarrow> u16 option" where
  "emz_sample_be16 bytes len offset =
     (if len \<le> offset + 1 then Some 0 else rd16 bytes offset)"

definition emz_sample_be32 :: "u8 list \<Rightarrow> nat \<Rightarrow> nat \<Rightarrow> u32 option" where
  "emz_sample_be32 bytes len offset =
     (if len \<le> offset + 3 then Some 0
      else do {
        a \<leftarrow> rd8 bytes offset; b \<leftarrow> rd8 bytes (offset + 1);
        c \<leftarrow> rd8 bytes (offset + 2); d \<leftarrow> rd8 bytes (offset + 3);
        Some (of_be32 a b c d)
      })"

text \<open>\<^verbatim>\<open>emz_sample_word\<close>: the loop over \<open>i = 0..3\<close>, little endian, bytes past \<open>len\<close> are 0.\<close>

fun sample_word_loop :: "u8 list \<Rightarrow> nat \<Rightarrow> nat \<Rightarrow> nat list \<Rightarrow> u32 \<Rightarrow> u32 option" where
  "sample_word_loop bytes len offset [] word = Some word"
| "sample_word_loop bytes len offset (i # is) word =
     (if offset + i < len then do {
        b \<leftarrow> rd8 bytes (offset + i);
        sample_word_loop bytes len offset is (word OR push_bit (i * 8) (ucast b))
      } else sample_word_loop bytes len offset is word)"

definition emz_sample_word :: "u8 list \<Rightarrow> nat \<Rightarrow> nat \<Rightarrow> u32 option" where
  "emz_sample_word bytes len offset = sample_word_loop bytes len offset [0, 1, 2, 3] 0"

text \<open>What they compute on a buffer that holds the frame.\<close>

definition frame_byte :: "u8 list \<Rightarrow> nat \<Rightarrow> nat \<Rightarrow> u8" where
  "frame_byte bytes len i = (if i < len then bytes ! i else 0)"

lemma sample_be16_Some [simp]:
  "len \<le> length bytes \<Longrightarrow> emz_sample_be16 bytes len off =
     Some (if off + 1 < len then of_be16 (bytes ! off) (bytes ! (off + 1)) else 0)"
  by (simp add: emz_sample_be16_def)

lemma sample_be32_Some [simp]:
  "len \<le> length bytes \<Longrightarrow> emz_sample_be32 bytes len off =
     Some (if off + 3 < len then of_be32 (bytes ! off) (bytes ! (off + 1)) (bytes ! (off + 2))
       (bytes ! (off + 3)) else 0)"
  by (simp add: emz_sample_be32_def)

lemma sample_word_Some:
  assumes "len \<le> length bytes"
  shows "emz_sample_word bytes len off = Some (of_be32 (frame_byte bytes len (off + 3))
    (frame_byte bytes len (off + 2)) (frame_byte bytes len (off + 1)) (frame_byte bytes len off))"
  using assms
  by (auto simp: emz_sample_word_def frame_byte_def of_be32_def ac_simps)

section \<open>Captured words\<close>

text \<open>
  The code stores consecutive sample words into consecutive statistics words:
  \<open>store_words f n\<close> is \<open>f 0 := word 0\<close>, \<open>f 1 := word 4\<close>, up to \<open>n\<close> words.
\<close>

fun store_words :: "(nat \<Rightarrow> stat32) \<Rightarrow> u8 list \<Rightarrow> nat \<Rightarrow> nat list \<Rightarrow> perf_stats \<Rightarrow> perf_stats option" where
  "store_words f bytes len [] p = Some p"
| "store_words f bytes len (i # is) p = do {
     w \<leftarrow> emz_sample_word bytes len (i * 4);
     store_words f bytes len is (set32 (f i) w p)
   }"

lemma store_words_Some: "len \<le> length bytes \<Longrightarrow> \<exists>p'. store_words f bytes len is p = Some p'"
  by (induction "is" arbitrary: p) (simp_all add: sample_word_Some)

lemma store_words_p64: "store_words f bytes len is p = Some p' \<Longrightarrow> p64 p' = p64 p"
  by (induction "is" arbitrary: p) (auto split: Option.bind_splits)

text \<open>The 64-byte captures of both directions: length, then 16 words.\<close>

definition capture_ext :: "stat32 \<Rightarrow> (nat \<Rightarrow> stat32) \<Rightarrow> u8 list \<Rightarrow> nat \<Rightarrow> perf_stats \<Rightarrow> perf_stats option" where
  "capture_ext len_field word bytes len p =
     store_words word bytes len [0..<16] (set32 len_field (of_nat len) p)"

lemma capture_ext_Some: "len \<le> length bytes \<Longrightarrow> \<exists>p'. capture_ext lf w bytes len p = Some p'"
  by (simp add: capture_ext_def store_words_Some)

section \<open>Notes on frames\<close>

definition EMZ_ETH_TYPE_IPV4 :: u16 where "EMZ_ETH_TYPE_IPV4 = 0x0800"
definition EMZ_ETH_TYPE_ARP :: u16 where "EMZ_ETH_TYPE_ARP = 0x0806"
definition EMZ_IP_PROTO_ICMP :: u8 where "EMZ_IP_PROTO_ICMP = 1"
definition EMZ_IP_PROTO_UDP :: u8 where "EMZ_IP_PROTO_UDP = 17"

definition emz_note_tx_icmp :: "u8 list \<Rightarrow> nat \<Rightarrow> perf_stats \<Rightarrow> perf_stats option" where
  "emz_note_tx_icmp frame len p =
     (if len < 42 then Some p
      else do {
        eth_type \<leftarrow> emz_sample_be16 frame len 12;
        if eth_type \<noteq> EMZ_ETH_TYPE_IPV4 then Some p
        else do {
          vihl \<leftarrow> rd8 frame 14;
          if drop_bit 4 vihl \<noteq> 4 then Some p
          else do {
            let ihl = unat (vihl AND 0x0f) * 4;
            let icmp = 14 + ihl;
            if ihl < 20 \<or> len < icmp + 8 then Some p
            else do {
              proto \<leftarrow> rd8 frame 23;
              if proto \<noteq> EMZ_IP_PROTO_ICMP then Some p
              else do {
                src \<leftarrow> emz_sample_be32 frame len 26;
                dst \<leftarrow> emz_sample_be32 frame len 30;
                ident \<leftarrow> emz_sample_be16 frame len (icmp + 4);
                seq \<leftarrow> emz_sample_be16 frame len (icmp + 6);
                Some (set32 Tx_last_icmp_seq (ucast seq) (set32 Tx_last_icmp_id (ucast ident)
                  (set32 Tx_last_icmp_dst dst (set32 Tx_last_icmp_src src p))))
              }
            }
          }
        }
      })"

definition emz_note_bad_sample :: "emaczero_rx_buffer \<Rightarrow> perf_stats \<Rightarrow> perf_stats option" where
  "emz_note_bad_sample rx p =
     (if p32 p Rx_bad_sample_seen \<noteq> 0 then Some p
      else
        let p = set32 Rx_bad_sample_seen 1 p;
            p = set32 Rx_bad_sample_len (rxb_len rx) p;
            p = set32 Rx_bad_sample_status (word_of_int (rxb_status rx)) p
        in store_words Rx_bad_sample_word (rxb_bytes rx) (unat (rxb_len rx)) [0, 1, 2, 3] p)"

definition emz_note_good_sample :: "emaczero_rx_buffer \<Rightarrow> perf_stats \<Rightarrow> perf_stats option" where
  "emz_note_good_sample rx p =
     (if p32 p Rx_good_sample_seen \<noteq> 0 then Some p
      else
        let p = set32 Rx_good_sample_seen 1 p;
            p = set32 Rx_good_sample_len (rxb_len rx) p
        in store_words Rx_good_sample_word (rxb_bytes rx) (unat (rxb_len rx)) [0, 1, 2, 3] p)"

definition emz_note_last_sample :: "emaczero_rx_buffer \<Rightarrow> perf_stats \<Rightarrow> perf_stats option" where
  "emz_note_last_sample rx p =
     (let p = set32 Rx_last_sample_len (rxb_len rx) p;
          p = set32 Rx_last_sample_status (word_of_int (rxb_status rx)) p
      in store_words Rx_last_sample_word (rxb_bytes rx) (unat (rxb_len rx)) [0..<8] p)"

text \<open>
  \<^verbatim>\<open>emz_note_rx_pre_stack\<close>, in two parts: the destination address, then the type and the
  protocol headers. \<open>rd_range\<close> reads the address bytes.
\<close>

definition rd_range :: "u8 list \<Rightarrow> nat \<Rightarrow> nat \<Rightarrow> u8 list option" where
  "rd_range b off n = (if off + n \<le> length b then Some (take n (drop off b)) else None)"

definition note_destination :: "u8 list \<Rightarrow> emaczero_rx_buffer \<Rightarrow> perf_stats \<Rightarrow> perf_stats option" where
  "note_destination my_mac rx p = do {
     dst \<leftarrow> rd_range (rxb_bytes rx) 0 6;
     let broadcast = (dst = replicate 6 0xff);
     let multicast = (hd dst AND 0x01 \<noteq> 0);
     let dst_me = (dst = my_mac);
     if dst_me then Some (inc32 Rx_pre_dst_me p)
     else if broadcast then Some (inc32 Rx_pre_dst_broadcast p)
     else if multicast then Some (inc32 Rx_pre_dst_multicast p)
     else emz_note_bad_sample rx (inc32 Rx_pre_dst_other p)
   }"

definition note_icmp :: "emaczero_rx_buffer \<Rightarrow> nat \<Rightarrow> perf_stats \<Rightarrow> perf_stats option" where
  "note_icmp rx icmp_offset p =
     (let frame = rxb_bytes rx; len = unat (rxb_len rx)
      in if icmp_offset + 8 \<le> len then do {
           src \<leftarrow> emz_sample_be32 frame len 26;
           dst \<leftarrow> emz_sample_be32 frame len 30;
           ident \<leftarrow> emz_sample_be16 frame len (icmp_offset + 4);
           seq \<leftarrow> emz_sample_be16 frame len (icmp_offset + 6);
           Some (set32 Rx_last_icmp_seq (ucast seq) (set32 Rx_last_icmp_id (ucast ident)
             (set32 Rx_last_icmp_dst dst (set32 Rx_last_icmp_src src p))))
         } else Some p)"

definition note_headers :: "emaczero_rx_buffer \<Rightarrow> perf_stats \<Rightarrow> perf_stats option" where
  "note_headers rx p =
     (let frame = rxb_bytes rx; len = unat (rxb_len rx)
      in do {
        eth_type \<leftarrow> rd16 frame 12;
        if eth_type = EMZ_ETH_TYPE_ARP then Some (inc32 Rx_pre_type_arp p)
        else if eth_type \<noteq> EMZ_ETH_TYPE_IPV4 then emz_note_bad_sample rx (inc32 Rx_pre_type_other p)
        else do {
          let p = inc32 Rx_pre_type_ipv4 p;
          if len < 34 then emz_note_bad_sample rx (inc32 Rx_pre_ipv4_bad p)
          else do {
            vihl \<leftarrow> rd8 frame 14;
            if drop_bit 4 vihl \<noteq> 4 \<or> vihl AND 0x0f < 5
            then emz_note_bad_sample rx (inc32 Rx_pre_ipv4_bad p)
            else do {
              let ip_header_len = unat (vihl AND 0x0f) * 4;
              proto \<leftarrow> rd8 frame 23;
              if proto = EMZ_IP_PROTO_ICMP then note_icmp rx (14 + ip_header_len) p
              else if proto \<noteq> EMZ_IP_PROTO_UDP then Some p
              else do {
                let p = inc32 Rx_pre_ipv4_udp p;
                let udp_offset = 14 + ip_header_len;
                if len < udp_offset + 8 then emz_note_bad_sample rx (inc32 Rx_pre_udp_bad_len p)
                else emz_note_good_sample rx p
              }
            }
          }
        }
      })"

definition emz_note_rx_pre_stack :: "u8 list \<Rightarrow> emaczero_rx_buffer \<Rightarrow> perf_stats \<Rightarrow> perf_stats option" where
  "emz_note_rx_pre_stack my_mac rx p = do {
     p \<leftarrow> emz_note_last_sample rx p;
     if unat (rxb_len rx) < 14 then emz_note_bad_sample rx (inc32 Rx_pre_type_other p)
     else do { p \<leftarrow> note_destination my_mac rx p; note_headers rx p }
   }"

section \<open>No read outside the frame\<close>

lemma note_sample_Some [simp]:
  assumes "unat (rxb_len rx) \<le> length (rxb_bytes rx)"
  shows "\<exists>p'. emz_note_bad_sample rx p = Some p'" and "\<exists>p'. emz_note_good_sample rx p = Some p'"
    and "\<exists>p'. emz_note_last_sample rx p = Some p'"
  using assms
  by (auto simp: emz_note_bad_sample_def emz_note_good_sample_def emz_note_last_sample_def Let_def
      store_words_Some sample_word_Some)

lemma note_destination_Some:
  assumes "unat (rxb_len rx) \<le> length (rxb_bytes rx)" and "14 \<le> unat (rxb_len rx)"
  shows "\<exists>p'. note_destination my_mac rx p = Some p'"
  using assms by (auto simp: note_destination_def rd_range_def Let_def)

lemma note_headers_Some:
  assumes "unat (rxb_len rx) \<le> length (rxb_bytes rx)" and "14 \<le> unat (rxb_len rx)"
  shows "\<exists>p'. note_headers rx p = Some p'"
  using assms by (auto simp: note_headers_def note_icmp_def Let_def)

lemma frame_notes_Some:
  assumes "unat (rxb_len rx) \<le> length (rxb_bytes rx)"
  shows "\<exists>p'. emz_note_rx_pre_stack my_mac rx p = Some p'"
proof -
  obtain p1 where p1: "emz_note_last_sample rx p = Some p1"
    using note_sample_Some(3) [OF assms] by blast
  show ?thesis
  proof (cases "unat (rxb_len rx) < 14")
    case True
    then show ?thesis using p1 assms by (simp add: emz_note_rx_pre_stack_def)
  next
    case False
    then obtain p2 where "note_destination my_mac rx p1 = Some p2"
      using note_destination_Some [OF assms] by fastforce
    then show ?thesis
      using False p1 note_headers_Some [OF assms] by (simp add: emz_note_rx_pre_stack_def)
  qed
qed

lemma note_tx_icmp_Some:
  "len \<le> length frame \<Longrightarrow> \<exists>p'. emz_note_tx_icmp frame len p = Some p'"
  by (auto simp: emz_note_tx_icmp_def Let_def)

text \<open>
  C35: looking into a frame never reads outside it, whatever the length and the header
  fields say: classifying a received frame, noting a sent ICMP packet and capturing the
  first 64 bytes stay inside any buffer that holds the frame.
\<close>
theorem frame_notes_in_bounds:
  assumes "unat (rxb_len rx) \<le> length (rxb_bytes rx)" and "len \<le> length frame"
  shows "(\<exists>p'. emz_note_rx_pre_stack my_mac rx p = Some p')
    \<and> (\<exists>p'. emz_note_tx_icmp frame len p = Some p')
    \<and> (\<exists>p'. capture_ext lf w frame len p = Some p')"
  using frame_notes_Some [OF assms(1)] note_tx_icmp_Some [OF assms(2)] capture_ext_Some [OF assms(2)]
  by blast

section \<open>What is counted\<close>

definition dst_total :: "perf_stats \<Rightarrow> u32" where
  "dst_total p = p32 p Rx_pre_dst_me + p32 p Rx_pre_dst_broadcast + p32 p Rx_pre_dst_multicast
     + p32 p Rx_pre_dst_other"

definition type_total :: "perf_stats \<Rightarrow> u32" where
  "type_total p = p32 p Rx_pre_type_ipv4 + p32 p Rx_pre_type_arp + p32 p Rx_pre_type_other"

text \<open>The sample notes leave the classification counters alone.\<close>

definition class_fields :: "stat32 set" where
  "class_fields = {Rx_pre_dst_me, Rx_pre_dst_broadcast, Rx_pre_dst_multicast, Rx_pre_dst_other,
     Rx_pre_type_ipv4, Rx_pre_type_arp, Rx_pre_type_other, Rx_pre_ipv4_bad, Rx_pre_ipv4_udp,
     Rx_pre_udp_bad_len}"

lemma store_words_other:
  "store_words f bytes len is p = Some p' \<Longrightarrow> \<forall>i. f i \<noteq> g \<Longrightarrow> p32 p' g = p32 p g"
proof (induction "is" arbitrary: p)
  case (Cons i "is")
  then obtain w where "store_words f bytes len is (set32 (f i) w p) = Some p'"
    by (auto split: Option.bind_splits)
  moreover have "g \<noteq> f i" using Cons.prems(2) by metis
  ultimately show ?case using Cons.IH [OF _ Cons.prems(2)] by fastforce
qed simp

lemma sample_notes_keep_classes:
  assumes "g \<in> class_fields"
  shows "emz_note_bad_sample rx p = Some p' \<Longrightarrow> p32 p' g = p32 p g"
    and "emz_note_good_sample rx p = Some p' \<Longrightarrow> p32 p' g = p32 p g"
    and "emz_note_last_sample rx p = Some p' \<Longrightarrow> p32 p' g = p32 p g"
  using assms
  by (auto simp: emz_note_bad_sample_def emz_note_good_sample_def emz_note_last_sample_def Let_def
      class_fields_def split: if_splits dest!: store_words_other [where g = g] simp del: store_words.simps)

lemma totals_cong:
  assumes "\<And>g. g \<in> class_fields \<Longrightarrow> p32 p' g = p32 p g"
  shows "dst_total p' = dst_total p" and "type_total p' = type_total p"
  using assms by (simp_all add: dst_total_def type_total_def class_fields_def)

lemmas sample_totals =
  totals_cong [OF sample_notes_keep_classes(1)] totals_cong [OF sample_notes_keep_classes(2)]
  totals_cong [OF sample_notes_keep_classes(3)]

lemma inc_totals [simp]:
  "dst_total (inc32 Rx_pre_dst_me p) = dst_total p + 1"
  "dst_total (inc32 Rx_pre_dst_broadcast p) = dst_total p + 1"
  "dst_total (inc32 Rx_pre_dst_multicast p) = dst_total p + 1"
  "dst_total (inc32 Rx_pre_dst_other p) = dst_total p + 1"
  "dst_total (inc32 Rx_pre_type_other p) = dst_total p"
  "dst_total (inc32 Rx_pre_type_arp p) = dst_total p"
  "dst_total (inc32 Rx_pre_type_ipv4 p) = dst_total p"
  "dst_total (inc32 Rx_pre_ipv4_bad p) = dst_total p"
  "dst_total (inc32 Rx_pre_ipv4_udp p) = dst_total p"
  "dst_total (inc32 Rx_pre_udp_bad_len p) = dst_total p"
  "type_total (inc32 Rx_pre_dst_me p) = type_total p"
  "type_total (inc32 Rx_pre_dst_broadcast p) = type_total p"
  "type_total (inc32 Rx_pre_dst_multicast p) = type_total p"
  "type_total (inc32 Rx_pre_dst_other p) = type_total p"
  "type_total (inc32 Rx_pre_type_other p) = type_total p + 1"
  "type_total (inc32 Rx_pre_type_arp p) = type_total p + 1"
  "type_total (inc32 Rx_pre_type_ipv4 p) = type_total p + 1"
  "type_total (inc32 Rx_pre_ipv4_bad p) = type_total p"
  "type_total (inc32 Rx_pre_ipv4_udp p) = type_total p"
  "type_total (inc32 Rx_pre_udp_bad_len p) = type_total p"
  by (simp_all add: dst_total_def type_total_def)

lemma note_destination_totals:
  "note_destination my_mac rx p = Some p' \<Longrightarrow>
     dst_total p' = dst_total p + 1 \<and> type_total p' = type_total p"
  by (auto simp: note_destination_def Let_def sample_totals split: Option.bind_splits if_splits)

lemma note_icmp_totals:
  "note_icmp rx off p = Some p' \<Longrightarrow> dst_total p' = dst_total p \<and> type_total p' = type_total p"
  by (auto simp: note_icmp_def Let_def dst_total_def type_total_def split: Option.bind_splits if_splits)

lemma note_headers_totals:
  "note_headers rx p = Some p' \<Longrightarrow> dst_total p' = dst_total p \<and> type_total p' = type_total p + 1"
  by (auto simp: note_headers_def Let_def sample_totals note_icmp_totals
      split: Option.bind_splits if_splits)

text \<open>
  Classification counts every received frame exactly once by type and, when it is long
  enough to have a destination address, exactly once by destination.
\<close>
theorem classification_counts_once:
  assumes "emz_note_rx_pre_stack my_mac rx p = Some p'"
  shows "type_total p' = type_total p + 1
    \<and> dst_total p' = dst_total p + (if 14 \<le> unat (rxb_len rx) then 1 else 0)"
  using assms
  by (auto simp: emz_note_rx_pre_stack_def sample_totals note_destination_totals note_headers_totals
      split: Option.bind_splits if_splits)

end
