(* ===== verification/TxRing.thy ===== *)
theory TxRing
  imports RxRefill DmaMem RingQueue Frames
begin

text \<open>
  The transmit side of \<^verbatim>\<open>drivers/ethernet/eth_emaczero.c\<close>: the direct MM2S descriptor
  ring (start, reclaim, reserve, queue), the generic DMA API path with its callback,
  \<^verbatim>\<open>emz_send\<close>, the raw frame and the burst. \<open>tx_lock\<close> makes each of them one atomic
  operation. While the code busy-waits the engine runs: \<open>tx_engine\<close> of the environment
  rewrites the ring. The result \<open>None\<close> is an access outside a buffer or through the
  \<^verbatim>\<open>NULL\<close> ring.
\<close>

definition EMZ_AXI_DMA_REG_MM2S_DMACR :: u32 where "EMZ_AXI_DMA_REG_MM2S_DMACR = 0x00"
definition EMZ_AXI_DMA_REG_MM2S_DMASR :: u32 where "EMZ_AXI_DMA_REG_MM2S_DMASR = 0x04"
definition EMZ_AXI_DMA_REG_MM2S_CURDESC :: u32 where "EMZ_AXI_DMA_REG_MM2S_CURDESC = 0x08"
definition EMZ_AXI_DMA_REG_MM2S_TAILDESC :: u32 where "EMZ_AXI_DMA_REG_MM2S_TAILDESC = 0x10"

abbreviation tx_count :: nat where "tx_count \<equiv> EMZ_DMA_BUFFER_COUNT_TX"

definition tx_bd_addr :: "emaczero_data \<Rightarrow> nat \<Rightarrow> u32" where
  "tx_bd_addr d index = tx_bd_ring_addr d + bd_size * of_nat index"

section \<open>Start\<close>

definition emz_tx_direct_dmacr :: "kconfig \<Rightarrow> u32" where
  "emz_tx_direct_dmacr k = BIT 0 OR BIT 12 OR BIT 13 OR BIT 14 OR
     push_bit 16 (dma_interrupt_threshold k) OR push_bit 24 (dma_interrupt_timeout k)"

definition emz_tx_direct_start :: "ctx \<Rightarrow> dma_mem \<Rightarrow> emz \<Rightarrow> int \<times> dma_mem \<times> emz" where
  "emz_tx_direct_start c m s =
     (case emz_sg_mem_alloc (kc c) 64 (bd_size * of_nat tx_count) m of
        (None, m) \<Rightarrow> (- ENOMEM, m, upd_dat (\<lambda>d. d\<lparr>tx_bd_ring := None\<rparr>) s)
      | (Some base, m) \<Rightarrow>
          let s = upd_dat (\<lambda>d. d\<lparr>tx_bd_ring := Some (linked_ring base tx_count), tx_bd_ring_addr := base,
                    tx_populated_buffer_index := 0, tx_completed_buffer_index := 0, tx_bd_inflight := 0\<rparr>) s;
              s = emz_dma_cache_flush c base (bd_size * of_nat tx_count) s;
              s = emz_dma_write c EMZ_AXI_DMA_REG_MM2S_DMASR 0xffffffff s;
              s = emz_dma_write c EMZ_AXI_DMA_REG_MM2S_CURDESC base s;
              s = emit Dmem_fence s;
              s = emz_dma_write c EMZ_AXI_DMA_REG_MM2S_DMACR (emz_tx_direct_dmacr (kc c)) s;
              s = emit Dmem_fence s
          in (0, m, upd_dat (\<lambda>d. d\<lparr>dma_is_configured_tx := True\<rparr>) s))"

section \<open>Reclaim\<close>

text \<open>
  The loop runs while descriptors are in flight, so with a ring: a \<^verbatim>\<open>NULL\<close> ring has none
  in flight.
\<close>

definition tx_retire :: "ctx \<Rightarrow> nat \<Rightarrow> emaczero_rx_bd list \<Rightarrow> u32 \<Rightarrow> emz \<Rightarrow> emz" where
  "tx_retire c index ring status s =
     (let s = upd_dat (\<lambda>d. d\<lparr>tx_bd_ring := Some (ring[index := (ring ! index)
                \<lparr>bd_control := 0, bd_status := 0\<rparr>])\<rparr>) s;
          s = emz_dma_cache_flush c (tx_bd_addr (dat s) index) bd_size s;
          s = upd_dat (\<lambda>d. d\<lparr>tx_completed_buffer_index := (index + 1) mod tx_count,
                tx_bd_inflight := tx_bd_inflight d - 1\<rparr>) s
      in if bd_failed status then emit Eth_errors_tx (upd_perf (inc64 Tx_dma_error) s)
         else upd_perf (inc64 Tx_dma_completed) s)"

lemma tx_retire_dat:
  "dat (tx_retire c index ring status s) = (dat s)\<lparr>tx_bd_ring := Some (ring[index := (ring ! index)
     \<lparr>bd_control := 0, bd_status := 0\<rparr>]), tx_completed_buffer_index := (index + 1) mod tx_count,
     tx_bd_inflight := tx_bd_inflight (dat s) - 1\<rparr>"
  by (simp add: tx_retire_def Let_def)

function tx_reclaim_loop :: "ctx \<Rightarrow> u32 \<Rightarrow> emz \<Rightarrow> u32 \<times> emz" where
  "tx_reclaim_loop c reclaimed s =
     (if 0 < tx_bd_inflight (dat s) then
        (case tx_bd_ring (dat s) of
           None \<Rightarrow> (reclaimed, s)
         | Some ring \<Rightarrow>
             if bd_done (bd_status (ring ! tx_completed_buffer_index (dat s)))
             then tx_reclaim_loop c (reclaimed + 1)
               (tx_retire c (tx_completed_buffer_index (dat s)) ring
                  (bd_status (ring ! tx_completed_buffer_index (dat s)))
                  (emz_dma_cache_invd c (tx_bd_addr (dat s) (tx_completed_buffer_index (dat s))) bd_size s))
             else (reclaimed,
               emz_dma_cache_invd c (tx_bd_addr (dat s) (tx_completed_buffer_index (dat s))) bd_size s))
      else (reclaimed, s))"
  by pat_completeness auto
termination
  by (relation "measure (\<lambda>(c, r, s). unat (tx_bd_inflight (dat s)))")
    (auto simp: tx_retire_dat word_less_nat_alt unat_pred_word)

declare tx_reclaim_loop.simps [simp del]

definition EMZ_TX_DMASR_ACK :: u32 where
  "EMZ_TX_DMASR_ACK = (BIT 14 OR BIT 13 OR BIT 12) OR
     (BIT 10 OR BIT 9 OR BIT 8 OR BIT 6 OR BIT 5 OR BIT 4)"

definition emz_tx_direct_reclaim :: "ctx \<Rightarrow> emz \<Rightarrow> u32 \<times> emz" where
  "emz_tx_direct_reclaim c s =
     (case tx_reclaim_loop c 0 s of
        (reclaimed, s) \<Rightarrow> (reclaimed, emz_dma_write c EMZ_AXI_DMA_REG_MM2S_DMASR EMZ_TX_DMASR_ACK s))"

section \<open>Waiting for descriptors\<close>

text \<open>One microsecond of waiting, in which the engine may complete descriptors.\<close>

definition tx_busy_wait :: "ctx \<Rightarrow> emz \<Rightarrow> emz" where
  "tx_busy_wait c s =
     tick (upd_dat (\<lambda>d. d\<lparr>tx_bd_ring :=
       map_option (tx_engine (env_of c) (ticks (aux s))) (tx_bd_ring d)\<rparr>) (emit (Busy_wait 1) s))"

text \<open>
  The two wait loops of the file, \<^verbatim>\<open>wait_us\<close> counting up to \<open>limit\<close>. The result says
  whether the wait succeeded.
\<close>

function tx_wait_loop :: "ctx \<Rightarrow> nat \<Rightarrow> (emaczero_data \<Rightarrow> bool) \<Rightarrow> nat \<Rightarrow> emz \<Rightarrow> bool \<times> emz" where
  "tx_wait_loop c limit busy wait_us s =
     (if \<not> busy (dat s) then (True, s)
      else if limit \<le> wait_us then (False, s)
      else tx_wait_loop c limit busy (wait_us + 1) (snd (emz_tx_direct_reclaim c (tx_busy_wait c s))))"
  by pat_completeness auto
termination
  by (relation "measure (\<lambda>(c, limit, busy, wait_us, s). limit - wait_us)") auto

declare tx_wait_loop.simps [simp del]

text \<open>\<^verbatim>\<open>tx_last_ret = (uint32_t)ret\<close>\<close>

definition set_last_ret :: "int \<Rightarrow> emz \<Rightarrow> emz" where
  "set_last_ret ret = upd_perf (set32 Tx_last_ret (word_of_int ret))"

definition tx_full :: "emaczero_data \<Rightarrow> bool" where
  "tx_full d \<longleftrightarrow> of_nat tx_count \<le> tx_bd_inflight d"

definition emz_tx_direct_reserve :: "ctx \<Rightarrow> emz \<Rightarrow> (int + nat) \<times> emz" where
  "emz_tx_direct_reserve c s =
     (if tx_bd_ring (dat s) = None then
        (Inl (- ENODEV), set_last_ret (- ENODEV) (upd_perf (inc64 Tx_setup_no_dma) s))
      else
        case tx_wait_loop c 2000 tx_full 0 (snd (emz_tx_direct_reclaim c s)) of
          (True, s) \<Rightarrow> (Inr (tx_populated_buffer_index (dat s)), s)
        | (False, s) \<Rightarrow> (Inl (- ENOSPC), set_last_ret (- ENOSPC) (upd_perf (inc64 Tx_setup_busy) s)))"

section \<open>Queueing one descriptor\<close>

definition tx_control :: "nat \<Rightarrow> u32" where
  "tx_control len = EMZ_AXI_DMA_BD_CTRL_SOF OR EMZ_AXI_DMA_BD_CTRL_EOF OR
     (of_nat len AND EMZ_AXI_DMA_BD_CTRL_LEN_MASK)"

definition tx_program :: "u32 \<Rightarrow> nat \<Rightarrow> emaczero_rx_bd \<Rightarrow> emaczero_rx_bd" where
  "tx_program bytes len bd = bd\<lparr>buffer_address := bytes, buffer_address_msb := 0,
     bd_control := tx_control len, app0 := 0, app1 := 0, app2 := 0, app3 := 0, app4 := 0,
     bd_status := 0\<rparr>"

definition emz_setup_dma_tx_direct_transfer :: "ctx \<Rightarrow> nat \<Rightarrow> emz \<Rightarrow> int \<times> emz" where
  "emz_setup_dma_tx_direct_transfer c len s =
     (let current = tx_populated_buffer_index (dat s)
      in case tx_bd_ring (dat s) of
           None \<Rightarrow> (- ENODEV, set_last_ret (- ENODEV) (upd_perf (inc64 Tx_setup_no_dma) s))
         | Some ring \<Rightarrow>
             if tx_full (dat s) then
               (- ENOSPC, set_last_ret (- ENOSPC) (upd_perf (inc64 Tx_setup_busy) s))
             else
               let bytes = txb_addr (tx_buffer (dat s) ! current);
                   s = upd_perf (inc64 Tx_setup_calls) s;
                   s = upd_perf (set32 Tx_last_len (of_nat len)) s;
                   s = emz_dma_cache_flush c bytes (of_nat len) s;
                   s = upd_dat (\<lambda>d. d\<lparr>tx_bd_ring :=
                         Some (ring[current := tx_program bytes len (ring ! current)])\<rparr>) s;
                   s = emz_dma_cache_flush c (tx_bd_addr (dat s) current) bd_size s;
                   s = emit Dmem_fence s;
                   s = emz_dma_write c EMZ_AXI_DMA_REG_MM2S_TAILDESC (tx_bd_addr (dat s) current) s;
                   s = upd_dat (\<lambda>d. d\<lparr>tx_populated_buffer_index := (current + 1) mod tx_count,
                         tx_bd_inflight := tx_bd_inflight d + 1\<rparr>) s;
                   s = upd_perf (inc64 Tx_dma_start_ok) s
               in (0, set_last_ret 0 s))"

text \<open>\<^verbatim>\<open>emz_setup_dma_tx_transfer\<close>, the generic DMA API when there is no direct ring.\<close>

definition setup_dma_tx_generic :: "ctx \<Rightarrow> nat \<Rightarrow> emz \<Rightarrow> int \<times> emz" where
  "setup_dma_tx_generic c len s =
     (let current = tx_populated_buffer_index (dat s);
          next_descriptor = (current + 1) mod tx_count;
          bytes = txb_addr (tx_buffer (dat s) ! current);
          s = upd_perf (inc64 Tx_setup_calls) s;
          s = upd_perf (set32 Tx_last_len (of_nat len)) s;
          start = (\<lambda>s.
            let s = emz_dma_cache_flush c bytes (of_nat len) s;
                s = upd_dat (\<lambda>d. d\<lparr>tx_populated_buffer_index := next_descriptor\<rparr>) s;
                ret = ext_ret c Ext_dma_start_tx s; s = ext_call c Ext_dma_start_tx s;
                s = (if ret \<noteq> 0 then
                       upd_perf (inc64 Tx_dma_start_fail)
                         (upd_dat (\<lambda>d. d\<lparr>tx_populated_buffer_index := current\<rparr>) s)
                     else upd_perf (inc64 Tx_dma_start_ok) s)
            in (ret, set_last_ret ret s))
      in if \<not> cfg_dma (cfg c) then
           (- ENODEV, set_last_ret (- ENODEV) (upd_perf (inc64 Tx_setup_no_dma) s))
         else if next_descriptor = tx_completed_buffer_index (dat s) then
           (- ENOSPC, set_last_ret (- ENOSPC) (upd_perf (inc64 Tx_setup_busy) s))
         else if \<not> dma_is_configured_tx (dat s) then
           let x = Ext_dma_config_tx bytes (of_nat len);
               ret = ext_ret c x s; s = ext_call c x s
           in if ret \<noteq> 0 then (ret, set_last_ret ret (upd_perf (inc64 Tx_dma_config_fail) s))
              else start (upd_dat (\<lambda>d. d\<lparr>dma_is_configured_tx := True\<rparr>) s)
         else
           let x = Ext_dma_reload_tx bytes (of_nat len);
               ret = ext_ret c x s; s = ext_call c x s
           in if ret \<noteq> 0 then (ret, set_last_ret ret (upd_perf (inc64 Tx_dma_reload_fail) s))
              else start s)"

definition emz_setup_dma_tx_transfer :: "ctx \<Rightarrow> nat \<Rightarrow> emz \<Rightarrow> int \<times> emz" where
  "emz_setup_dma_tx_transfer c len s =
     (if emz_rx_direct_enabled c then emz_setup_dma_tx_direct_transfer c len s
      else setup_dma_tx_generic c len s)"

text \<open>\<^verbatim>\<open>emz_dma_tx_callback\<close> of the generic path.\<close>

definition emz_dma_tx_callback :: "int \<Rightarrow> emz \<Rightarrow> emz" where
  "emz_dma_tx_callback status s =
     (let s = upd_dat (\<lambda>d. d\<lparr>tx_completed_buffer_index :=
                (tx_completed_buffer_index d + 1) mod tx_count\<rparr>) s;
          s = upd_perf (inc64 Tx_dma_completed) s
      in if status < 0 then upd_perf (inc64 Tx_dma_error) (emit Eth_errors_tx s) else s)"

section \<open>Sending\<close>

definition put_tx_bytes :: "nat \<Rightarrow> u8 list \<Rightarrow> emaczero_data \<Rightarrow> emaczero_data" where
  "put_tx_bytes i frame d = d\<lparr>tx_buffer := (tx_buffer d)[i := (tx_buffer d ! i)
     \<lparr>txb_bytes := blit (txb_bytes (tx_buffer d ! i)) 0 frame\<rparr>]\<rparr>"

text \<open>The four sample words and the 64-byte capture of what is about to be sent.\<close>

definition note_tx_words :: "u8 list \<Rightarrow> nat \<Rightarrow> perf_stats \<Rightarrow> perf_stats option" where
  "note_tx_words bytes len p = do {
     p \<leftarrow> store_words Tx_last_word bytes len [0, 1, 2, 3] p;
     capture_ext Tx_ext_len Tx_ext_word bytes len p
   }"

definition note_perf :: "(perf_stats \<Rightarrow> perf_stats option) \<Rightarrow> emz \<Rightarrow> emz option" where
  "note_perf f s = map_option (\<lambda>p. upd_perf (\<lambda>_. p) s) (f (perf (aux s)))"

text \<open>The descriptor to use: reserved on the direct ring, the next one otherwise.\<close>

definition tx_descriptor :: "ctx \<Rightarrow> emz \<Rightarrow> (int + nat) \<times> emz" where
  "tx_descriptor c s =
     (if emz_rx_direct_enabled c then emz_tx_direct_reserve c s
      else (Inr (tx_populated_buffer_index (dat s)), s))"

definition bad_tx_len :: "ctx \<Rightarrow> nat \<Rightarrow> bool" where
  "bad_tx_len c len \<longleftrightarrow> len = 0 \<or> net_eth_max_frame_size (kc c) < len"

definition emz_send :: "ctx \<Rightarrow> u8 list \<Rightarrow> emz \<Rightarrow> (int \<times> emz) option" where
  "emz_send c pkt s =
     (let len = length pkt;
          s = upd_perf (inc64 Tx_send_calls) s;
          s = upd_perf (set32 Tx_last_len (of_nat len)) s
      in if bad_tx_len c len then Some (- EMSGSIZE, set_last_ret (- EMSGSIZE) s)
         else case tx_descriptor c s of
           (Inl ret, s) \<Rightarrow> Some (ret, s)
         | (Inr current, s) \<Rightarrow>
             let ret = ext_ret c Ext_net_pkt_read s; s = ext_call c Ext_net_pkt_read s
             in if ret \<noteq> 0 then
                  Some (- EIO, set_last_ret (- EIO) (upd_perf (inc64 Tx_send_read_fail) s))
                else do {
                  let s = upd_dat (put_tx_bytes current pkt) s;
                  let bytes = txb_bytes (tx_buffer (dat s) ! current);
                  s \<leftarrow> note_perf (note_tx_words bytes len) s;
                  s \<leftarrow> note_perf (emz_note_tx_icmp bytes len) s;
                  Some (emz_setup_dma_tx_transfer c len s)
                })"

text \<open>\<^verbatim>\<open>emaczero_send_raw_frame\<close> on a bound interface.\<close>

definition emaczero_send_raw_frame :: "ctx \<Rightarrow> u8 list \<Rightarrow> emz \<Rightarrow> (int \<times> emz) option" where
  "emaczero_send_raw_frame c frame s =
     (let len = length frame
      in if bad_tx_len c len then Some (- EMSGSIZE, set_last_ret (- EMSGSIZE) s)
         else
           let s = upd_perf (inc64 Tx_send_calls) s;
               s = upd_perf (set32 Tx_last_len (of_nat len)) s
           in case tx_descriptor c s of
                (Inl ret, s) \<Rightarrow> Some (ret, s)
              | (Inr current, s) \<Rightarrow> do {
                  let s = upd_dat (put_tx_bytes current frame) s;
                  s \<leftarrow> note_perf (note_tx_words (txb_bytes (tx_buffer (dat s) ! current)) len) s;
                  Some (emz_setup_dma_tx_transfer c len s)
                })"

text \<open>\<^verbatim>\<open>emaczero_profile_send_raw_frame\<close>: the same on the profiled device, when there is one.\<close>

definition emaczero_profile_send_raw_frame :: "ctx \<Rightarrow> bool \<Rightarrow> u8 list \<Rightarrow> emz \<Rightarrow> (int \<times> emz) option" where
  "emaczero_profile_send_raw_frame c profile_dev frame s =
     (if \<not> profile_dev then Some (- ENODEV, s) else emaczero_send_raw_frame c frame s)"

section \<open>The burst\<close>

text \<open>
  The loop queues \<open>n\<close> descriptors, each pointing at the buffer of the first one, and
  returns the last descriptor used.
\<close>

fun tx_burst_loop :: "ctx \<Rightarrow> u32 \<Rightarrow> nat \<Rightarrow> nat \<Rightarrow> nat \<Rightarrow> emz \<Rightarrow> (nat \<times> emz) option" where
  "tx_burst_loop c bytes len 0 prev s = Some (prev, s)"
| "tx_burst_loop c bytes len (Suc n) prev s =
     (case tx_bd_ring (dat s) of
        None \<Rightarrow> None
      | Some ring \<Rightarrow>
          let index = tx_populated_buffer_index (dat s);
              s = upd_dat (\<lambda>d. d\<lparr>tx_bd_ring :=
                    Some (ring[index := tx_program bytes len (ring ! index)])\<rparr>) s;
              s = emz_dma_cache_flush c (tx_bd_addr (dat s) index) bd_size s;
              s = upd_dat (\<lambda>d. d\<lparr>tx_populated_buffer_index := (index + 1) mod tx_count,
                    tx_bd_inflight := tx_bd_inflight d + 1\<rparr>) s
          in tx_burst_loop c bytes len n index s)"

definition emaczero_profile_send_raw_frame_burst :: "ctx \<Rightarrow> u8 list \<Rightarrow> nat \<Rightarrow> emz \<Rightarrow> (int \<times> emz) option" where
  "emaczero_profile_send_raw_frame_burst c frame count s =
     (let len = length frame
      in if \<not> emz_rx_direct_enabled c then Some (- ENOTSUP, s)
         else if bad_tx_len c len then Some (- EMSGSIZE, set_last_ret (- EMSGSIZE) s)
         else if count = 0 then Some (0, s)
         else
           let count = min count tx_count
           in case tx_wait_loop c 10000 (\<lambda>d. tx_bd_inflight d \<noteq> 0) 0 (snd (emz_tx_direct_reclaim c s)) of
                (False, s) \<Rightarrow>
                  Some (- ENOSPC, set_last_ret (- ENOSPC) (upd_perf (inc64 Tx_setup_busy) s))
              | (True, s) \<Rightarrow> do {
                  let first = tx_populated_buffer_index (dat s);
                  let s = upd_dat (put_tx_bytes first frame) s;
                  let buf = tx_buffer (dat s) ! first;
                  let s = emz_dma_cache_flush c (txb_addr buf) (of_nat len) s;
                  let s = upd_perf (set32 Tx_last_len (of_nat len)) s;
                  s \<leftarrow> note_perf (note_tx_words (txb_bytes buf) len) s;
                  (last_descriptor, s) \<leftarrow> tx_burst_loop c (txb_addr buf) len count first s;
                  let s = emit Dmem_fence s;
                  let s = emz_dma_write c EMZ_AXI_DMA_REG_MM2S_TAILDESC (tx_bd_addr (dat s) last_descriptor) s;
                  let s = upd_perf (add64 Tx_send_calls (of_nat count)) s;
                  let s = upd_perf (add64 Tx_setup_calls (of_nat count)) s;
                  let s = upd_perf (add64 Tx_dma_start_ok (of_nat count)) s;
                  Some (int count, set_last_ret 0 s)
                })"

end
