(* ===== verification/Boot.thy ===== *)
theory Boot
  imports EmzState
begin

text \<open>
  The state the image starts with, and a quiet surrounding for concrete runs. In
  \<^verbatim>\<open>drivers/ethernet/eth_emaczero.c\<close> the device data is a static object, so it starts
  zeroed: empty lists, \<^verbatim>\<open>NULL\<close> pointers, counters at 0. The quiet environment answers 0 to
  every question and never touches a descriptor; concrete runs use it with the small
  configuration of the \<open>Config\<close> theory.
\<close>

definition rx_buffer_zero :: "kconfig \<Rightarrow> emaczero_rx_buffer" where
  "rx_buffer_zero k = \<lparr>rxb_addr = 0, rxb_bytes = replicate (net_eth_max_frame_size k) 0, rxb_len = 0,
     rxb_status = 0, rxb_dma_done_cycle = 0, rxb_stack_handoff_cycle = 0\<rparr>"

definition tx_buffer_zero :: "kconfig \<Rightarrow> emaczero_tx_buffer" where
  "tx_buffer_zero k = \<lparr>txb_addr = 0, txb_bytes = replicate (net_eth_max_frame_size k) 0\<rparr>"

definition data_zero :: "kconfig \<Rightarrow> emaczero_data" where
  "data_zero k = \<lparr>rx_interceptor = None, iface = False, mac = replicate 6 0, promisc = False,
     dma_is_configured_rx = False, dma_is_configured_tx = False,
     tx_populated_buffer_index = 0, tx_completed_buffer_index = 0, tx_bd_inflight = 0,
     rx_dma_inflight = 0, last_dma_callback_cycle = 0,
     tx_bd_ring = None, tx_bd_ring_addr = 0, rx_bd_ring = [], rx_bd_ring_addr = 0,
     rx_bd_buffer = replicate (rx_buffer_count k) None,
     rx_bd_consume_index = 0, rx_bd_refill_index = 0, rx_bd_tail_index = 0, rx_bd_posted = 0,
     rx_direct_ring_started = False, rx_direct_recover_pending = False,
     rx_free_count = 0, rx_dma_fifo_count = 0, rx_ready_fifo_count = 0, rx_worker_count = 0,
     rx_stack_owned_count = 0, rx_free_fifo = [], rx_dma_fifo = [], rx_ready_fifo = [],
     rx_buffer = replicate (rx_buffer_count k) (rx_buffer_zero k),
     tx_buffer = replicate EMZ_DMA_BUFFER_COUNT_TX (tx_buffer_zero k)\<rparr>"

definition aux_zero :: aux_state where
  "aux_zero = \<lparr>perf = perf_zero, prof = profile_boot, ticks = 0, prov_rx_queue = []\<rparr>"

definition emz_zero :: "kconfig \<Rightarrow> emz" where
  "emz_zero k = \<lparr>dat = data_zero k, tr = [], aux = aux_zero\<rparr>"

definition quiet_env :: env where
  "quiet_env = \<lparr>clk = (\<lambda>_. 0), ext = (\<lambda>_ _. 0), mmio = (\<lambda>_ _. 0), tx_engine = (\<lambda>_ ring. ring)\<rparr>"

definition demo_config :: emaczero_config where
  "demo_config = \<lparr>cfg_base = 0x44a00000, cfg_dma_base = 0x41e00000, cfg_dma = True,
     cfg_dma_rx_irq = 1, cfg_speed = 100, cfg_mac = [2, 0, 0, 0, 0, 1]\<rparr>"

definition quiet_ctx :: ctx where
  "quiet_ctx = \<lparr>kc = tiny_kconfig, cfg = demo_config, env_of = quiet_env\<rparr>"

lemma quiet_ctx_sel [simp]:
  "kc quiet_ctx = tiny_kconfig" "cfg quiet_ctx = demo_config" "env_of quiet_ctx = quiet_env"
  by (simp_all add: quiet_ctx_def)

lemma quiet_answers [simp]:
  "ext_ret quiet_ctx x s = 0" "cycle_now quiet_ctx s = 0"
  by (simp_all add: ext_ret_def cycle_now_def quiet_env_def)

lemma tiny_sel [simp]:
  "rx_buffer_count tiny_kconfig = 8" "rx_dma_post_count tiny_kconfig = 3"
  "net_eth_max_frame_size tiny_kconfig = 60" "cfg_profile tiny_kconfig = False"
  "cfg_r7_instrumentation tiny_kconfig = False" "cfg_rx_direct_ring tiny_kconfig = True"
  "cfg_dcache_maint tiny_kconfig = False" "rx_max_stack_owned_zerocopy tiny_kconfig = 2"
  "rx_copy_fallback_count tiny_kconfig = 4"
  by (simp_all add: tiny_kconfig_def app_kconfig_def)

end
