(* ===== verification/TxSafety.thy ===== *)
theory TxSafety
  imports TxRing Boot
begin

text \<open>
  The direct TX ring as a bounded queue of what the engine has been told to send, and what
  sending guarantees: waits end, the ring never overruns, a packet that is accepted is
  queued last with its bytes in a buffer no descriptor in flight refers to. Burst sending
  breaks that last property, which two concrete runs show.
\<close>

section \<open>The TX ring as a queue\<close>

text \<open>An item of the ring is what its descriptor tells the engine: address and control word.\<close>

definition tx_items :: "emaczero_data \<Rightarrow> (u32 \<times> u32) list" where
  "tx_items d = map (\<lambda>bd. (buffer_address bd, bd_control bd))
     (window (tx_completed_buffer_index d) (unat (tx_bd_inflight d)) (the (tx_bd_ring d)))"

definition tx_inv :: "emaczero_data \<Rightarrow> bool" where
  "tx_inv d \<longleftrightarrow> tx_bd_ring d \<noteq> None \<and> length (the (tx_bd_ring d)) = tx_count \<and>
     tx_completed_buffer_index d < tx_count \<and> unat (tx_bd_inflight d) \<le> tx_count \<and>
     tx_populated_buffer_index d = (tx_completed_buffer_index d + unat (tx_bd_inflight d)) mod tx_count"

definition d_tx_push :: "u32 \<times> u32 \<Rightarrow> emaczero_data \<Rightarrow> emaczero_data" where
  "d_tx_push x d =
     (let i = tx_populated_buffer_index d; ring = the (tx_bd_ring d)
      in d\<lparr>tx_bd_ring := Some (ring[i := (ring ! i)\<lparr>buffer_address := fst x, buffer_address_msb := 0,
             bd_control := snd x, app0 := 0, app1 := 0, app2 := 0, app3 := 0, app4 := 0, bd_status := 0\<rparr>]),
           tx_populated_buffer_index := (i + 1) mod tx_count,
           tx_bd_inflight := tx_bd_inflight d + 1\<rparr>)"

definition d_tx_pop :: "emaczero_data \<Rightarrow> emaczero_data" where
  "d_tx_pop d =
     (let i = tx_completed_buffer_index d; ring = the (tx_bd_ring d)
      in d\<lparr>tx_bd_ring := Some (ring[i := (ring ! i)\<lparr>bd_control := 0, bd_status := 0\<rparr>]),
           tx_completed_buffer_index := (i + 1) mod tx_count,
           tx_bd_inflight := tx_bd_inflight d - 1\<rparr>)"

lemma tx_count_val [simp]: "EMZ_DMA_BUFFER_COUNT_TX = 32"
  by (simp add: EMZ_DMA_BUFFER_COUNT_TX_def)

lemma length_tx_items [simp]: "length (tx_items d) = unat (tx_bd_inflight d)"
  by (simp add: tx_items_def)

lemma d_tx_push_inv:
  assumes "tx_inv d" and "unat (tx_bd_inflight d) < tx_count"
  shows "tx_inv (d_tx_push x d)" and "tx_items (d_tx_push x d) = tx_items d @ [x]"
proof -
  let ?n = "unat (tx_bd_inflight d)" and ?h = "tx_completed_buffer_index d"
  let ?ring = "the (tx_bd_ring d)"
  have succ: "unat (tx_bd_inflight d + 1) = ?n + 1"
    using assms(2) by (intro unat_Suc_word) simp
  have n: "?n < length ?ring" using assms by (simp add: tx_inv_def)
  show "tx_inv (d_tx_push x d)"
    using assms succ by (simp add: tx_inv_def d_tx_push_def Let_def mod_Suc_eq)
  show "tx_items (d_tx_push x d) = tx_items d @ [x]"
    using window_push [OF n, of ?h] assms succ
    by (simp add: tx_items_def d_tx_push_def Let_def tx_inv_def)
qed

lemma d_tx_pop_inv:
  assumes "tx_inv d" and "tx_items d \<noteq> []"
  shows "tx_inv (d_tx_pop d)" and "tx_items (d_tx_pop d) = tl (tx_items d)"
proof -
  let ?h = "tx_completed_buffer_index d" and ?ring = "the (tx_bd_ring d)"
  obtain n where n: "unat (tx_bd_inflight d) = n + 1"
    using assms(2) length_tx_items [of d] by (cases "unat (tx_bd_inflight d)") (simp_all del: length_tx_items)
  have p: "unat (tx_bd_inflight d - 1) = n" using unat_pred_word [of "tx_bd_inflight d"] n by simp
  have h: "?h < length ?ring" and nl: "n < length ?ring" using assms n by (simp_all add: tx_inv_def)
  have "(Suc ?h mod 32 + n) mod 32 = (?h + (n + 1)) mod 32" by (simp add: mod_add_left_eq)
  then show "tx_inv (d_tx_pop d)"
    using assms(1) n p by (simp add: tx_inv_def d_tx_pop_def Let_def)
  show "tx_items (d_tx_pop d) = tl (tx_items d)"
    using window_pop [OF h nl, of "(?ring ! ?h)\<lparr>bd_control := 0, bd_status := 0\<rparr>"] assms n p
    by (simp add: tx_items_def d_tx_pop_def Let_def tx_inv_def)
qed

interpretation tx_ring: bounded_fifo tx_inv tx_items tx_count d_tx_push d_tx_pop
  by unfold_locales (simp_all add: d_tx_push_inv d_tx_pop_inv del: tx_count_val)

section \<open>Reclaim and waits\<close>

text \<open>
  What the AXI DMA engine may do to a descriptor while the CPU waits: write its status (and
  application) words. This is the documented behaviour of the engine; the CPU's fields stay.
\<close>

definition engine_ok :: "ctx \<Rightarrow> bool" where
  "engine_ok c \<longleftrightarrow> (\<forall>t ring. map (\<lambda>bd. (buffer_address bd, bd_control bd)) (tx_engine (env_of c) t ring)
     = map (\<lambda>bd. (buffer_address bd, bd_control bd)) ring)"

lemma window_map:
  "n \<le> length xs \<Longrightarrow> map f (window h n xs) = window h n (map f xs)"
  by (auto simp: window_def intro!: nth_map [symmetric] mod_less_divisor)

lemma busy_wait_items:
  assumes "engine_ok c" and "tx_inv (dat s)"
  shows "tx_inv (dat (tx_busy_wait c s))" and "tx_items (dat (tx_busy_wait c s)) = tx_items (dat s)"
proof -
  obtain ring where r: "tx_bd_ring (dat s) = Some ring" and l: "length ring = 32"
    using assms(2) by (auto simp: tx_inv_def)
  let ?f = "\<lambda>bd. (buffer_address bd, bd_control bd)"
  let ?r = "tx_engine (env_of c) (ticks (aux s)) ring"
  have m: "map ?f ?r = map ?f ring" using assms(1) by (simp add: engine_ok_def)
  have l': "length ?r = 32" using arg_cong [OF m, of length] l by simp
  show "tx_inv (dat (tx_busy_wait c s))"
    using assms(2) r l' by (simp add: tx_inv_def tx_busy_wait_def)
  show "tx_items (dat (tx_busy_wait c s)) = tx_items (dat s)"
    using assms(2) r l l' m by (simp add: tx_items_def tx_busy_wait_def tx_inv_def window_map)
qed

text \<open>What a wait or a reclaim leaves alone, and that it only removes from the front.\<close>

definition tx_shrunk :: "emz \<Rightarrow> emz \<Rightarrow> bool" where
  "tx_shrunk s s' \<longleftrightarrow> tx_inv (dat s') \<and> (\<exists>k. tx_items (dat s') = drop k (tx_items (dat s))) \<and>
     tx_buffer (dat s') = tx_buffer (dat s) \<and>
     tx_populated_buffer_index (dat s') = tx_populated_buffer_index (dat s) \<and>
     (tx_bd_inflight (dat s') \<le> tx_bd_inflight (dat s))"

lemma tx_shrunk_refl: "tx_inv (dat s) \<Longrightarrow> tx_shrunk s s"
  by (auto simp: tx_shrunk_def intro: exI [of _ 0])

lemma tx_shrunk_trans: "tx_shrunk s t \<Longrightarrow> tx_shrunk t u \<Longrightarrow> tx_shrunk s u"
  by (fastforce simp: tx_shrunk_def)

lemma tx_shrunk_dat: "dat t = dat t' \<Longrightarrow> tx_shrunk s t = tx_shrunk s t'"
  by (simp add: tx_shrunk_def)

lemma retire_is_pop:
  assumes "tx_bd_ring (dat s) = Some ring" and "dat s' = dat s"
  shows "dat (tx_retire c (tx_completed_buffer_index (dat s)) ring status s') = d_tx_pop (dat s)"
  using assms by (simp add: tx_retire_dat d_tx_pop_def Let_def)

lemma pop_shrunk:
  assumes "tx_inv (dat s)" and "0 < tx_bd_inflight (dat s)" and "dat s' = d_tx_pop (dat s)"
  shows "tx_shrunk s s'"
proof -
  have "0 < unat (tx_bd_inflight (dat s))" using assms(2) by (simp add: word_less_nat_alt)
  then have ne: "tx_items (dat s) \<noteq> []" using length_tx_items [of "dat s"] by (metis less_irrefl list.size(3))
  have "tx_bd_inflight (dat s) - 1 \<le> tx_bd_inflight (dat s)"
    using assms(2) by (simp add: word_le_nat_alt unat_pred_word word_less_nat_alt)
  then show ?thesis
    using d_tx_pop_inv [OF assms(1) ne] assms(3)
    by (auto simp: tx_shrunk_def d_tx_pop_def Let_def intro: exI [of _ 1] simp flip: drop_Suc)
      (metis drop0 drop_Suc)
qed

lemma reclaim_loop_shrunk:
  assumes "tx_inv (dat s)"
  shows "tx_shrunk s (snd (tx_reclaim_loop c r s))"
  using assms
proof (induction c r s rule: tx_reclaim_loop.induct)
  case (1 c r s)
  obtain ring where ring: "tx_bd_ring (dat s) = Some ring" using 1(2) by (auto simp: tx_inv_def)
  let ?i = "tx_completed_buffer_index (dat s)"
  let ?s = "emz_dma_cache_invd c (tx_bd_addr (dat s) ?i) bd_size s"
  let ?s' = "tx_retire c ?i ring (bd_status (ring ! ?i)) ?s"
  show ?case
  proof (cases "0 < tx_bd_inflight (dat s) \<and> bd_done (bd_status (ring ! ?i))")
    case True
    have pop: "dat ?s' = d_tx_pop (dat s)" by (rule retire_is_pop [OF ring]) simp
    have sh: "tx_shrunk s ?s'" using pop_shrunk [OF 1(2) _ pop] True by blast
    then have "tx_inv (dat ?s')" by (simp add: tx_shrunk_def)
    then show ?thesis
      using 1(1) [OF _ ring] True ring tx_shrunk_trans [OF sh]
      by (simp add: tx_reclaim_loop.simps [of c r s])
  next
    case False
    then show ?thesis
      using 1(2) ring tx_shrunk_refl [OF 1(2)]
      by (auto simp: tx_reclaim_loop.simps [of c r s] tx_shrunk_def)
  qed
qed

lemma reclaim_shrunk:
  assumes "tx_inv (dat s)"
  shows "tx_shrunk s (snd (emz_tx_direct_reclaim c s))"
  using reclaim_loop_shrunk [OF assms, of c 0]
  by (cases "tx_reclaim_loop c 0 s") (simp add: emz_tx_direct_reclaim_def emz_dma_write_def tx_shrunk_def)

lemma busy_wait_shrunk:
  assumes "engine_ok c" and "tx_inv (dat s)"
  shows "tx_shrunk s (tx_busy_wait c s)"
  using busy_wait_items [OF assms]
  by (auto simp: tx_shrunk_def tx_busy_wait_def intro: exI [of _ 0])

lemma wait_loop_shrunk:
  assumes "engine_ok c" and "tx_inv (dat s)" and "tx_wait_loop c limit busy w s = (ok, s')"
  shows "tx_shrunk s s' \<and> (ok \<longrightarrow> \<not> busy (dat s')) \<and> (\<not> ok \<longrightarrow> busy (dat s'))"
  using assms(2,3)
proof (induction "limit - w" arbitrary: w s)
  case 0
  then show ?case
    by (auto simp: tx_wait_loop.simps [of c limit busy w s] tx_shrunk_refl split: if_splits)
next
  case (Suc n)
  let ?s = "snd (emz_tx_direct_reclaim c (tx_busy_wait c s))"
  have sh: "tx_shrunk s ?s"
    using tx_shrunk_trans [OF busy_wait_shrunk [OF assms(1) Suc(3)]]
      reclaim_shrunk [of "tx_busy_wait c s" c] busy_wait_items(1) [OF assms(1) Suc(3)] by blast
  then have inv: "tx_inv (dat ?s)" by (simp add: tx_shrunk_def)
  show ?case
  proof (cases "busy (dat s)")
    case False
    then show ?thesis
      using Suc(3,4) by (auto simp: tx_wait_loop.simps [of c limit busy w s] tx_shrunk_refl)
  next
    case True
    then have "tx_wait_loop c limit busy (w + 1) ?s = (ok, s')"
      using Suc(2,4) by (subst (asm) tx_wait_loop.simps) (simp split: if_splits)
    then show ?thesis
      using Suc(1) [of "w + 1" ?s] Suc(2) inv tx_shrunk_trans [OF sh] by fastforce
  qed
qed

text \<open>How long the waits can take.\<close>

definition waits :: "emz \<Rightarrow> nat" where
  "waits = ev_count (\<lambda>e. \<exists>n. e = Busy_wait n)"

lemma reclaim_loop_waits: "waits (snd (tx_reclaim_loop c r s)) = waits s"
proof (induction c r s rule: tx_reclaim_loop.induct)
  case (1 c r s)
  have retire: "waits (tx_retire c' i ring st s') = waits s'" for c' i ring st s'
    by (simp add: waits_def tx_retire_def Let_def cache_ev_count)
  have invd: "waits (emz_dma_cache_invd c' a n s') = waits s'" for c' a n s'
    by (simp add: waits_def cache_ev_count)
  show ?case
    using 1 by (subst tx_reclaim_loop.simps) (simp add: retire invd split: option.split)
qed

lemma reclaim_waits: "waits (snd (emz_tx_direct_reclaim c s)) = waits s"
  using reclaim_loop_waits [of c 0 s]
  by (cases "tx_reclaim_loop c 0 s") (simp add: emz_tx_direct_reclaim_def emz_dma_write_def waits_def)

lemma busy_wait_waits: "waits (tx_busy_wait c s) = waits s + 1"
  by (simp add: waits_def tx_busy_wait_def)

lemma wait_loop_waits: "waits (snd (tx_wait_loop c limit busy w s)) \<le> waits s + (limit - w)"
proof (induction c limit busy w s rule: tx_wait_loop.induct)
  case (1 c limit busy w s)
  then show ?case
    by (subst tx_wait_loop.simps)
      (auto simp: reclaim_waits busy_wait_waits intro: le_trans)
qed

section \<open>Sending a packet\<close>

definition tx_bufs_ok :: "ctx \<Rightarrow> emaczero_data \<Rightarrow> bool" where
  "tx_bufs_ok c d \<longleftrightarrow> length (tx_buffer d) = tx_count \<and>
     (\<forall>b \<in> set (tx_buffer d). length (txb_bytes b) = net_eth_max_frame_size (kc c))"

lemma reserve_result:
  assumes "engine_ok c" and "tx_inv (dat s)" and "emz_tx_direct_reserve c s = (r, s')"
  shows "tx_shrunk s s'"
    and "r = Inl (- ENOSPC) \<and> tx_full (dat s') \<or>
         r = Inr (tx_populated_buffer_index (dat s)) \<and> \<not> tx_full (dat s')"
    and "waits s' \<le> waits s + 2000"
proof -
  let ?s = "snd (emz_tx_direct_reclaim c s)"
  obtain ok s1 where w: "tx_wait_loop c 2000 tx_full 0 ?s = (ok, s1)"
    by (cases "tx_wait_loop c 2000 tx_full 0 ?s")
  have sh: "tx_shrunk s ?s" by (rule reclaim_shrunk [OF assms(2)])
  then have inv: "tx_inv (dat ?s)" by (simp add: tx_shrunk_def)
  note l = wait_loop_shrunk [OF assms(1) inv w]
  have sh1: "tx_shrunk s s1" using tx_shrunk_trans [OF sh] l by blast
  have ring: "tx_bd_ring (dat s) \<noteq> None" using assms(2) by (simp add: tx_inv_def)
  have dat: "dat s' = dat s1" and ws: "waits s' = waits s1"
    using assms(3) ring w by (auto simp: emz_tx_direct_reserve_def set_last_ret_def waits_def split: bool.splits)
  show "tx_shrunk s s'" using sh1 dat by (simp add: tx_shrunk_def)
  show "r = Inl (- ENOSPC) \<and> tx_full (dat s') \<or>
      r = Inr (tx_populated_buffer_index (dat s)) \<and> \<not> tx_full (dat s')"
    using assms(3) ring w l dat sh1
    by (auto simp: emz_tx_direct_reserve_def tx_shrunk_def split: bool.splits)
  show "waits s' \<le> waits s + 2000"
    using wait_loop_waits [of c 2000 tx_full 0 ?s] w ws by (simp add: reclaim_waits)
qed

text \<open>
  Asking for a TX descriptor always ends, after at most 2000 microseconds of waiting:
  with the next descriptor when the ring has room, or with \<open>-ENOSPC\<close> when the engine has
  kept it full; descriptors in flight only leave from the front.
\<close>
theorem tx_reserve_bounded:
  assumes "engine_ok c" and "tx_inv (dat s)"
  shows "\<exists>r s'. emz_tx_direct_reserve c s = (r, s') \<and> waits s' \<le> waits s + 2000 \<and>
    tx_inv (dat s') \<and> (\<exists>k. tx_items (dat s') = drop k (tx_items (dat s))) \<and>
    (r = Inl (- ENOSPC) \<and> length (tx_items (dat s')) = tx_count \<or>
     r = Inr (tx_populated_buffer_index (dat s)) \<and> length (tx_items (dat s')) < tx_count)"
proof -
  obtain r s' where r: "emz_tx_direct_reserve c s = (r, s')" by (cases "emz_tx_direct_reserve c s")
  note res = reserve_result [OF assms r]
  have "tx_full (dat s') \<longleftrightarrow> length (tx_items (dat s')) = tx_count"
    using res(1) by (auto simp: tx_full_def tx_shrunk_def tx_inv_def word_le_nat_alt)
  moreover have "length (tx_items (dat s')) \<le> tx_count" using res(1) by (simp add: tx_shrunk_def tx_inv_def)
  ultimately show ?thesis using res r by (fastforce simp: tx_shrunk_def)
qed

lemma setup_direct_dat:
  assumes "tx_inv (dat s)" and "\<not> tx_full (dat s)"
    and "emz_setup_dma_tx_direct_transfer c len s = (ret, s')"
  shows "ret = 0 \<and> dat s' = d_tx_push
    (txb_addr (tx_buffer (dat s) ! tx_populated_buffer_index (dat s)), tx_control len) (dat s)"
    and "\<exists>t. tr s' = Mmio_write (cfg_dma_base (cfg c) + EMZ_AXI_DMA_REG_MM2S_TAILDESC)
      (tx_bd_addr (dat s) (tx_populated_buffer_index (dat s))) # Dmem_fence # t"
  using assms
  by (auto simp: emz_setup_dma_tx_direct_transfer_def Let_def tx_inv_def d_tx_push_def tx_program_def
      set_last_ret_def emz_dma_write_def tx_bd_addr_def)

lemma note_words_Some:
  assumes "len \<le> length bytes"
  shows "\<exists>s'. note_perf (note_tx_words bytes len) s = Some s' \<and> dat s' = dat s"
    and "\<exists>s'. note_perf (emz_note_tx_icmp bytes len) s = Some s' \<and> dat s' = dat s"
proof -
  obtain p where "store_words Tx_last_word bytes len [0, 1, 2, 3] (perf (aux s)) = Some p"
    using store_words_Some [OF assms] by blast
  moreover obtain q where "capture_ext Tx_ext_len Tx_ext_word bytes len p = Some q"
    using capture_ext_Some [OF assms] by blast
  ultimately show "\<exists>s'. note_perf (note_tx_words bytes len) s = Some s' \<and> dat s' = dat s"
    by (simp add: note_perf_def note_tx_words_def del: store_words.simps)
  obtain r where "emz_note_tx_icmp bytes len (perf (aux s)) = Some r"
    using note_tx_icmp_Some [OF assms] by blast
  then show "\<exists>s'. note_perf (emz_note_tx_icmp bytes len) s = Some s' \<and> dat s' = dat s"
    by (simp add: note_perf_def)
qed

text \<open>What a send may do to the TX side.\<close>

definition send_ok :: "ctx \<Rightarrow> u8 list \<Rightarrow> emz \<Rightarrow> int \<Rightarrow> emz \<Rightarrow> bool" where
  "send_ok c pkt s ret s' \<longleftrightarrow> tx_inv (dat s') \<and> tx_bufs_ok c (dat s') \<and>
     map txb_addr (tx_buffer (dat s')) = map txb_addr (tx_buffer (dat s)) \<and>
     (let i = tx_populated_buffer_index (dat s)
      in if ret = 0 then
           (\<exists>k. tx_items (dat s') = drop k (tx_items (dat s)) @
              [(txb_addr (tx_buffer (dat s) ! i), tx_control (length pkt))]) \<and>
           tx_populated_buffer_index (dat s') = (i + 1) mod tx_count \<and>
           take (length pkt) (txb_bytes (tx_buffer (dat s') ! i)) = pkt \<and>
           (\<forall>j < tx_count. j \<noteq> i \<longrightarrow> tx_buffer (dat s') ! j = tx_buffer (dat s) ! j)
         else
           (\<exists>k. tx_items (dat s') = drop k (tx_items (dat s))) \<and> tx_buffer (dat s') = tx_buffer (dat s))"

text \<open>Which answer a send gives: the reason for each error.\<close>

definition send_answer :: "ctx \<Rightarrow> u8 list \<Rightarrow> int \<Rightarrow> emz \<Rightarrow> bool" where
  "send_answer c pkt ret s' \<longleftrightarrow>
     (if bad_tx_len c (length pkt) then ret = - EMSGSIZE
      else ret = 0 \<or> ret = - ENOSPC \<and> tx_full (dat s') \<or>
           ret = - EIO \<and> (\<exists>t. ext (env_of c) Ext_net_pkt_read t \<noteq> 0))"

lemma tx_inv_put [simp]:
  "tx_inv (put_tx_bytes i f d) = tx_inv d" "tx_items (put_tx_bytes i f d) = tx_items d"
  "tx_full (put_tx_bytes i f d) = tx_full d"
  "tx_populated_buffer_index (put_tx_bytes i f d) = tx_populated_buffer_index d"
  by (simp_all add: put_tx_bytes_def tx_inv_def tx_items_def tx_full_def)

lemma populated_less: "tx_inv d \<Longrightarrow> tx_populated_buffer_index d < 32"
  by (simp add: tx_inv_def)

lemma put_tx_bytes_ok:
  assumes "tx_bufs_ok c d" and "i < 32" and "length f \<le> net_eth_max_frame_size (kc c)"
  shows "tx_bufs_ok c (put_tx_bytes i f d)"
    and "take (length f) (txb_bytes (tx_buffer (put_tx_bytes i f d) ! i)) = f"
    and "length (txb_bytes (tx_buffer (put_tx_bytes i f d) ! i)) = net_eth_max_frame_size (kc c)"
    and "txb_addr (tx_buffer (put_tx_bytes i f d) ! i) = txb_addr (tx_buffer d ! i)"
proof -
  have l: "length (txb_bytes (tx_buffer d ! i)) = net_eth_max_frame_size (kc c)"
    using assms(1,2) nth_mem [of i "tx_buffer d"] by (auto simp: tx_bufs_ok_def)
  then show "tx_bufs_ok c (put_tx_bytes i f d)"
    using assms by (auto simp: tx_bufs_ok_def put_tx_bytes_def dest!: subsetD [OF set_update_subset_insert])
  show "take (length f) (txb_bytes (tx_buffer (put_tx_bytes i f d) ! i)) = f"
    using assms l take_blit_same [of 0 f "txb_bytes (tx_buffer d ! i)"]
    by (simp add: put_tx_bytes_def tx_bufs_ok_def)
  show "length (txb_bytes (tx_buffer (put_tx_bytes i f d) ! i)) = net_eth_max_frame_size (kc c)"
    using assms l by (simp add: put_tx_bytes_def tx_bufs_ok_def)
  show "txb_addr (tx_buffer (put_tx_bytes i f d) ! i) = txb_addr (tx_buffer d ! i)"
    using assms by (simp add: put_tx_bytes_def tx_bufs_ok_def)
qed

lemma list_update_id': "i < length xs \<Longrightarrow> f (xs ! i) = y \<Longrightarrow> (map f xs)[i := y] = map f xs"
  by (metis list_update_id nth_map length_map)

lemma put_keeps_addr: "map txb_addr (tx_buffer (put_tx_bytes i f d)) = map txb_addr (tx_buffer d)"
  by (cases "i < length (tx_buffer d)")
    (simp_all add: put_tx_bytes_def map_update list_update_id' list_update_beyond)

text \<open>
  Once the packet is in the buffer of the next slot, queueing its descriptor succeeds; what
  came between only observed the driver.
\<close>

lemma queue_packet_ok:
  assumes inv: "tx_inv (dat s)" and bufs: "tx_bufs_ok c (dat s)" and room: "\<not> tx_full (dat s)"
    and len: "\<not> bad_tx_len c (length pkt)"
    and put: "dat s1 = put_tx_bytes (tx_populated_buffer_index (dat s)) pkt (dat s)"
    and run: "emz_setup_dma_tx_direct_transfer c (length pkt) s1 = (ret, s')"
  shows "ret = 0" and "send_ok c pkt s 0 s'"
    and "tx_items (dat s') = tx_items (dat s) @
      [(txb_addr (tx_buffer (dat s) ! tx_populated_buffer_index (dat s)), tx_control (length pkt))]"
proof -
  let ?len = "length pkt" and ?i = "tx_populated_buffer_index (dat s)"
  have len': "?len \<le> net_eth_max_frame_size (kc c)" using len by (simp add: bad_tx_len_def)
  note buf = put_tx_bytes_ok [OF bufs populated_less [OF inv] len']
  have inv1: "tx_inv (dat s1)" and room1: "\<not> tx_full (dat s1)"
    and i1: "tx_populated_buffer_index (dat s1) = ?i" and items1: "tx_items (dat s1) = tx_items (dat s)"
    using put inv room by simp_all
  note push = setup_direct_dat(1) [OF inv1 room1 run]
  show "ret = 0" using push by simp
  have less: "unat (tx_bd_inflight (dat s1)) < tx_count"
    using room1 by (simp add: tx_full_def word_le_nat_alt)
  have addr: "txb_addr (tx_buffer (dat s1) ! ?i) = txb_addr (tx_buffer (dat s) ! ?i)"
    using buf(4) put by simp
  have buf': "tx_buffer (dat s') = tx_buffer (dat s1)"
    using push by (simp add: d_tx_push_def Let_def)
  show items: "tx_items (dat s') = tx_items (dat s) @ [(txb_addr (tx_buffer (dat s) ! ?i), tx_control ?len)]"
    using d_tx_push_inv(2) [OF inv1 less] push addr i1 items1 by simp
  have "tx_bufs_ok c (dat s')" using buf(1) buf' put by (simp add: tx_bufs_ok_def)
  moreover have "tx_inv (dat s')" using d_tx_push_inv(1) [OF inv1 less] push by simp
  moreover have "\<forall>j < tx_count. j \<noteq> ?i \<longrightarrow> tx_buffer (dat s') ! j = tx_buffer (dat s) ! j"
    using buf' put by (simp add: put_tx_bytes_def)
  moreover have "map txb_addr (tx_buffer (dat s')) = map txb_addr (tx_buffer (dat s))"
    using buf' put by (simp add: put_keeps_addr)
  moreover have "tx_populated_buffer_index (dat s') = (?i + 1) mod tx_count"
    using push i1 by (simp add: d_tx_push_def Let_def)
  ultimately show "send_ok c pkt s 0 s'"
    using items buf(2) buf' put by (auto simp: send_ok_def Let_def intro: exI [of _ 0])
qed

text \<open>The part of a send after the descriptor is reserved.\<close>

lemma send_after_reserve:
  assumes direct: "emz_rx_direct_enabled c" and len: "\<not> bad_tx_len c (length pkt)"
    and inv: "tx_inv (dat s2)" and bufs: "tx_bufs_ok c (dat s2)" and room: "\<not> tx_full (dat s2)"
    and res: "emz_tx_direct_reserve c (upd_perf (set32 Tx_last_len (of_nat (length pkt)))
        (upd_perf (inc64 Tx_send_calls) s)) = (Inr (tx_populated_buffer_index (dat s2)), s2)"
    and read: "ext_ret c Ext_net_pkt_read s2 = 0"
  shows "\<exists>s'. emz_send c pkt s = Some (0, s') \<and> send_ok c pkt s2 0 s' \<and>
    tx_items (dat s') = tx_items (dat s2) @
      [(txb_addr (tx_buffer (dat s2) ! tx_populated_buffer_index (dat s2)), tx_control (length pkt))]"
proof -
  let ?len = "length pkt" and ?i = "tx_populated_buffer_index (dat s2)"
  have len': "?len \<le> net_eth_max_frame_size (kc c)" using len by (simp add: bad_tx_len_def)
  define s3 where "s3 = ext_call c Ext_net_pkt_read s2"
  have d3: "dat s3 = dat s2" by (simp add: s3_def)
  let ?s4 = "upd_dat (put_tx_bytes ?i pkt) s3"
  let ?bytes = "txb_bytes (tx_buffer (dat ?s4) ! ?i)"
  have l4: "?len \<le> length ?bytes"
    using put_tx_bytes_ok(3) [OF bufs populated_less [OF inv] len'] len' by (simp add: d3)
  obtain s5 where s5: "note_perf (note_tx_words ?bytes ?len) ?s4 = Some s5" "dat s5 = dat ?s4"
    using note_words_Some(1) [OF l4] by blast
  obtain s6 where s6: "note_perf (emz_note_tx_icmp ?bytes ?len) s5 = Some s6" "dat s6 = dat ?s4"
    using note_words_Some(2) [OF l4, of s5] s5 by auto
  obtain ret s7 where s7: "emz_setup_dma_tx_direct_transfer c ?len s6 = (ret, s7)"
    by (cases "emz_setup_dma_tx_direct_transfer c ?len s6")
  have run: "emz_send c pkt s = Some (ret, s7)"
    using len res read s5 s6 s7 unfolding emz_send_def Let_def
    by (simp add: tx_descriptor_def direct emz_setup_dma_tx_transfer_def s3_def)
  have put: "dat s6 = put_tx_bytes ?i pkt (dat s2)" using s6(2) by (simp add: d3)
  show ?thesis
    using queue_packet_ok [OF inv bufs room len put s7] run by auto
qed

text \<open>
  A frame handed over ready, as the provisioning code does: the same, without the call that
  reads a packet.
\<close>

lemma raw_after_reserve:
  assumes direct: "emz_rx_direct_enabled c" and len: "\<not> bad_tx_len c (length f)"
    and inv: "tx_inv (dat s2)" and bufs: "tx_bufs_ok c (dat s2)" and room: "\<not> tx_full (dat s2)"
    and res: "emz_tx_direct_reserve c (upd_perf (set32 Tx_last_len (of_nat (length f)))
        (upd_perf (inc64 Tx_send_calls) s)) = (Inr (tx_populated_buffer_index (dat s2)), s2)"
  shows "\<exists>s'. emaczero_send_raw_frame c f s = Some (0, s') \<and> send_ok c f s2 0 s'"
proof -
  let ?len = "length f" and ?i = "tx_populated_buffer_index (dat s2)"
  have len': "?len \<le> net_eth_max_frame_size (kc c)" using len by (simp add: bad_tx_len_def)
  let ?s4 = "upd_dat (put_tx_bytes ?i f) s2"
  let ?bytes = "txb_bytes (tx_buffer (dat ?s4) ! ?i)"
  have l4: "?len \<le> length ?bytes"
    using put_tx_bytes_ok(3) [OF bufs populated_less [OF inv] len'] len' by simp
  obtain s5 where s5: "note_perf (note_tx_words ?bytes ?len) ?s4 = Some s5" "dat s5 = dat ?s4"
    using note_words_Some(1) [OF l4] by blast
  obtain ret s7 where s7: "emz_setup_dma_tx_direct_transfer c ?len s5 = (ret, s7)"
    by (cases "emz_setup_dma_tx_direct_transfer c ?len s5")
  have run: "emaczero_send_raw_frame c f s = Some (ret, s7)"
    using len res s5 s7 unfolding emaczero_send_raw_frame_def Let_def
    by (simp add: tx_descriptor_def direct emz_setup_dma_tx_transfer_def)
  have put: "dat s5 = put_tx_bytes ?i f (dat s2)" using s5(2) by simp
  show ?thesis
    using queue_packet_ok [OF inv bufs room len put s7] run by auto
qed

lemma emz_send_ok:
  assumes direct: "emz_rx_direct_enabled c" and eng: "engine_ok c"
    and inv: "tx_inv (dat s)" and bufs: "tx_bufs_ok c (dat s)"
  shows "\<exists>ret s'. emz_send c pkt s = Some (ret, s') \<and> send_ok c pkt s ret s' \<and>
    send_answer c pkt ret s'"
proof -
  let ?len = "length pkt" and ?i = "tx_populated_buffer_index (dat s)"
  define s1 where "s1 = upd_perf (set32 Tx_last_len (of_nat ?len)) (upd_perf (inc64 Tx_send_calls) s)"
  have d1: "dat s1 = dat s" by (simp add: s1_def)
  note send = emz_send_def [of c pkt s, unfolded Let_def, folded s1_def [unfolded Let_def]]
  have stay: "send_ok c pkt s ret s'" if "ret \<noteq> 0" "tx_shrunk s s'" for ret s'
    using that bufs by (auto simp: send_ok_def tx_shrunk_def tx_bufs_ok_def Let_def)
  show ?thesis
  proof (cases "bad_tx_len c ?len")
    case True
    then show ?thesis
      using stay [of "- EMSGSIZE" "set_last_ret (- EMSGSIZE) s1"] tx_shrunk_refl [OF inv]
      by (simp add: send d1 set_last_ret_def tx_shrunk_def send_answer_def)
  next
    case False
    obtain r s2 where r: "emz_tx_direct_reserve c s1 = (r, s2)" by (cases "emz_tx_direct_reserve c s1")
    note res = reserve_result [OF eng _ r, unfolded d1, OF inv]
    have sh2: "tx_shrunk s s2" using res(1) d1 by (simp add: tx_shrunk_def)
    show ?thesis
    proof (cases r)
      case (Inl e)
      then show ?thesis
        using False r res(2) stay [OF _ sh2, of e]
        by (auto simp: send tx_descriptor_def direct send_answer_def)
    next
      case (Inr cur)
      with res(2) have cur: "cur = tx_populated_buffer_index (dat s2)" and room: "\<not> tx_full (dat s2)"
        using sh2 by (auto simp: tx_shrunk_def)
      show ?thesis
      proof (cases "ext_ret c Ext_net_pkt_read s2 = 0")
        case nread: False
        then show ?thesis
          using False r Inr sh2 stay [of "- EIO" "set_last_ret (- EIO)
              (upd_perf (inc64 Tx_send_read_fail) (ext_call c Ext_net_pkt_read s2))"]
          by (auto simp: send tx_descriptor_def direct set_last_ret_def tx_shrunk_def
              send_answer_def ext_ret_def)
      next
        case True
        have inv2: "tx_inv (dat s2)" and bufs2: "tx_bufs_ok c (dat s2)"
          using sh2 bufs by (simp_all add: tx_shrunk_def tx_bufs_ok_def)
        obtain s7 where run: "emz_send c pkt s = Some (0, s7)" and ok: "send_ok c pkt s2 0 s7"
          using send_after_reserve [OF direct False inv2 bufs2 room _ True, of s] r Inr cur
          by (auto simp: s1_def)
        have "send_ok c pkt s 0 s7"
          using ok sh2 by (auto simp: send_ok_def tx_shrunk_def Let_def)
        then show ?thesis using run False by (auto simp: send_answer_def)
      qed
    qed
  qed
qed

lemma raw_frame_ok:
  assumes direct: "emz_rx_direct_enabled c" and eng: "engine_ok c"
    and inv: "tx_inv (dat s)" and bufs: "tx_bufs_ok c (dat s)" and len: "\<not> bad_tx_len c (length f)"
  shows "\<exists>ret s'. emaczero_send_raw_frame c f s = Some (ret, s') \<and> send_ok c f s ret s' \<and>
    (ret = 0 \<or> ret = - ENOSPC \<and> tx_full (dat s'))"
proof -
  let ?len = "length f"
  define s1 where "s1 = upd_perf (set32 Tx_last_len (of_nat ?len)) (upd_perf (inc64 Tx_send_calls) s)"
  have d1: "dat s1 = dat s" by (simp add: s1_def)
  obtain r s2 where r: "emz_tx_direct_reserve c s1 = (r, s2)" by (cases "emz_tx_direct_reserve c s1")
  note res = reserve_result [OF eng _ r, unfolded d1, OF inv]
  have sh2: "tx_shrunk s s2" using res(1) d1 by (simp add: tx_shrunk_def)
  show ?thesis
  proof (cases r)
    case (Inl e)
    then have "emaczero_send_raw_frame c f s = Some (e, s2)"
      using len r by (simp add: emaczero_send_raw_frame_def tx_descriptor_def direct s1_def Let_def)
    then show ?thesis
      using Inl res(2) sh2 bufs
      by (auto simp: send_ok_def tx_shrunk_def tx_bufs_ok_def Let_def)
  next
    case (Inr cur)
    with res(2) have cur: "cur = tx_populated_buffer_index (dat s2)" and room: "\<not> tx_full (dat s2)"
      using sh2 by (auto simp: tx_shrunk_def)
    have "tx_inv (dat s2)" "tx_bufs_ok c (dat s2)"
      using sh2 bufs by (simp_all add: tx_shrunk_def tx_bufs_ok_def)
    from raw_after_reserve [OF direct len this room, of s]
    obtain s7 where run: "emaczero_send_raw_frame c f s = Some (0, s7)" and ok: "send_ok c f s2 0 s7"
      using r Inr cur by (auto simp: s1_def)
    have "send_ok c f s 0 s7"
      using ok sh2 by (auto simp: send_ok_def tx_shrunk_def Let_def)
    then show ?thesis using run by auto
  qed
qed

text \<open>
  C6: sending on the direct ring never overruns the ring or a buffer and always returns.
  It answers \<open>-EMSGSIZE\<close> exactly for a length of 0 or beyond the maximum, else 0,
  \<open>-ENOSPC\<close> when the ring stayed full, or \<open>-EIO\<close> when the packet could not be read. On 0 exactly one descriptor was
  queued behind those in flight, with the address of its own buffer, start and end of frame
  and the length; that buffer starts with the packet's bytes and the other buffers are
  untouched. On an error nothing was queued and no buffer was written.
\<close>
theorem emz_send_queues_once:
  assumes direct: "emz_rx_direct_enabled c" and eng: "engine_ok c"
    and inv: "tx_inv (dat s)" and bufs: "tx_bufs_ok c (dat s)"
  shows "\<exists>ret s'. emz_send c pkt s = Some (ret, s') \<and> send_ok c pkt s ret s' \<and>
    send_answer c pkt ret s'"
  using emz_send_ok [OF assms] .

section \<open>The buffer written is not in use\<close>

text \<open>Each descriptor in flight refers to the buffer of its own slot, and slots have distinct buffers.\<close>

definition tx_own :: "emaczero_data \<Rightarrow> bool" where
  "tx_own d \<longleftrightarrow> distinct (map txb_addr (tx_buffer d)) \<and>
     (\<forall>j < unat (tx_bd_inflight d). fst (tx_items d ! j) =
        txb_addr (tx_buffer d ! ((tx_completed_buffer_index d + j) mod tx_count)))"

lemma add_mod_cancel:
  fixes N :: nat
  assumes "(a + x) mod N = (b + x) mod N" and "0 < N"
  shows "(a + y) mod N = (b + y) mod N"
proof -
  have "(x + a mod N) mod N = (x + b mod N) mod N"
    using assms(1) by (simp add: mod_add_right_eq add.commute)
  then have "a mod N = b mod N"
    using mod_offset_inj [of "a mod N" N "b mod N" x] assms(2) by simp
  then show ?thesis by (metis mod_add_left_eq)
qed

lemma shrink_offset:
  assumes "tx_inv d" and "tx_inv d'" and "unat (tx_bd_inflight d') + k = unat (tx_bd_inflight d)"
    and "tx_populated_buffer_index d' = tx_populated_buffer_index d"
  shows "(tx_completed_buffer_index d' + j) mod 32 = (tx_completed_buffer_index d + (k + j)) mod 32"
proof -
  let ?n' = "unat (tx_bd_inflight d')"
  have "(tx_completed_buffer_index d' + ?n') mod 32 = ((tx_completed_buffer_index d + k) + ?n') mod 32"
    using assms by (simp add: tx_inv_def add.assoc) (metis add.commute)
  from add_mod_cancel [OF this, of j] show ?thesis by (simp add: add.assoc)
qed

text \<open>What a successful send does to the view of the ring: \<open>k\<close> descriptors retired, one queued.\<close>

definition queued_after :: "nat \<Rightarrow> emaczero_data \<Rightarrow> nat \<Rightarrow> emaczero_data \<Rightarrow> bool" where
  "queued_after k d len d' \<longleftrightarrow>
     k \<le> unat (tx_bd_inflight d) \<and> unat (tx_bd_inflight d') = unat (tx_bd_inflight d) - k + 1 \<and>
     tx_items d' = drop k (tx_items d) @
       [(txb_addr (tx_buffer d ! tx_populated_buffer_index d), tx_control len)] \<and>
     map txb_addr (tx_buffer d') = map txb_addr (tx_buffer d) \<and>
     (\<forall>j. (tx_completed_buffer_index d' + j) mod 32 = (tx_completed_buffer_index d + (k + j)) mod 32)"

lemma send_queued_after:
  assumes ok: "send_ok c pkt s 0 s'" and inv: "tx_inv (dat s)"
  shows "\<exists>k. queued_after k (dat s) (length pkt) (dat s')"
proof -
  let ?d = "dat s" and ?d' = "dat s'" and ?i = "tx_populated_buffer_index (dat s)"
  let ?n = "unat (tx_bd_inflight ?d)" and ?n' = "unat (tx_bd_inflight ?d')"
  have inv': "tx_inv ?d'" and addrs: "map txb_addr (tx_buffer ?d') = map txb_addr (tx_buffer ?d)"
    and i': "tx_populated_buffer_index ?d' = (?i + 1) mod tx_count"
    using ok by (simp_all add: send_ok_def Let_def)
  obtain k0 where k0: "tx_items ?d' = drop k0 (tx_items ?d) @
      [(txb_addr (tx_buffer ?d ! ?i), tx_control (length pkt))]"
    using ok by (auto simp: send_ok_def Let_def)
  define k where "k = min k0 ?n"
  have items: "tx_items ?d' = drop k (tx_items ?d) @ [(txb_addr (tx_buffer ?d ! ?i), tx_control (length pkt))]"
    using k0 by (simp add: k_def min_def)
  have n': "?n' = ?n - k + 1" using arg_cong [OF items, of length] by simp
  have k: "k \<le> ?n" by (simp add: k_def)
  have "(tx_completed_buffer_index ?d' + ?n') mod 32 = (?i + 1) mod 32"
    using inv' i' by (simp add: tx_inv_def)
  moreover have "(?i + 1) mod 32 = (tx_completed_buffer_index ?d + ?n + 1) mod 32"
    using inv by (simp add: tx_inv_def mod_Suc_eq)
  ultimately have e: "(tx_completed_buffer_index ?d' + ?n') mod 32 =
      ((tx_completed_buffer_index ?d + k) + ?n') mod 32"
    using k n' by simp
  have "(tx_completed_buffer_index ?d' + j) mod 32 = (tx_completed_buffer_index ?d + (k + j)) mod 32" for j
    using add_mod_cancel [OF e, of j] by (simp add: add.assoc)
  with items n' k addrs show ?thesis by (auto simp: queued_after_def)
qed

lemma own_item:
  assumes "tx_own d" and "k + j < unat (tx_bd_inflight d)"
  shows "fst (drop k (tx_items d) ! j) = txb_addr (tx_buffer d ! ((tx_completed_buffer_index d + (k + j)) mod 32))"
  using assms by (auto simp: tx_own_def)

text \<open>The next slot's buffer is not among those in flight, unless the ring is full.\<close>

lemma next_buffer_idle:
  assumes inv: "tx_inv d" and bufs: "tx_bufs_ok c d" and own: "tx_own d"
    and room: "unat (tx_bd_inflight d) < 32 + k"
  shows "txb_addr (tx_buffer d ! tx_populated_buffer_index d) \<notin> fst ` set (drop k (tx_items d))"
proof
  let ?i = "tx_populated_buffer_index d" and ?n = "unat (tx_bd_inflight d)"
  assume "txb_addr (tx_buffer d ! ?i) \<in> fst ` set (drop k (tx_items d))"
  then obtain j where j: "k + j < ?n" and eq: "fst (drop k (tx_items d) ! j) = txb_addr (tx_buffer d ! ?i)"
    by (fastforce simp: in_set_conv_nth less_diff_conv add.commute simp del: nth_drop)
  have len: "length (tx_buffer d) = 32" and i: "?i < 32" and n: "?n \<le> 32"
    using bufs inv by (simp_all add: tx_bufs_ok_def tx_inv_def)
  let ?m = "(tx_completed_buffer_index d + (k + j)) mod 32"
  have m32: "?m < 32" by simp
  have "map txb_addr (tx_buffer d) ! ?m = map txb_addr (tx_buffer d) ! ?i"
    using own_item [OF own j] eq len i m32 by (simp only: nth_map len)
  moreover have "distinct (map txb_addr (tx_buffer d))" using own by (simp add: tx_own_def)
  ultimately have "?m = ?i"
    using m32 i len by (metis length_map nth_eq_iff_index_eq)
  then have m: "?m = (tx_completed_buffer_index d + ?n) mod 32" using inv by (simp add: tx_inv_def)
  show False
  proof (cases "?n = 32")
    case True
    with m have "?m = (tx_completed_buffer_index d + 0) mod 32" by simp
    from mod_offset_inj [OF _ _ this] j True have "k + j = 0" by simp
    with room True show False by simp
  next
    case False
    with n j have lt: "k + j < 32" "?n < 32" by linarith+
    show False using mod_offset_inj [OF lt m] j by linarith
  qed
qed

lemma own_after_queueing:
  assumes inv: "tx_inv d" and bufs: "tx_bufs_ok c d" and own: "tx_own d" and q: "queued_after k d len d'"
    and len': "length (tx_buffer d') = 32"
  shows "tx_own d'"
  unfolding tx_own_def
proof (intro conjI allI impI)
  note q = q [unfolded queued_after_def]
  have addrs: "map txb_addr (tx_buffer d') = map txb_addr (tx_buffer d)" using q by blast
  then have addr: "txb_addr (tx_buffer d' ! j) = txb_addr (tx_buffer d ! j)" if "j < 32" for j
    using len' bufs that by (metis nth_map length_map)
  show "distinct (map txb_addr (tx_buffer d'))" using own addrs by (simp add: tx_own_def)
  fix j assume j: "j < unat (tx_bd_inflight d')"
  have off: "(tx_completed_buffer_index d' + j) mod 32 = (tx_completed_buffer_index d + (k + j)) mod 32"
    using q by blast
  show "fst (tx_items d' ! j) = txb_addr (tx_buffer d' ! ((tx_completed_buffer_index d' + j) mod tx_count))"
  proof (cases "k + j < unat (tx_bd_inflight d)")
    case True
    then have "j < unat (tx_bd_inflight d) - k" by simp
    with q have "tx_items d' ! j = drop k (tx_items d) ! j" by (simp add: nth_append)
    with own_item [OF own True] off show ?thesis by (simp add: addr)
  next
    case False
    with j q have "k + j = unat (tx_bd_inflight d)" by auto
    then have "(tx_completed_buffer_index d + (k + j)) mod 32 = tx_populated_buffer_index d"
      and "j = unat (tx_bd_inflight d) - k"
      using inv by (simp_all add: tx_inv_def)
    with off q inv show ?thesis by (simp add: nth_append addr populated_less)
  qed
qed

text \<open>
  C7: as long as only \<open>emz_send\<close> feeds the ring, a packet is always copied into a buffer
  that no descriptor still in flight refers to, and this stays so.
\<close>
theorem send_buffer_idle:
  assumes direct: "emz_rx_direct_enabled c" and eng: "engine_ok c"
    and inv: "tx_inv (dat s)" and bufs: "tx_bufs_ok c (dat s)" and own: "tx_own (dat s)"
    and run: "emz_send c pkt s = Some (0, s')"
  shows "\<exists>before. tx_items (dat s') = before @
      [(txb_addr (tx_buffer (dat s') ! tx_populated_buffer_index (dat s)), tx_control (length pkt))] \<and>
    txb_addr (tx_buffer (dat s') ! tx_populated_buffer_index (dat s)) \<notin> fst ` set before \<and>
    tx_own (dat s')"
proof -
  have ok: "send_ok c pkt s 0 s'" using emz_send_ok [OF direct eng inv bufs, of pkt] run by auto
  then obtain k where q: "queued_after k (dat s) (length pkt) (dat s')"
    using send_queued_after [OF _ inv] by blast
  have inv': "tx_inv (dat s')" and len': "length (tx_buffer (dat s')) = 32"
    using ok by (simp_all add: send_ok_def tx_bufs_ok_def Let_def)
  have "map txb_addr (tx_buffer (dat s')) ! tx_populated_buffer_index (dat s) =
      map txb_addr (tx_buffer (dat s)) ! tx_populated_buffer_index (dat s)"
    using q by (simp add: queued_after_def)
  then have same: "txb_addr (tx_buffer (dat s') ! tx_populated_buffer_index (dat s)) =
      txb_addr (tx_buffer (dat s) ! tx_populated_buffer_index (dat s))"
    using len' bufs populated_less [OF inv] by (simp add: tx_bufs_ok_def)
  have "unat (tx_bd_inflight (dat s)) < 32 + k"
    using q inv' by (auto simp: queued_after_def tx_inv_def)
  note idle = next_buffer_idle [OF inv bufs own this]
  show ?thesis
    using q idle own_after_queueing [OF inv bufs own q len'] same
    by (intro exI [of _ "drop k (tx_items (dat s))"]) (simp add: queued_after_def)
qed

section \<open>Concrete runs\<close>

text \<open>The small configuration with an idle TX ring at 0x9f010000 and its 32 buffers.\<close>

definition demo_tx_data :: emaczero_data where
  "demo_tx_data = (data_zero tiny_kconfig)
     \<lparr>tx_bd_ring := Some (linked_ring 0x9f010000 32), tx_bd_ring_addr := 0x9f010000,
      tx_buffer := map (\<lambda>i. \<lparr>txb_addr = 0x9f000000 + of_nat (64 * i), txb_bytes = replicate 60 0\<rparr>) [0..<32]\<rparr>"

definition demo_tx :: emz where
  "demo_tx = \<lparr>dat = demo_tx_data, tr = [], aux = aux_zero\<rparr>"

lemma demo_tx_ok:
  "emz_rx_direct_enabled quiet_ctx" "engine_ok quiet_ctx" "tx_inv (dat demo_tx)"
  "tx_bufs_ok quiet_ctx (dat demo_tx)" "tx_items (dat demo_tx) = []"
  by (auto simp: emz_rx_direct_enabled_def demo_config_def engine_ok_def quiet_env_def demo_tx_def
      demo_tx_data_def tx_inv_def tx_bufs_ok_def tx_items_def data_zero_def linked_ring_def)

lemma demo_tx_own: "tx_own (dat demo_tx)"
proof -
  have "inj_on (\<lambda>i. 0x9f000000 + of_nat (64 * i) :: u32) {0..<32}"
  proof (rule inj_onI)
    fix i j :: nat
    assume ij: "i \<in> {0..<32}" "j \<in> {0..<32}"
      "(0x9f000000 + of_nat (64 * i) :: u32) = 0x9f000000 + of_nat (64 * j)"
    then have "unat (of_nat (64 * i) :: u32) = unat (of_nat (64 * j) :: u32)" by (simp only: add_left_cancel)
    with ij(1,2) show "i = j" by (simp del: of_nat_mult)
  qed
  then have "distinct (map (\<lambda>i. 0x9f000000 + of_nat (64 * i) :: u32) [0..<32])"
    by (simp only: distinct_map distinct_upt set_upt)
  then show ?thesis
    by (simp add: tx_own_def demo_tx_def demo_tx_data_def data_zero_def comp_def del: upt_Suc)
qed

lemma demo_send: "\<exists>s'. emz_send quiet_ctx [1, 2, 3] demo_tx = Some (0, s')"
proof -
  obtain ret s' where r: "emz_send quiet_ctx [1, 2, 3] demo_tx = Some (ret, s')"
    and ok: "send_ok quiet_ctx [1, 2, 3] demo_tx ret s'" and a: "send_answer quiet_ctx [1, 2, 3] ret s'"
    using emz_send_ok [OF demo_tx_ok(1-4)] by blast
  have "ret = 0"
  proof (rule ccontr)
    assume "ret \<noteq> 0"
    then have "tx_items (dat s') = []" using ok demo_tx_ok(5) by (auto simp: send_ok_def Let_def)
    then have "unat (tx_bd_inflight (dat s')) = 0" using length_tx_items [of "dat s'"] by simp
    then show False
      using a \<open>ret \<noteq> 0\<close>
      by (simp add: send_answer_def bad_tx_len_def tx_full_def quiet_env_def unat_eq_zero)
  qed
  with r show ?thesis by blast
qed

theorem tx_reserve_bounded_witness:
  "\<exists>r s'. emz_tx_direct_reserve quiet_ctx demo_tx = (r, s') \<and> waits s' \<le> waits demo_tx + 2000"
  using tx_reserve_bounded [OF demo_tx_ok(2,3)] by blast

theorem emz_send_queues_once_witness:
  "\<exists>ret s'. emz_send quiet_ctx [1, 2, 3] demo_tx = Some (ret, s') \<and>
     send_ok quiet_ctx [1, 2, 3] demo_tx ret s'"
  using emz_send_queues_once [OF demo_tx_ok(1-4), of "[1, 2, 3]"] by blast

theorem send_buffer_idle_witness:
  "\<exists>s'. emz_send quiet_ctx [1, 2, 3] demo_tx = Some (0, s') \<and> tx_own (dat s')"
  using demo_send send_buffer_idle [OF demo_tx_ok(1-4) demo_tx_own, of "[1, 2, 3]"] by blast

end
