(* ===== verification/MacRegs.thy ===== *)
theory MacRegs
  imports EmzState Boot
begin

text \<open>
  The MAC registers of \<^verbatim>\<open>drivers/ethernet/eth_emaczero.c\<close>: register access, the speed
  field, the station address, enabling and disabling, and the configuration calls of
  Zephyr's Ethernet API.
\<close>

definition EMZ_REG_VERSION :: u32 where "EMZ_REG_VERSION = 0x00"
definition EMZ_REG_CTRL :: u32 where "EMZ_REG_CTRL = 0x04"
definition EMZ_REG_MAC_LO :: u32 where "EMZ_REG_MAC_LO = 0x0c"
definition EMZ_REG_MAC_HI :: u32 where "EMZ_REG_MAC_HI = 0x10"
definition EMZ_REG_IRQ_EN :: u32 where "EMZ_REG_IRQ_EN = 0x20"
definition EMZ_REG_IRQ_STATUS :: u32 where "EMZ_REG_IRQ_STATUS = 0x24"
definition EMZ_VERSION_VALUE :: u32 where "EMZ_VERSION_VALUE = 0x0001454d"

definition EMZ_CTRL_TX_EN :: u32 where "EMZ_CTRL_TX_EN = BIT 0"
definition EMZ_CTRL_RX_EN :: u32 where "EMZ_CTRL_RX_EN = BIT 1"
definition EMZ_CTRL_PROMISC :: u32 where "EMZ_CTRL_PROMISC = BIT 2"
definition EMZ_CTRL_SPEED_MASK :: u32 where "EMZ_CTRL_SPEED_MASK = push_bit 3 3"
definition EMZ_CTRL_FULL_DUPLEX :: u32 where "EMZ_CTRL_FULL_DUPLEX = BIT 5"
definition EMZ_IRQ_ALL :: u32 where "EMZ_IRQ_ALL = BIT 0 OR BIT 1 OR BIT 2"

section \<open>Register access\<close>

definition emz_read :: "ctx \<Rightarrow> u32 \<Rightarrow> emz \<Rightarrow> u32 \<times> emz" where
  "emz_read c reg s =
     (let a = cfg_base (cfg c) + reg in (reg_value c a s, reg_read a s))"

definition emz_write :: "ctx \<Rightarrow> u32 \<Rightarrow> u32 \<Rightarrow> emz \<Rightarrow> emz" where
  "emz_write c reg v s = reg_write (cfg_base (cfg c) + reg) v s"

definition emz_speed_field :: "u32 \<Rightarrow> u32" where
  "emz_speed_field speed = (if speed = 10 then 2 else if speed = 1000 then 0 else 1)"

definition mac_lo :: "u8 list \<Rightarrow> u32" where
  "mac_lo m = push_bit 24 (ucast (m ! 2)) OR push_bit 16 (ucast (m ! 3)) OR
     push_bit 8 (ucast (m ! 4)) OR ucast (m ! 5)"

definition mac_hi :: "u8 list \<Rightarrow> u32" where
  "mac_hi m = push_bit 8 (ucast (m ! 0)) OR ucast (m ! 1)"

definition emz_set_mac :: "ctx \<Rightarrow> u8 list \<Rightarrow> emz \<Rightarrow> emz" where
  "emz_set_mac c m s = emz_write c EMZ_REG_MAC_HI (mac_hi m) (emz_write c EMZ_REG_MAC_LO (mac_lo m) s)"

definition emz_update_ctrl :: "ctx \<Rightarrow> u32 \<Rightarrow> u32 \<Rightarrow> emz \<Rightarrow> emz" where
  "emz_update_ctrl c set_bits clear_bits s =
     (case emz_read c EMZ_REG_CTRL s of
        (ctrl, s) \<Rightarrow> emz_write c EMZ_REG_CTRL (ctrl AND NOT clear_bits OR set_bits) s)"

definition emz_start :: "ctx \<Rightarrow> emz \<Rightarrow> int \<times> emz" where
  "emz_start c s = (0, emz_update_ctrl c (EMZ_CTRL_TX_EN OR EMZ_CTRL_RX_EN) 0 s)"

definition emz_stop :: "ctx \<Rightarrow> emz \<Rightarrow> int \<times> emz" where
  "emz_stop c s = (0, emz_update_ctrl c 0 (EMZ_CTRL_TX_EN OR EMZ_CTRL_RX_EN) s)"

text \<open>What the device announces: the three speeds and promiscuous mode.\<close>

datatype ethernet_hw_caps =
    ETHERNET_LINK_10BASE | ETHERNET_LINK_100BASE | ETHERNET_LINK_1000BASE | ETHERNET_PROMISC_MODE

definition emz_get_capabilities :: "ethernet_hw_caps list" where
  "emz_get_capabilities = [ETHERNET_LINK_10BASE, ETHERNET_LINK_100BASE, ETHERNET_LINK_1000BASE,
     ETHERNET_PROMISC_MODE]"

text \<open>The eight counters \<^verbatim>\<open>emz_get_stats\<close> refreshes, read in the order of the code.\<close>

record net_stats_eth =
  bytes_sent :: u32
  bytes_received :: u32
  pkts_tx :: u32
  pkts_rx :: u32
  errors_rx :: u32
  broadcast_rx :: u32
  multicast_rx :: u32
  rx_align_errors :: u32

definition emz_get_stats :: "ctx \<Rightarrow> emz \<Rightarrow> net_stats_eth \<times> emz" where
  "emz_get_stats c s =
     (let (tx_bytes, s) = emz_read c 0x2c s;
          (rx_bytes, s) = emz_read c 0x34 s;
          (tx_frames, s) = emz_read c 0x28 s;
          (rx_frames, s) = emz_read c 0x30 s;
          (rx_err, s) = emz_read c 0x38 s;
          (bcast, s) = emz_read c 0x58 s;
          (mcast, s) = emz_read c 0x5c s;
          (align, s) = emz_read c 0x4c s
      in (\<lparr>bytes_sent = tx_bytes, bytes_received = rx_bytes, pkts_tx = tx_frames, pkts_rx = rx_frames,
           errors_rx = rx_err, broadcast_rx = bcast, multicast_rx = mcast, rx_align_errors = align\<rparr>, s))"

section \<open>Configuration\<close>

text \<open>The configuration types the driver knows; the rest of Zephyr's enum is \<open>Config_other\<close>.\<close>

datatype ethernet_config = Config_mac "u8 list" | Config_promisc bool | Config_other

datatype ethernet_config_type = Type_mac | Type_promisc | Type_other

definition emz_set_config :: "ctx \<Rightarrow> ethernet_config \<Rightarrow> emz \<Rightarrow> int \<times> emz" where
  "emz_set_config c config s =
     (case config of
        Config_mac m \<Rightarrow>
          let s = upd_dat (\<lambda>d. d\<lparr>mac := m\<rparr>) s;
              s = emz_set_mac c m s
          in (0, if iface (dat s) then emit (Set_link_addr m) s else s)
      | Config_promisc p \<Rightarrow>
          let s = upd_dat (\<lambda>d. d\<lparr>promisc := p\<rparr>) s
          in (0, emz_update_ctrl c (if p then EMZ_CTRL_PROMISC else 0) (if p then 0 else EMZ_CTRL_PROMISC) s)
      | Config_other \<Rightarrow> (- ENOTSUP, s))"

definition emz_get_config :: "ethernet_config_type \<Rightarrow> emz \<Rightarrow> int \<times> ethernet_config" where
  "emz_get_config ty s =
     (case ty of
        Type_mac \<Rightarrow> (0, Config_mac (mac (dat s)))
      | Type_promisc \<Rightarrow> (0, Config_promisc (promisc (dat s)))
      | Type_other \<Rightarrow> (- ENOTSUP, Config_other))"

text \<open>\<^verbatim>\<open>emz_iface_init\<close>: bind the interface and give it the address.\<close>

definition emz_iface_init :: "emz \<Rightarrow> emz" where
  "emz_iface_init s =
     (let s = upd_dat (\<lambda>d. d\<lparr>iface := True\<rparr>) s in emit (Set_link_addr (mac (dat s))) s)"

text \<open>
  \<^verbatim>\<open>emaczero_set_rx_interceptor\<close>: the barrier orders the user data before the function.
\<close>

definition emaczero_set_rx_interceptor :: "bool \<Rightarrow> rx_interceptor_fn option \<Rightarrow> emz \<Rightarrow> int \<times> emz" where
  "emaczero_set_rx_interceptor bound f s =
     (if \<not> bound then (- ENODEV, s)
      else (0, upd_dat (\<lambda>d. d\<lparr>rx_interceptor := f\<rparr>) (emit Dmem_fence s)))"

section \<open>What the registers hold\<close>

text \<open>The station address read back from the two register words.\<close>

definition mac_of_regs :: "u32 \<Rightarrow> u32 \<Rightarrow> u8 list" where
  "mac_of_regs hi lo = [ucast (drop_bit 8 hi), ucast hi, ucast (drop_bit 24 lo), ucast (drop_bit 16 lo),
     ucast (drop_bit 8 lo), ucast lo]"

lemma mac_of_regs_mac:
  assumes "length m = 6"
  shows "mac_of_regs (mac_hi m) (mac_lo m) = m"
proof -
  obtain a b x y z w where m: "m = [a, b, x, y, z, w]"
    using assms by (auto simp: length_Suc_conv numeral_eq_Suc)
  have "(ucast (drop_bit 8 (push_bit 8 (ucast a) OR ucast b :: u32)) :: u8) = a"
    by (rule bit_word_eqI) (auto simp: bit_simps dest: bit_imp_le_length)
  moreover have "(ucast (push_bit 8 (ucast a) OR ucast b :: u32) :: u8) = b"
    by (rule bit_word_eqI) (auto simp: bit_simps)
  moreover have "(ucast (drop_bit 24 (push_bit 24 (ucast x) OR push_bit 16 (ucast y) OR
      push_bit 8 (ucast z) OR ucast w :: u32)) :: u8) = x"
    by (rule bit_word_eqI) (auto simp: bit_simps dest: bit_imp_le_length)
  moreover have "(ucast (drop_bit 16 (push_bit 24 (ucast x) OR push_bit 16 (ucast y) OR
      push_bit 8 (ucast z) OR ucast w :: u32)) :: u8) = y"
    by (rule bit_word_eqI) (auto simp: bit_simps dest: bit_imp_le_length)
  moreover have "(ucast (drop_bit 8 (push_bit 24 (ucast x) OR push_bit 16 (ucast y) OR
      push_bit 8 (ucast z) OR ucast w :: u32)) :: u8) = z"
    by (rule bit_word_eqI) (auto simp: bit_simps dest: bit_imp_le_length)
  moreover have "(ucast (push_bit 24 (ucast x) OR push_bit 16 (ucast y) OR push_bit 8 (ucast z) OR
      ucast w :: u32) :: u8) = w"
    by (rule bit_word_eqI) (auto simp: bit_simps)
  ultimately show ?thesis by (simp add: m mac_of_regs_def mac_hi_def mac_lo_def)
qed

lemma bit_promisc: "bit EMZ_CTRL_PROMISC n \<longleftrightarrow> n = 2"
  unfolding EMZ_CTRL_PROMISC_def bit_push_bit_iff by (auto simp: bit_1_iff)

text \<open>
  C38: configuring a station address stores it, writes exactly the two address registers,
  from which the address can be read back, tells a bound interface, and a later query
  returns it; promiscuous mode changes its bit of the control register and no other.
\<close>
theorem config_round_trip:
  fixes c :: ctx and s :: emz and p :: bool
  assumes "length m = 6"
  defines "s1 \<equiv> snd (emz_set_config c (Config_mac m) s)"
    and "s2 \<equiv> snd (emz_set_config c (Config_promisc p) s)"
    and "base \<equiv> cfg_base (cfg c)"
    and "ctrl \<equiv> reg_value c (cfg_base (cfg c) + EMZ_REG_CTRL) (upd_dat (\<lambda>d. d\<lparr>promisc := p\<rparr>) s)"
  shows "emz_get_config Type_mac s1 = (0, Config_mac m)
    \<and> (\<exists>hi lo. tr s1 = (if iface (dat s) then [Set_link_addr m] else []) @
         [Mmio_write (base + EMZ_REG_MAC_HI) hi, Mmio_write (base + EMZ_REG_MAC_LO) lo] @ tr s
         \<and> mac_of_regs hi lo = m)
    \<and> emz_get_config Type_promisc s2 = (0, Config_promisc p)
    \<and> (\<exists>v. hd (tr s2) = Mmio_write (base + EMZ_REG_CTRL) v \<and>
         (\<forall>n. bit v n = (if n = 2 then p else bit ctrl n)))"
proof (intro conjI)
  show "emz_get_config Type_mac s1 = (0, Config_mac m)"
    by (simp add: s1_def emz_set_config_def emz_get_config_def Let_def emz_set_mac_def emz_write_def)
  show "\<exists>hi lo. tr s1 = (if iface (dat s) then [Set_link_addr m] else []) @
         [Mmio_write (base + EMZ_REG_MAC_HI) hi, Mmio_write (base + EMZ_REG_MAC_LO) lo] @ tr s
         \<and> mac_of_regs hi lo = m"
    using mac_of_regs_mac [OF assms(1)]
    by (intro exI [of _ "mac_hi m"] exI [of _ "mac_lo m"])
      (simp add: s1_def base_def emz_set_config_def Let_def emz_set_mac_def emz_write_def)
  show "emz_get_config Type_promisc s2 = (0, Config_promisc p)"
    by (simp add: s2_def emz_set_config_def emz_get_config_def Let_def emz_update_ctrl_def
        emz_write_def emz_read_def)
  let ?v = "ctrl AND NOT (if p then 0 else EMZ_CTRL_PROMISC) OR (if p then EMZ_CTRL_PROMISC else 0)"
  have "bit ?v n = (if n = 2 then p else bit ctrl n)" for n
    by (cases "n < 32") (auto simp: bit_promisc bit_and_iff bit_or_iff bit_not_iff dest: bit_imp_le_length)
  moreover have "hd (tr s2) = Mmio_write (base + EMZ_REG_CTRL) ?v"
    by (simp add: s2_def base_def ctrl_def emz_set_config_def Let_def emz_update_ctrl_def
        emz_write_def emz_read_def)
  ultimately show "\<exists>v. hd (tr s2) = Mmio_write (base + EMZ_REG_CTRL) v \<and>
      (\<forall>n. bit v n = (if n = 2 then p else bit ctrl n))" by blast
qed

theorem config_round_trip_witness:
  "emz_get_config Type_mac (snd (emz_set_config quiet_ctx (Config_mac [2, 0, 0, 0, 0, 9]) (emz_zero tiny_kconfig)))
     = (0, Config_mac [2, 0, 0, 0, 0, 9])"
  using config_round_trip [of "[2, 0, 0, 0, 0, 9]" quiet_ctx "emz_zero tiny_kconfig" True] by simp

end
