(* ===== verification/Init.thy ===== *)
theory Init
  imports RxRing TxSafety MacRegs
begin

text \<open>
  \<^verbatim>\<open>emz_init\<close> of \<^verbatim>\<open>drivers/ethernet/eth_emaczero.c\<close>, in the order of the source: probe
  the MAC, give the buffers their memory, fill the pool, program the MAC, start the RX
  ring and then the TX ring. The main theorem says that a successful initialisation leaves
  every invariant of the development in place.
\<close>

section \<open>The steps\<close>

definition set_rx_addrs :: "u32 list \<Rightarrow> emaczero_data \<Rightarrow> emaczero_data" where
  "set_rx_addrs ps d = d\<lparr>rx_buffer := map (\<lambda>i. if i < length ps then (rx_buffer d ! i)\<lparr>rxb_addr := ps ! i\<rparr>
     else rx_buffer d ! i) [0..<length (rx_buffer d)]\<rparr>"

definition set_tx_addrs :: "u32 list \<Rightarrow> emaczero_data \<Rightarrow> emaczero_data" where
  "set_tx_addrs ps d = d\<lparr>tx_buffer := map (\<lambda>i. if i < length ps then (tx_buffer d ! i)\<lparr>txb_addr := ps ! i\<rparr>
     else tx_buffer d ! i) [0..<length (tx_buffer d)]\<rparr>"

text \<open>
  The buffers' memory: from the DMA window when there is one, else the static storage,
  whose addresses the linker chooses (\<open>storage\<close>). The flag is whether nothing was \<^verbatim>\<open>NULL\<close>.
\<close>

definition init_memory ::
  "ctx \<Rightarrow> (nat \<Rightarrow> u32) \<times> (nat \<Rightarrow> u32) \<Rightarrow> dma_mem \<Rightarrow> emz \<Rightarrow> bool \<times> dma_mem \<times> emz" where
  "init_memory c storage m s =
     (if dma_memory_size (kc c) \<noteq> 0 then
        let m = emz_sg_mem_reset (kc c) (emz_dma_mem_reset (kc c) m);
            s = (if cfg_r7_instrumentation (kc c)
                 then upd_perf (set32 R7_hz (sys_clock_hz (kc c))) (upd_perf (set32 R7_magic 0x50524632) s)
                 else s)
        in case emz_alloc_buffers (rx_count c) (eth_buffer_size c) m of
             (rx, m) \<Rightarrow>
               let s = upd_dat (set_rx_addrs rx) s
               in if 0 \<in> set rx then (False, m, s)
                  else case emz_alloc_buffers tx_count (eth_buffer_size c) m of
                    (tx, m) \<Rightarrow> (0 \<notin> set tx, m, upd_dat (set_tx_addrs tx) s)
      else
        (True, m, upd_dat (\<lambda>d. set_tx_addrs (map (snd storage) [0..<tx_count])
           (set_rx_addrs (map (fst storage) [0..<rx_count c]) d)) s))"

definition fill_pool :: "ctx \<Rightarrow> emaczero_data \<Rightarrow> emaczero_data" where
  "fill_pool c d = d\<lparr>rx_free_fifo := rx_free_fifo d @ [0..<rx_count c],
     rx_free_count := of_nat (rx_count c), rx_dma_fifo_count := 0, rx_ready_fifo_count := 0,
     rx_worker_count := 0, rx_stack_owned_count := 0\<rparr>"

definition init_pool :: "ctx \<Rightarrow> emz \<Rightarrow> emz" where
  "init_pool c s =
     (let s = upd_dat (fill_pool c) s;
          s = upd_perf (set32 Rx_pool_size (of_nat (rx_count c))) s;
          s = upd_perf (set32 Rx_min_free 0xffffffff) s;
          s = emz_perf_update_pool_inflight c s
      in upd_prof c emaczero_profile_reset s)"

definition init_mac :: "ctx \<Rightarrow> emz \<Rightarrow> emz" where
  "init_mac c s =
     (let s = emz_set_mac c (mac (dat s)) s;
          ctrl = EMZ_CTRL_TX_EN OR EMZ_CTRL_RX_EN OR EMZ_CTRL_FULL_DUPLEX OR
            (push_bit 3 (emz_speed_field (cfg_speed (cfg c))) AND EMZ_CTRL_SPEED_MASK);
          s = emz_write c EMZ_REG_CTRL ctrl s;
          s = emz_write c EMZ_REG_IRQ_EN 0 s
      in emz_write c EMZ_REG_IRQ_STATUS EMZ_IRQ_ALL s)"

definition init_dma :: "ctx \<Rightarrow> dma_mem \<Rightarrow> emz \<Rightarrow> int \<times> dma_mem \<times> emz" where
  "init_dma c m s =
     (if \<not> cfg_dma (cfg c) then (0, m, s)
      else if emz_rx_direct_enabled c then
        (case emz_rx_direct_start c m s of
           (ret, m, s) \<Rightarrow>
             if ret < 0 then (ret, m, s)
             else case emz_tx_direct_start c m s of
               (ret, m, s) \<Rightarrow> if ret \<noteq> 0 then (ret, m, s) else (0, m, s))
      else
        (case emz_refill_dma_rx c s of (ret, s) \<Rightarrow> (if ret < 0 then ret else 0, m, s)))"

text \<open>
  The start of \<^verbatim>\<open>emz_init\<close> after the probe: identity, trace sentinels, empty queues. The
  RX thread created between the pool and the MAC starts in the system of the worker theory.
\<close>

definition init_identity :: "ctx \<Rightarrow> emz \<Rightarrow> emz" where
  "init_identity c s =
     (let s = upd_dat (\<lambda>d. d\<lparr>mac := cfg_mac (cfg c)\<rparr>) s;
          s = upd_perf (set32 Rx_ext_magic 0x52584542) s;
          s = upd_perf (set32 Tx_ext_magic 0x54584542) s
      in upd_dat (\<lambda>d. d\<lparr>rx_free_fifo := [], rx_dma_fifo := [], rx_ready_fifo := []\<rparr>) s)"

definition emz_init ::
  "ctx \<Rightarrow> (nat \<Rightarrow> u32) \<times> (nat \<Rightarrow> u32) \<Rightarrow> dma_mem \<Rightarrow> emz \<Rightarrow> int \<times> dma_mem \<times> emz" where
  "emz_init c storage m s =
     (case emz_read c EMZ_REG_VERSION s of
        (version, s) \<Rightarrow>
          if version \<noteq> EMZ_VERSION_VALUE then (- ENODEV, m, s)
          else case init_memory c storage m (init_identity c s) of
            (ok, m, s) \<Rightarrow>
              if \<not> ok then (- ENOMEM, m, s)
              else init_dma c m (init_mac c (init_pool c s)))"

section \<open>The state before the rings\<close>

lemma init_frames [simp]:
  "dat (init_identity c s) = (dat s)\<lparr>mac := cfg_mac (cfg c), rx_free_fifo := [], rx_dma_fifo := [],
     rx_ready_fifo := []\<rparr>"
  "dat (init_pool c s) = fill_pool c (dat s)"
  "dat (init_mac c s) = dat s"
  by (simp_all add: init_identity_def init_pool_def init_mac_def emz_set_mac_def emz_write_def Let_def)

lemma set_addrs_length [simp]:
  "length (rx_buffer (set_rx_addrs ps d)) = length (rx_buffer d)"
  "length (tx_buffer (set_tx_addrs ps d)) = length (tx_buffer d)"
  by (simp_all add: set_rx_addrs_def set_tx_addrs_def)

lemma set_rx_addrs_bytes:
  "b \<in> set (rx_buffer (set_rx_addrs ps d)) \<Longrightarrow> \<exists>b' \<in> set (rx_buffer d).
     rxb_bytes b = rxb_bytes b' \<and> rxb_len b = rxb_len b'"
  by (fastforce simp: set_rx_addrs_def intro: nth_mem)

lemma set_tx_addrs_bytes:
  "b \<in> set (tx_buffer (set_tx_addrs ps d)) \<Longrightarrow> \<exists>b' \<in> set (tx_buffer d). txb_bytes b = txb_bytes b'"
  by (fastforce simp: set_tx_addrs_def intro: nth_mem)

lemma set_tx_addrs_addrs:
  "length ps = length (tx_buffer d) \<Longrightarrow> map txb_addr (tx_buffer (set_tx_addrs ps d)) = ps"
  by (rule nth_equalityI) (auto simp: set_tx_addrs_def)

text \<open>
  The pool is full, the ring empty: what \<open>rx_inv\<close> needs before the first refill, from any
  state whose ring fields are still those of the zeroed image.
\<close>

definition fresh_ring :: "ctx \<Rightarrow> emaczero_data \<Rightarrow> bool" where
  "fresh_ring c d \<longleftrightarrow> rx_bd_buffer d = replicate (rx_count c) None \<and> rx_bd_consume_index d = 0 \<and>
     rx_bd_refill_index d = 0 \<and> rx_bd_posted d = 0 \<and> rx_dma_inflight d = 0 \<and> buffers_ok c d"

lemma fresh_pool_inv:
  assumes "kconfig_ok (kc c)" and "fresh_ring c d"
  shows "rx_inv c [] [] [] ((fill_pool c (d\<lparr>rx_free_fifo := [], rx_ready_fifo := []\<rparr>))
    \<lparr>rx_bd_ring_addr := base, rx_bd_ring := linked_ring base (rx_count c)\<rparr>)"
  using assms rx_cap_small [OF assms(1)]
  by (auto simp: rx_inv_def ring_inv_def fresh_ring_def fill_pool_def buffers_ok_def bds_ok_def
      owned_def posted_buffers_def slots_ok_def linked_ring_def)

lemma zero_fresh:
  assumes "kconfig_ok (kc c)"
  shows "fresh_ring c (data_zero (kc c))"
  by (simp add: fresh_ring_def data_zero_def buffers_ok_def rx_buffer_zero_def)

lemma direct_start_dat:
  assumes "emz_rx_direct_start c m s = (ret, m', s')" and "0 \<le> ret"
    and "\<And>base. rx_inv c [] [] [] ((dat s)\<lparr>rx_bd_ring_addr := base,
      rx_bd_ring := linked_ring base (rx_count c)\<rparr>)"
  shows "\<exists>base. dat s' = (d_refill c ((dat s)\<lparr>rx_bd_ring_addr := base,
      rx_bd_ring := linked_ring base (rx_count c)\<rparr>))\<lparr>rx_direct_ring_started := True\<rparr>
    \<and> ret = int (refill_amount c (dat s))"
proof -
  obtain base m1 where b: "emz_sg_mem_alloc (kc c) 64 (bd_size * of_nat (rx_count c)) m = (Some base, m1)"
    using assms(1,2) by (auto simp: emz_rx_direct_start_def split: prod.splits option.splits)
  define t where "t = emz_perf_set_bd_available c (upd_perf (set32 Rx_bd_available_min 0xffffffff)
    (emz_dma_cache_flush c base (bd_size * of_nat (rx_count c)) (upd_dat (\<lambda>d. d\<lparr>rx_bd_ring_addr := base,
      rx_bd_ring := linked_ring base (rx_count c)\<rparr>) s)))"
  have dt: "dat t = (dat s)\<lparr>rx_bd_ring_addr := base, rx_bd_ring := linked_ring base (rx_count c)\<rparr>"
    by (simp add: t_def)
  obtain queued u where u: "emz_rx_direct_refill c t = (queued, u)" by (cases "emz_rx_direct_refill c t")
  have inv: "rx_inv c [] [] [] (dat t)" using assms(3) dt by simp
  have "queued = int (refill_amount c (dat t))"
    using u refill_loop_count [OF inv, of 0] by (auto simp: emz_rx_direct_refill_def split: prod.splits)
  moreover have "dat u = d_refill c (dat t)" using direct_refill_dat [of c t] u by simp
  ultimately show ?thesis
    using assms(1,2) b u
    by (auto simp: emz_rx_direct_start_def Let_def t_def [symmetric] dt refill_amount_def
        intro!: exI [of _ base] split: if_splits)
qed

section \<open>The memory of the buffers\<close>

lemma init_buffers_distinct:
  assumes win: "dma_window_ok k" and sz: "0 < unat sz" "unat sz < 2 ^ 31"
    and rx: "emz_alloc_buffers n sz (emz_sg_mem_reset k (emz_dma_mem_reset k m)) = (ps, m1)" "0 \<notin> set ps"
    and tx: "emz_alloc_buffers t sz m1 = (qs, m2)" "0 \<notin> set qs"
  shows "length ps = n" and "length qs = t" and "distinct qs"
proof -
  let ?m = "emz_sg_mem_reset k (emz_dma_mem_reset k m)"
  have sg: "emz_dma_mem_cursor ?m = emz_dma_mem_cursor (emz_dma_mem_reset k m)"
    "emz_dma_mem_end ?m = emz_dma_mem_end (emz_dma_mem_reset k m)"
    by (simp_all add: emz_sg_mem_reset_def)
  note w = dma_reset_window(1,2) [OF win, of m, folded sg]
  note a1 = alloc_buffers_seq [OF rx] and a2 = alloc_buffers_seq [OF tx]
  have lim: "unat (emz_dma_mem_end ?m) + 64 \<le> 2 ^ 32" and cur: "unat (emz_dma_mem_cursor ?m) \<le> unat (emz_dma_mem_end ?m)"
    using win unfolding w dma_window_ok_def by arith+
  have req: "\<forall>(a, l) \<in> set (replicate j (64 :: u32, sz)). 0 < unat a \<and> unat (emz_dma_mem_end x) + unat a \<le> 2 ^ 32 \<and>
      unat l + unat a \<le> 2 ^ 32" if "emz_dma_mem_end x = emz_dma_mem_end ?m" for j x
    using lim sz that by auto
  have b1: "emz_dma_mem_end m1 = emz_dma_mem_end ?m"
    "unat (emz_dma_mem_cursor m1) \<le> unat (emz_dma_mem_end m1)"
    using dma_pool.alloc_seq_blocks [OF conjunct1 [OF a1] req [OF refl] cur] by auto
  have "sorted_wrt block_before (map (\<lambda>p. (p, sz)) qs)"
    using dma_pool.alloc_seq_blocks [OF conjunct1 [OF a2] req [OF b1(1)] b1(2)] by blast
  then have "distinct (map fst (map (\<lambda>p. (p, sz)) qs))"
    by (rule blocks_distinct) (use sz in auto)
  then show "distinct qs" by (simp add: comp_def)
  show "length ps = n" "length qs = t" using a1 a2 by blast+
qed

lemma tx_start_ok:
  assumes "emz_tx_direct_start c m s = (0, m', s')"
  shows "tx_inv (dat s')" and "tx_items (dat s') = []" and "tx_bd_inflight (dat s') = 0"
    and "\<exists>r a. dat s' = (dat s)\<lparr>tx_bd_ring := r, tx_bd_ring_addr := a, tx_populated_buffer_index := 0,
      tx_completed_buffer_index := 0, tx_bd_inflight := 0, dma_is_configured_tx := True\<rparr>"
proof -
  obtain base where d: "dat s' = (dat s)\<lparr>tx_bd_ring := Some (linked_ring base tx_count), tx_bd_ring_addr := base,
      tx_populated_buffer_index := 0, tx_completed_buffer_index := 0, tx_bd_inflight := 0,
      dma_is_configured_tx := True\<rparr>"
    using assms by (auto simp: emz_tx_direct_start_def Let_def emz_dma_write_def split: prod.splits option.splits)
  show "tx_inv (dat s')" "tx_items (dat s') = []" "tx_bd_inflight (dat s') = 0"
    unfolding d by (simp_all add: tx_inv_def tx_items_def linked_ring_def)
  show "\<exists>r a. dat s' = (dat s)\<lparr>tx_bd_ring := r, tx_bd_ring_addr := a, tx_populated_buffer_index := 0,
      tx_completed_buffer_index := 0, tx_bd_inflight := 0, dma_is_configured_tx := True\<rparr>"
    using d by blast
qed

text \<open>RX operations see none of the fields of the TX side, and the other way round.\<close>

lemma rx_inv_tx [simp]:
  "rx_inv c W K H (d\<lparr>tx_bd_ring := r\<rparr>) = rx_inv c W K H d"
  "rx_inv c W K H (d\<lparr>tx_bd_ring_addr := a\<rparr>) = rx_inv c W K H d"
  "rx_inv c W K H (d\<lparr>tx_populated_buffer_index := i\<rparr>) = rx_inv c W K H d"
  "rx_inv c W K H (d\<lparr>tx_completed_buffer_index := i\<rparr>) = rx_inv c W K H d"
  "rx_inv c W K H (d\<lparr>tx_bd_inflight := n\<rparr>) = rx_inv c W K H d"
  "rx_inv c W K H (d\<lparr>dma_is_configured_tx := b\<rparr>) = rx_inv c W K H d"
  by (simp_all add: rx_inv_def ring_inv_def owned_def posted_buffers_def buffers_ok_def bds_ok_def)

lemma d_refill_tx [simp]:
  "tx_buffer (d_refill c d) = tx_buffer d" "mac (d_refill c d) = mac d"
  "rx_direct_ring_started (d_refill c d) = rx_direct_ring_started d"
proof (induction c d rule: d_refill.induct)
  case (1 c d)
  { case 1 then show ?case using "1.IH"(1) by (cases "rx_free_fifo d") (simp_all add: d_refill.simps [of c d] d_post_def Let_def) }
  { case 2 then show ?case using "1.IH"(2) by (cases "rx_free_fifo d") (simp_all add: d_refill.simps [of c d] d_post_def Let_def) }
  { case 3 then show ?case using "1.IH"(3) by (cases "rx_free_fifo d") (simp_all add: d_refill.simps [of c d] d_post_def Let_def) }
qed

lemma init_memory_ok:
  assumes k: "kconfig_ok (kc c)" and dma: "dma_memory_size (kc c) \<noteq> 0" and win: "dma_window_ok (kc c)"
    and fresh: "fresh_ring c (dat s)" and bufs: "tx_bufs_ok c (dat s)"
    and run: "init_memory c storage m s = (True, m', s')"
  shows "fresh_ring c (dat s')" and "tx_bufs_ok c (dat s')" and "distinct (map txb_addr (tx_buffer (dat s')))"
    and "mac (dat s') = mac (dat s)" and "rx_free_fifo (dat s') = rx_free_fifo (dat s)"
    and "rx_ready_fifo (dat s') = rx_ready_fifo (dat s)"
proof -
  obtain ps m1 qs where rx: "emz_alloc_buffers (rx_count c) (eth_buffer_size c)
      (emz_sg_mem_reset (kc c) (emz_dma_mem_reset (kc c) m)) = (ps, m1)" "0 \<notin> set ps"
    and tx: "emz_alloc_buffers tx_count (eth_buffer_size c) m1 = (qs, m')" "0 \<notin> set qs"
    and d: "dat s' = set_tx_addrs qs (set_rx_addrs ps (dat s))"
    using run dma by (auto simp: init_memory_def Let_def split: prod.splits if_splits)
  have sz: "0 < unat (eth_buffer_size c)" "unat (eth_buffer_size c) < 2 ^ 31"
    using k by (simp_all add: kconfig_ok_def)
  note dist = init_buffers_distinct [OF win sz rx tx]
  have lt: "length (tx_buffer (dat s)) = tx_count" using bufs by (simp add: tx_bufs_ok_def)
  show "fresh_ring c (dat s')"
    using fresh set_rx_addrs_bytes [of _ ps "dat s"]
    by (fastforce simp: d fresh_ring_def set_tx_addrs_def set_rx_addrs_def buffers_ok_def)
  show "tx_bufs_ok c (dat s')"
    using bufs set_tx_addrs_bytes [of _ qs "set_rx_addrs ps (dat s)"]
    by (fastforce simp: d tx_bufs_ok_def set_rx_addrs_def)
  have "tx_buffer (set_rx_addrs ps (dat s)) = tx_buffer (dat s)" by (simp add: set_rx_addrs_def)
  then show "distinct (map txb_addr (tx_buffer (dat s')))"
    using set_tx_addrs_addrs [of qs "set_rx_addrs ps (dat s)"] dist lt d by simp
  show "mac (dat s') = mac (dat s)" "rx_free_fifo (dat s') = rx_free_fifo (dat s)"
    "rx_ready_fifo (dat s') = rx_ready_fifo (dat s)"
    by (simp_all add: d set_tx_addrs_def set_rx_addrs_def)
qed

lemma fresh_start_ok:
  assumes k: "kconfig_ok (kc c)" and fresh: "fresh_ring c d"
    and s: "dat s = fill_pool c (d\<lparr>rx_free_fifo := [], rx_ready_fifo := []\<rparr>)"
    and run: "emz_rx_direct_start c m s = (ret, m', s')" "0 \<le> ret"
  shows "rx_inv c [] [] [] (dat s')" and "posted_buffers (dat s') = [0..<rx_cap c]"
    and "rx_direct_ring_started (dat s')" and "tx_buffer (dat s') = tx_buffer d" and "mac (dat s') = mac d"
proof -
  have inv: "rx_inv c [] [] [] ((dat s)\<lparr>rx_bd_ring_addr := base,
      rx_bd_ring := linked_ring base (rx_count c)\<rparr>)" for base
    unfolding s by (rule fresh_pool_inv [OF k fresh])
  obtain base where d: "dat s' = (d_refill c ((dat s)\<lparr>rx_bd_ring_addr := base,
      rx_bd_ring := linked_ring base (rx_count c)\<rparr>))\<lparr>rx_direct_ring_started := True\<rparr>"
    using direct_start_dat [OF run inv] by blast
  let ?d = "(dat s)\<lparr>rx_bd_ring_addr := base, rx_bd_ring := linked_ring base (rx_count c)\<rparr>"
  show "rx_inv c [] [] [] (dat s')" using d_refill_inv [OF inv [of base]] by (simp add: d)
  have "posted_buffers ?d = []" "rx_free_fifo ?d = [0..<rx_count c]" "rx_bd_posted ?d = 0"
    using fresh by (simp_all add: s fill_pool_def posted_buffers_def fresh_ring_def)
  then have "posted_buffers (d_refill c ?d) = [0..<rx_cap c]"
    using d_refill_effect(1) [OF inv [of base]] rx_cap_small(2) [OF k]
    by (simp add: refill_amount_def take_upt min_absorb2)
  then show "posted_buffers (dat s') = [0..<rx_cap c]" by (simp add: d posted_buffers_def)
  show "rx_direct_ring_started (dat s')" "tx_buffer (dat s') = tx_buffer d" "mac (dat s') = mac d"
    by (simp_all add: d s fill_pool_def)
qed

text \<open>
  C8: an initialisation that succeeds leaves the driver in order: every RX buffer is free
  or posted, the first ones posted in order on a running ring, the five owner counters
  right, the TX ring empty with 32 buffers at distinct addresses, each of full size, and
  the configured station address in place.
\<close>
theorem init_establishes_invariants:
  assumes k: "kconfig_ok (kc c)" and dma: "cfg_dma (cfg c)" and direct: "emz_rx_direct_enabled c"
    and win: "dma_window_ok (kc c)" and zero: "dat s = data_zero (kc c)"
    and run: "emz_init c storage m s = (0, m', s')"
  shows "rx_inv c [] [] [] (dat s') \<and> posted_buffers (dat s') = [0..<rx_cap c] \<and>
    rx_direct_ring_started (dat s') \<and> tx_inv (dat s') \<and> tx_items (dat s') = [] \<and>
    tx_bufs_ok c (dat s') \<and> tx_own (dat s') \<and> mac (dat s') = cfg_mac (cfg c)"
proof -
  have size: "dma_memory_size (kc c) \<noteq> 0"
    using k direct by (simp add: kconfig_ok_def emz_rx_direct_enabled_def)
  obtain m1 s1 where mem: "init_memory c storage m
      (init_identity c (snd (emz_read c EMZ_REG_VERSION s))) = (True, m1, s1)"
    and dma_run: "init_dma c m1 (init_mac c (init_pool c s1)) = (0, m', s')"
    using run by (auto simp: emz_init_def split: prod.splits if_splits)
  let ?s0 = "init_identity c (snd (emz_read c EMZ_REG_VERSION s))"
  have d0: "dat ?s0 = (data_zero (kc c))\<lparr>mac := cfg_mac (cfg c), rx_free_fifo := [], rx_dma_fifo := [],
      rx_ready_fifo := []\<rparr>"
    using zero by (simp add: emz_read_def Let_def)
  have fresh0: "fresh_ring c (dat ?s0)" and bufs0: "tx_bufs_ok c (dat ?s0)"
    using zero_fresh [OF k] unfolding d0
    by (simp_all add: fresh_ring_def buffers_ok_def tx_bufs_ok_def data_zero_def tx_buffer_zero_def)
  note mo = init_memory_ok [OF k size win fresh0 bufs0 mem]
  define s2 where "s2 = init_mac c (init_pool c s1)"
  have empty: "rx_free_fifo (dat s1) = []" "rx_ready_fifo (dat s1) = []" using mo(5,6) d0 by simp_all
  have d2: "dat s2 = fill_pool c ((dat s1)\<lparr>rx_free_fifo := [], rx_ready_fifo := []\<rparr>)"
  proof -
    have "(dat s1)\<lparr>rx_free_fifo := [], rx_ready_fifo := []\<rparr> = dat s1"
      by (rule emaczero_data.equality) (simp_all add: empty)
    then show ?thesis by (simp add: s2_def)
  qed
  obtain ret m3 s3 m4 where rx: "emz_rx_direct_start c m1 s2 = (ret, m3, s3)" "0 \<le> ret"
    and tx: "emz_tx_direct_start c m3 s3 = (0, m4, s')"
    using dma_run dma direct by (auto simp: init_dma_def s2_def [symmetric] split: prod.splits if_splits)
  note rx_ok = fresh_start_ok [OF k mo(1) d2 rx]
  obtain r a where d': "dat s' = (dat s3)\<lparr>tx_bd_ring := r, tx_bd_ring_addr := a,
      tx_populated_buffer_index := 0, tx_completed_buffer_index := 0, tx_bd_inflight := 0,
      dma_is_configured_tx := True\<rparr>"
    using tx_start_ok(4) [OF tx] by blast
  have "tx_bufs_ok c (dat s')" using mo(2) rx_ok(4) by (simp add: d' tx_bufs_ok_def)
  moreover have "tx_own (dat s')" using mo(3) rx_ok(4) tx_start_ok(3) [OF tx] by (simp add: d' tx_own_def)
  moreover have "mac (dat s') = cfg_mac (cfg c)" using rx_ok(5) mo(4) d0 by (simp add: d')
  moreover have "rx_direct_ring_started (dat s')" using rx_ok(3) by (simp add: d')
  moreover have "rx_inv c [] [] [] (dat s')" using rx_ok(1) by (simp add: d')
  moreover have "posted_buffers (dat s') = [0..<rx_cap c]" using rx_ok(2) by (simp add: d' posted_buffers_def)
  ultimately show ?thesis using tx_start_ok(1,2) [OF tx] by blast
qed

section \<open>A concrete start\<close>

text \<open>
  The small configuration with a MAC that answers the version probe. Its 60-byte buffers
  take one 64-byte line each, so the pool hands out consecutive lines.
\<close>

lemma alloc_line:
  fixes p q :: u32
  assumes "unat p = 64 * j" and "unat q = 64 * Suc j" and "0 < j" and "j < 2 ^ 26 - 2"
    and "emz_dma_mem_cursor m = p" and "q \<le> emz_dma_mem_end m"
  shows "emz_dma_mem_alloc 64 60 m = (Some p, m\<lparr>emz_dma_mem_cursor := q\<rparr>)"
proof -
  have p60: "unat (p + 60) = 64 * j + 60"
    using assms(1,4) by (subst unat_add_no_wrap) simp_all
  have "unat (ROUND_UP p 64) = unat p"
    using assms(4) by (subst unat_ROUND_UP) (simp_all add: assms(1))
  then have 1: "ROUND_UP p 64 = p" by (simp only: unsigned_word_eqI)
  have "unat (ROUND_UP (p + 60) 64) = unat q"
    using assms(4) by (subst unat_ROUND_UP) (simp_all add: p60 assms(2))
  then have 2: "ROUND_UP (p + 60) 64 = q" by (simp only: unsigned_word_eqI)
  have "p \<noteq> 0" using assms(1,3) by auto
  moreover have "\<not> q < p" unfolding word_less_nat_alt assms(1,2) by simp
  ultimately show ?thesis
    unfolding emz_dma_mem_alloc_def assms(5) Let_def 1 2 using assms(6) by simp
qed

definition line_addr :: "nat \<Rightarrow> u32" where "line_addr j = of_nat (64 * j)"

lemma unat_line_addr: "j < 2 ^ 26 \<Longrightarrow> unat (line_addr j) = 64 * j"
  unfolding line_addr_def by (simp add: unat_of_nat del: of_nat_mult)

lemma alloc_run:
  assumes "0 < j" and "j + n < 2 ^ 26 - 2" and "emz_dma_mem_cursor m = line_addr j"
    and "64 * (j + n) \<le> unat (emz_dma_mem_end m)"
  shows "\<exists>ps. emz_alloc_buffers n 60 m = (ps, m\<lparr>emz_dma_mem_cursor := line_addr (j + n)\<rparr>) \<and> 0 \<notin> set ps"
  using assms
proof (induction n arbitrary: j m)
  case 0
  then show ?case by simp
next
  case (Suc n)
  let ?m = "m\<lparr>emz_dma_mem_cursor := line_addr (Suc j)\<rparr>"
  have u: "unat (line_addr j) = 64 * j" "unat (line_addr (Suc j)) = 64 * Suc j"
    using Suc.prems(2) unat_line_addr [of j] unat_line_addr [of "Suc j"] by simp_all
  have ne: "line_addr j \<noteq> 0" using u(1) Suc.prems(1) by auto
  have "line_addr (Suc j) \<le> emz_dma_mem_end m"
    unfolding word_le_nat_alt u using Suc.prems(4) by simp
  note st = alloc_line [OF u Suc.prems(1) _ Suc.prems(3) this]
  obtain ps where "emz_alloc_buffers n 60 ?m = (ps, ?m\<lparr>emz_dma_mem_cursor := line_addr (Suc j + n)\<rparr>)" "0 \<notin> set ps"
    using Suc.IH [of "Suc j" ?m] Suc.prems by auto
  then show ?case
    using st Suc.prems ne by simp
qed

definition probe_ctx :: ctx where
  "probe_ctx = quiet_ctx\<lparr>env_of := quiet_env\<lparr>mmio := (\<lambda>_ _. EMZ_VERSION_VALUE)\<rparr>\<rparr>"

definition mem_zero :: dma_mem where
  "mem_zero = \<lparr>emz_dma_mem_cursor = 0, emz_dma_mem_end = 0, emz_sg_mem_cursor = 0, emz_sg_mem_end = 0\<rparr>"

lemma probe_sel [simp]: "kc probe_ctx = tiny_kconfig" "cfg probe_ctx = demo_config"
  "emz_rx_direct_enabled probe_ctx"
  by (simp_all add: probe_ctx_def emz_rx_direct_enabled_def demo_config_def)

lemma tiny_dma [simp]: "dma_memory_base tiny_kconfig = 0x9f000000" "dma_memory_size tiny_kconfig = 0x01000000"
  "sg_memory_size tiny_kconfig = 0"
  by (simp_all add: tiny_kconfig_def app_kconfig_def)

lemma tiny_window: "dma_window_ok tiny_kconfig"
  by (simp add: dma_window_ok_def)

lemma probe_reset:
  "emz_sg_mem_reset tiny_kconfig (emz_dma_mem_reset tiny_kconfig mem_zero) =
   \<lparr>emz_dma_mem_cursor = line_addr 0x27c0000, emz_dma_mem_end = 0x9fffe000, emz_sg_mem_cursor = 0, emz_sg_mem_end = 0\<rparr>"
  by (simp add: emz_sg_mem_reset_def emz_dma_mem_reset_def mem_zero_def EMACZERO_PERF_STATS_DMA_RESERVED_def line_addr_def)

lemma probe_memory: "\<exists>s1. init_memory probe_ctx storage mem_zero s =
   (True, \<lparr>emz_dma_mem_cursor = line_addr 0x27c0028, emz_dma_mem_end = 0x9fffe000, emz_sg_mem_cursor = 0, emz_sg_mem_end = 0\<rparr>, s1)"
proof -
  let ?m = "emz_sg_mem_reset tiny_kconfig (emz_dma_mem_reset tiny_kconfig mem_zero)"
  obtain ps where p: "emz_alloc_buffers 8 60 ?m = (ps, ?m\<lparr>emz_dma_mem_cursor := line_addr 0x27c0008\<rparr>)" "0 \<notin> set ps"
    using alloc_run [of "0x27c0000" 8 ?m] by (auto simp: probe_reset)
  obtain qs where q: "emz_alloc_buffers 32 60 (?m\<lparr>emz_dma_mem_cursor := line_addr 0x27c0008\<rparr>) =
      (qs, ?m\<lparr>emz_dma_mem_cursor := line_addr 0x27c0028\<rparr>)" "0 \<notin> set qs"
    using alloc_run [of "0x27c0008" 32 "?m\<lparr>emz_dma_mem_cursor := line_addr 0x27c0008\<rparr>"] by (auto simp: probe_reset)
  have tc: "tx_count = 32" by (simp add: EMZ_DMA_BUFFER_COUNT_TX_def)
  show ?thesis
    unfolding init_memory_def Let_def tc using p q by (simp add: probe_reset)
qed

lemma direct_start_returns:
  assumes "emz_sg_mem_alloc (kc c) 64 (bd_size * of_nat (rx_count c)) m = (Some base, m1)"
    and "rx_inv c [] [] [] ((dat s)\<lparr>rx_bd_ring_addr := base, rx_bd_ring := linked_ring base (rx_count c)\<rparr>)"
    and "0 < refill_amount c (dat s)"
  shows "\<exists>s'. emz_rx_direct_start c m s = (int (refill_amount c (dat s)), m1, s')"
proof -
  define t where "t = emz_perf_set_bd_available c (upd_perf (set32 Rx_bd_available_min 0xffffffff)
    (emz_dma_cache_flush c base (bd_size * of_nat (rx_count c)) (upd_dat (\<lambda>d. d\<lparr>rx_bd_ring_addr := base,
      rx_bd_ring := linked_ring base (rx_count c)\<rparr>) s)))"
  have "rx_inv c [] [] [] (dat t)" using assms(2) by (simp add: t_def)
  then have "fst (direct_refill_loop c 0 t) = int (refill_amount c (dat s))"
    by (subst refill_loop_count) (simp_all add: t_def refill_amount_def)
  then obtain u where "emz_rx_direct_refill c t = (int (refill_amount c (dat s)), u)"
    by (cases "direct_refill_loop c 0 t") (simp add: emz_rx_direct_refill_def)
  then show ?thesis
    using assms(1,3) by (simp add: emz_rx_direct_start_def Let_def t_def [symmetric])
qed

theorem init_establishes_invariants_witness:
  "\<exists>storage m' s'. emz_init probe_ctx storage mem_zero (emz_zero tiny_kconfig) = (0, m', s') \<and>
     rx_inv probe_ctx [] [] [] (dat s') \<and> posted_buffers (dat s') = [0, 1, 2] \<and>
     mac (dat s') = [2, 0, 0, 0, 0, 1]"
proof -
  let ?c = probe_ctx and ?s = "emz_zero tiny_kconfig" and ?st = "(\<lambda>_. 0, \<lambda>_. 0) :: (nat \<Rightarrow> u32) \<times> (nat \<Rightarrow> u32)"
  have k: "kconfig_ok (kc ?c)" by (simp add: tiny_kconfig_ok)
  have zero: "dat ?s = data_zero (kc ?c)" by (simp add: emz_zero_def)
  have dma: "cfg_dma (cfg ?c)" by (simp add: demo_config_def)
  have win: "dma_window_ok (kc ?c)" by (simp add: tiny_window)
  define s0 where "s0 = init_identity ?c (snd (emz_read ?c EMZ_REG_VERSION ?s))"
  define m1 where "m1 = \<lparr>emz_dma_mem_cursor = line_addr 0x27c0028, emz_dma_mem_end = 0x9fffe000,
      emz_sg_mem_cursor = 0, emz_sg_mem_end = 0\<rparr>"
  obtain s1 where mem: "init_memory ?c ?st mem_zero s0 = (True, m1, s1)"
    using probe_memory [of ?st s0] by (auto simp: m1_def)
  define s2 where "s2 = init_mac ?c (init_pool ?c s1)"
  have d0: "dat s0 = (data_zero (kc ?c))\<lparr>mac := cfg_mac (cfg ?c), rx_free_fifo := [], rx_dma_fifo := [],
      rx_ready_fifo := []\<rparr>"
    by (simp add: s0_def emz_read_def zero Let_def)
  have fresh0: "fresh_ring ?c (dat s0)" and bufs0: "tx_bufs_ok ?c (dat s0)"
    using zero_fresh [OF k] unfolding d0
    by (simp_all add: fresh_ring_def buffers_ok_def tx_bufs_ok_def data_zero_def tx_buffer_zero_def)
  note mo = init_memory_ok [OF k _ win fresh0 bufs0 mem, simplified]
  have d2: "dat s2 = fill_pool ?c ((dat s1)\<lparr>rx_free_fifo := [], rx_ready_fifo := []\<rparr>)"
  proof -
    have "(dat s1)\<lparr>rx_free_fifo := [], rx_ready_fifo := []\<rparr> = dat s1"
      by (rule emaczero_data.equality) (simp_all add: mo d0)
    then show ?thesis by (simp add: s2_def)
  qed
  have inv2: "rx_inv ?c [] [] [] ((dat s2)\<lparr>rx_bd_ring_addr := base,
      rx_bd_ring := linked_ring base (rx_count ?c)\<rparr>)" for base
    unfolding d2 by (rule fresh_pool_inv [OF k mo(1)])
  define m2 where "m2 = m1\<lparr>emz_dma_mem_cursor := line_addr 0x27c0030\<rparr>"
  have a1: "emz_sg_mem_alloc (kc ?c) 64 (bd_size * of_nat (rx_count ?c)) m1 = (Some (line_addr 0x27c0028), m2)"
    by (simp add: emz_sg_mem_alloc_def emz_dma_mem_alloc_def m1_def m2_def line_addr_def ROUND_UP_def)
  have amount: "refill_amount ?c (dat s2) = 3"
    using mo(1) by (simp add: refill_amount_def d2 fill_pool_def fresh_ring_def rx_cap_def)
  obtain s3 where rx: "emz_rx_direct_start ?c m1 s2 = (3, m2, s3)"
    using direct_start_returns [OF a1 inv2] amount by auto
  have "\<exists>m3 s4. emz_tx_direct_start ?c m2 s3 = (0, m3, s4)"
    by (simp add: emz_tx_direct_start_def emz_sg_mem_alloc_def emz_dma_mem_alloc_def m1_def m2_def line_addr_def
        ROUND_UP_def EMZ_DMA_BUFFER_COUNT_TX_def Let_def)
  then obtain m3 s4 where tx: "emz_tx_direct_start ?c m2 s3 = (0, m3, s4)" by blast
  have version: "fst (emz_read ?c EMZ_REG_VERSION ?s) = EMZ_VERSION_VALUE"
    by (simp add: emz_read_def probe_ctx_def reg_value_def Let_def)
  have run: "emz_init ?c ?st mem_zero ?s = (0, m3, s4)"
    using version mem rx tx dma
    by (simp add: emz_init_def init_dma_def case_prod_beta s0_def [symmetric] s2_def [symmetric])
  note r = init_establishes_invariants [OF k dma probe_sel(3) win zero run]
  have "[0..<rx_cap ?c] = [0, 1, 2]" by (simp add: rx_cap_def upt_rec)
  then show ?thesis using r run by (intro exI [of _ ?st] exI [of _ m3] exI [of _ s4]) (simp add: demo_config_def)
qed
end
