(* ===== verification/RxWorker.thy ===== *)
theory RxWorker
  imports RxRing Frames
begin

text \<open>
  The RX worker of \<^verbatim>\<open>drivers/ethernet/eth_emaczero.c\<close>: one round of \<^verbatim>\<open>emz_rx_thread\<close>
  takes the oldest ready buffer and drops it, copies it to the network stack or lends it to
  the stack, and the completion callback of the generic DMA API. The result \<open>None\<close> of a
  round is a read outside a buffer; \<open>Some (lent, s)\<close> says which buffer the stack now
  holds, if any.
\<close>

section \<open>Pieces of a round\<close>

definition put_perf :: "perf_stats \<Rightarrow> emz \<Rightarrow> emz" where
  "put_perf p = upd_perf (\<lambda>_. p)"

definition prof_cycles_since :: "ctx \<Rightarrow> emaczero_profile_cycle_id \<Rightarrow> u32 \<Rightarrow> emz \<Rightarrow> emz" where
  "prof_cycles_since c slot start s =
     (if cfg_profile (kc c) then
        let now = cycle_now c s; s = tick s
        in upd_prof c (emaczero_profile_add_cycles slot (emaczero_profile_elapsed start now)) s
      else s)"

text \<open>\<^verbatim>\<open>DROP_AFTER_PKT\<close>: drop everything but the control traffic once the packet is built.\<close>

definition drop_after_pkt :: "ctx \<Rightarrow> emaczero_rx_buffer \<Rightarrow> emz \<Rightarrow> bool option" where
  "drop_after_pkt c b s =
     (if cfg_profile (kc c) \<and>
         emaczero_profile_get_mode (prof (aux s)) = EMACZERO_PROFILE_MODE_DROP_AFTER_PKT
      then map_option Not (emaczero_profile_should_keep_control (Some (rxb_bytes b)) (unat (rxb_len b)))
      else Some False)"

definition worker_error :: "ctx \<Rightarrow> nat \<Rightarrow> emz \<Rightarrow> nat option \<times> emz" where
  "worker_error c rx s = (None, emz_release_rx_buffer_from_worker c rx (emit Eth_errors_rx s))"

text \<open>
  \<^verbatim>\<open>emz_rx_copy_frag_alloc\<close>: a fragment of the copy pool and its number, negative when
  there is none; a number outside the storage is refused.
\<close>

definition copy_frag_ok :: "ctx \<Rightarrow> int \<Rightarrow> bool" where
  "copy_frag_ok c ident \<longleftrightarrow> 0 \<le> ident \<and> ident < int (rx_copy_fallback_count (kc c))"

definition emz_rx_copy_frag_alloc :: "ctx \<Rightarrow> emaczero_rx_buffer \<Rightarrow> emz \<Rightarrow> (u8 list option \<times> emz) option" where
  "emz_rx_copy_frag_alloc c b s =
     (let ident = ext_ret c Ext_net_buf_alloc_copy s; s = ext_call c Ext_net_buf_alloc_copy s
      in if \<not> copy_frag_ok c ident then Some (None, s)
         else do {
           frame \<leftarrow> rd_range (rxb_bytes b) 0 (unat (rxb_len b));
           Some (Some frame, s)
         })"

definition capture_rx :: "emaczero_rx_buffer \<Rightarrow> emz \<Rightarrow> emz option" where
  "capture_rx b s =
     map_option (\<lambda>p. put_perf p s)
       (capture_ext Rx_ext_len Rx_ext_word (rxb_bytes b) (unat (rxb_len b)) (perf (aux s)))"

definition submit_copy :: "ctx \<Rightarrow> u8 list \<Rightarrow> emz \<Rightarrow> emz" where
  "submit_copy c frame s =
     (let ret = ext_ret c (Ext_net_recv_data frame) s; s = ext_call c (Ext_net_recv_data frame) s
      in if ret < 0 then
           let s = emit Eth_errors_rx s; s = upd_perf (inc64 Rx_net_recv_fail) s
           in upd_prof c (emaczero_profile_counter COUNTER_RX_NET_RECV_FAIL) s
         else
           upd_prof c (emaczero_profile_counter COUNTER_RX_COPY_SUBMIT) (upd_perf (inc64 Rx_copy_submit) s))"

section \<open>The copy path\<close>

text \<open>The packet with the frame's bytes in it, or the error exit.\<close>

definition build_copy :: "ctx \<Rightarrow> nat \<Rightarrow> emaczero_rx_buffer \<Rightarrow> emz \<Rightarrow> (u8 list option \<times> emz) option" where
  "build_copy c rx b s =
     (if 0 < rx_copy_fallback_count (kc c) then do {
        (frag, s) \<leftarrow> emz_rx_copy_frag_alloc c b s;
        Some (case frag of
          None \<Rightarrow> (None, snd (worker_error c rx (upd_perf (inc64 Rx_alloc_frag_fail) s)))
        | Some frame \<Rightarrow> (Some frame, s))
      } else do {
        frame \<leftarrow> rd_range (rxb_bytes b) 0 (unat (rxb_len b));
        let ret = ext_ret c (Ext_net_pkt_write frame) s;
        let s = ext_call c (Ext_net_pkt_write frame) s;
        Some (if ret \<noteq> 0 then (None, snd (worker_error c rx (upd_perf (inc64 Rx_copy_write_fail) s)))
              else (Some frame, s))
      })"

definition thread_copy ::
  "ctx \<Rightarrow> nat \<Rightarrow> u32 \<Rightarrow> u32 \<Rightarrow> emz \<Rightarrow> (nat option \<times> emz) option" where
  "thread_copy c rx r7_start build_start s =
     (let b = rx_buffer (dat s) ! rx;
          pkt = ext_ret c Ext_net_pkt_rx_alloc s; s = ext_call c Ext_net_pkt_rx_alloc s
      in if pkt = 0 then
           let s = upd_perf (inc64 Rx_alloc_pkt_fail) s;
               s = upd_perf (inc64 Rx_alloc_pkt_copy_fail) s;
               s = upd_prof c (emaczero_profile_counter COUNTER_RX_ALLOC_PKT_FAIL) s
           in Some (worker_error c rx s)
         else do {
           (built, s) \<leftarrow> build_copy c rx b s;
           case built of
             None \<Rightarrow> Some (None, s)
           | Some frame \<Rightarrow> do {
               let s = upd_prof c (emaczero_profile_counter COUNTER_RX_COPY_FALLBACK) s;
               let s = prof_cycles_since c CYCLES_RX_BUILD build_start s;
               drop \<leftarrow> drop_after_pkt c b s;
               if drop then
                 let s = upd_prof c (emaczero_profile_counter COUNTER_RX_DROP_AFTER_PKT) s
                 in Some (None, emz_release_rx_buffer_from_worker c rx s)
               else do {
                 let recv_start = cycle_now c s;
                 let s = (if cfg_profile (kc c) then tick s else s);
                 s \<leftarrow> capture_rx b s;
                 let s = submit_copy c frame s;
                 let s = prof_cycles_since c CYCLES_NET_RECV recv_start s;
                 let s = r7_since c EMZ_R7_RX_THREAD_BUILD r7_start s;
                 Some (None, emz_release_rx_buffer_from_worker c rx s)
               }
             }
         })"

section \<open>The zero-copy path\<close>

text \<open>Lending the buffer: the fragment's context names it, the stack counts as its owner.\<close>

definition lend :: "ctx \<Rightarrow> nat \<Rightarrow> emz \<Rightarrow> emz" where
  "lend c rx s =
     (let now = cycle_now c s; s = tick s;
          s = upd_dat (upd_rx rx (\<lambda>b. b\<lparr>rxb_stack_handoff_cycle := now\<rparr>)) s;
          s = upd_dat (\<lambda>d. d\<lparr>rx_stack_owned_count := rx_stack_owned_count d + 1\<rparr>) s;
          s = upd_dat (\<lambda>d. d\<lparr>rx_worker_count := rx_worker_count d - 1\<rparr>) s;
          s = emz_perf_update_pool_inflight c s;
          s = upd_perf (emz_perf_set_max_u32 Rx_max_stack_owned (rx_stack_owned_count (dat s))) s
      in upd_prof c (emaczero_profile_max MAX_RX_STACK_OWNED (rx_stack_owned_count (dat s))) s)"

text \<open>
  \<^verbatim>\<open>net_recv_data\<close> on the zero-copy packet. A refused packet is unreferenced, which
  destroys the fragment and gives the buffer back.
\<close>

definition submit_zero_copy :: "ctx \<Rightarrow> nat \<Rightarrow> u8 list \<Rightarrow> emz \<Rightarrow> nat option \<times> emz" where
  "submit_zero_copy c rx frame s =
     (let ret = ext_ret c (Ext_net_recv_data frame) s; s = ext_call c (Ext_net_recv_data frame) s
      in if ret < 0 then
           let s = emz_rx_frag_destroy c (Some rx) s;
               s = emit Eth_errors_rx s; s = upd_perf (inc64 Rx_net_recv_fail) s
           in (None, upd_prof c (emaczero_profile_counter COUNTER_RX_NET_RECV_FAIL) s)
         else
           (Some rx, upd_prof c (emaczero_profile_counter COUNTER_RX_ZERO_COPY_SUBMIT)
              (upd_perf (inc64 Rx_zero_copy_submit) s)))"

definition thread_zero_copy ::
  "ctx \<Rightarrow> nat \<Rightarrow> u32 \<Rightarrow> u32 \<Rightarrow> emz \<Rightarrow> (nat option \<times> emz) option" where
  "thread_zero_copy c rx r7_start build_start s =
     (let b = rx_buffer (dat s) ! rx;
          pkt = ext_ret c Ext_net_pkt_rx_alloc s; s = ext_call c Ext_net_pkt_rx_alloc s
      in if pkt = 0 then
           let s = upd_perf (inc64 Rx_alloc_pkt_fail) s;
               s = upd_perf (inc64 Rx_alloc_pkt_zc_fail) s;
               s = upd_prof c (emaczero_profile_counter COUNTER_RX_ALLOC_PKT_FAIL) s
           in Some (worker_error c rx s)
         else
           let frag = ext_ret c Ext_net_buf_alloc_zc s; s = ext_call c Ext_net_buf_alloc_zc s
           in if frag = 0 then
                let s = upd_perf (inc64 Rx_alloc_frag_fail) s;
                    s = upd_prof c (emaczero_profile_counter COUNTER_RX_ALLOC_FRAG_FAIL) s
                in Some (worker_error c rx s)
              else do {
                let s = lend c rx s;
                let s = prof_cycles_since c CYCLES_RX_BUILD build_start s;
                drop \<leftarrow> drop_after_pkt c b s;
                if drop then
                  let s = upd_prof c (emaczero_profile_counter COUNTER_RX_DROP_AFTER_PKT) s
                  in Some (None, emz_rx_frag_destroy c (Some rx) s)
                else do {
                  let recv_start = cycle_now c s;
                  let s = (if cfg_profile (kc c) then tick s else s);
                  s \<leftarrow> capture_rx b s;
                  frame \<leftarrow> rd_range (rxb_bytes b) 0 (unat (rxb_len b));
                  let (lent, s) = submit_zero_copy c rx frame s;
                  let s = prof_cycles_since c CYCLES_NET_RECV recv_start s;
                  Some (lent, r7_since c EMZ_R7_RX_THREAD_BUILD r7_start s)
                }
              })"

section \<open>One round of the worker\<close>

definition thread_take :: "ctx \<Rightarrow> nat list \<Rightarrow> emz \<Rightarrow> emz" where
  "thread_take c rest s =
     (let s = upd_dat (\<lambda>d. d\<lparr>rx_ready_fifo := rest\<rparr>) s;
          s = upd_dat (\<lambda>d. d\<lparr>rx_ready_fifo_count := rx_ready_fifo_count d - 1\<rparr>) s;
          s = upd_dat (\<lambda>d. d\<lparr>rx_worker_count := rx_worker_count d + 1\<rparr>) s;
          s = emz_perf_update_pool_inflight c s;
          s = upd_prof c (emaczero_profile_counter COUNTER_RX_WORKER_PACKETS) s
      in upd_perf (inc64 Rx_worker_packets) s)"

definition thread_deliver ::
  "ctx \<Rightarrow> nat \<Rightarrow> u32 \<Rightarrow> u32 \<Rightarrow> emz \<Rightarrow> (nat option \<times> emz) option" where
  "thread_deliver c rx r7_start build_start s = do {
     let b = rx_buffer (dat s) ! rx;
     p \<leftarrow> emz_note_rx_pre_stack (mac (dat s)) b (perf (aux s));
     let s = put_perf p s;
     if int (rx_max_stack_owned_zerocopy (kc c)) \<le> sint (rx_stack_owned_count (dat s))
     then thread_copy c rx r7_start build_start s
     else thread_zero_copy c rx r7_start build_start s
   }"

definition invalid_result :: "ctx \<Rightarrow> emaczero_rx_buffer \<Rightarrow> bool" where
  "invalid_result c b \<longleftrightarrow> rxb_status b < 0 \<or> rxb_len b = 0 \<or> eth_buffer_size c < rxb_len b"

text \<open>The body of the loop after the blocking \<^verbatim>\<open>k_fifo_get\<close>; an empty list blocks.\<close>

definition thread_round :: "ctx \<Rightarrow> nat \<Rightarrow> u32 \<Rightarrow> u32 \<Rightarrow> emz \<Rightarrow> (nat option \<times> emz) option" where
  "thread_round c rx r7_start build_start s =
     (let up = iface (dat s) \<and> ext_ret c Ext_net_if_is_up s \<noteq> 0;
          s = (if iface (dat s) then ext_call c Ext_net_if_is_up s else s);
          b = rx_buffer (dat s) ! rx
      in if \<not> up then Some (None, emz_release_rx_buffer_from_worker c rx s)
         else if invalid_result c b then
           let s = upd_perf (inc64 Rx_invalid) s;
               s = upd_prof c (emaczero_profile_counter COUNTER_RX_INVALID) s
           in Some (worker_error c rx s)
         else case run_interceptor (rx_interceptor (dat s)) b s of
           (eaten, s) \<Rightarrow>
             if eaten then Some (None, emz_release_rx_buffer_from_worker c rx s)
             else thread_deliver c rx r7_start build_start s)"

definition emz_rx_thread_step :: "ctx \<Rightarrow> emz \<Rightarrow> (nat option \<times> emz) option" where
  "emz_rx_thread_step c s =
     (case rx_ready_fifo (dat s) of
        [] \<Rightarrow> Some (None, s)
      | rx # rest \<Rightarrow>
          let r7_start = cycle_now c s; s' = tick s;
              build_start = cycle_now c s'; s' = (if cfg_profile (kc c) then tick s' else s')
          in thread_round c rx r7_start build_start (thread_take c rest s'))"

section \<open>The completion callback of the generic DMA API\<close>

text \<open>
  \<^verbatim>\<open>emz_dma_rx_callback\<close>. The length is what the DMA driver reports; it is not clamped
  here, the worker refuses a length beyond the buffer. \<open>callback_take\<close> is the part that takes
  the buffer off the list and records the result.
\<close>

definition callback_take :: "ctx \<Rightarrow> int \<Rightarrow> nat \<Rightarrow> nat list \<Rightarrow> emz \<Rightarrow> emaczero_rx_buffer \<times> emz" where
  "callback_take c status rx rest s =
     (let s = upd_dat (\<lambda>d. d\<lparr>rx_dma_fifo := rest\<rparr>) s;
          s = upd_dat (\<lambda>d. d\<lparr>rx_dma_fifo_count := rx_dma_fifo_count d - 1\<rparr>) s;
          s = emz_perf_update_pool_inflight c s;
          s = (if status < 0 then
                 upd_prof c (emaczero_profile_counter COUNTER_DMA_ERRORS) (upd_perf (inc64 Dma_errors) s)
               else s);
          len = word_of_int (ext_ret c Ext_last_frame_length s);
          s = ext_call c Ext_last_frame_length s;
          s = upd_dat (upd_rx rx (\<lambda>b. b\<lparr>rxb_status := status, rxb_len := len\<rparr>)) s;
          b = rx_buffer (dat s) ! rx;
          s = emz_dma_cache_invd c (rxb_addr b) (min len (eth_buffer_size c)) s;
          s = (if cfg_profile (kc c) then
                 let now = cycle_now c s; s = tick s
                 in upd_dat (upd_rx rx (\<lambda>b. b\<lparr>rxb_dma_done_cycle := now\<rparr>)) s
               else s)
      in (b, upd_dat (\<lambda>d. d\<lparr>rx_dma_inflight :=
               (if 0 < rx_dma_inflight d then rx_dma_inflight d - 1 else rx_dma_inflight d)\<rparr>) s))"

definition emz_dma_rx_callback :: "ctx \<Rightarrow> int \<Rightarrow> emz \<Rightarrow> emz" where
  "emz_dma_rx_callback c status s =
     (let now_cycle = cycle_now c s; s = tick s;
          s = emz_perf_note_dma_callback_gap c now_cycle s;
          s = upd_perf (inc64 Dma_callbacks) s;
          s = upd_prof c (emaczero_profile_counter COUNTER_DMA_CALLBACKS) s
      in case rx_dma_fifo (dat s) of
           [] \<Rightarrow> s
         | rx # rest \<Rightarrow>
             (case callback_take c status rx rest s of
                (b, s) \<Rightarrow>
                  if drop_after_dma c b s then
                    let s = upd_prof c (emaczero_profile_counter COUNTER_DMA_DROP_AFTER_DMA) s;
                        s = emz_release_rx_buffer c rx s
                    in prof_cycles_since c CYCLES_DMA_CB now_cycle s
                  else
                    let s = upd_dat (\<lambda>d. d\<lparr>rx_ready_fifo_count := rx_ready_fifo_count d + 1\<rparr>) s;
                        s = emz_perf_update_pool_inflight c s;
                        s = upd_dat (\<lambda>d. d\<lparr>rx_ready_fifo := rx_ready_fifo d @ [rx]\<rparr>) s
                    in prof_cycles_since c CYCLES_DMA_CB now_cycle s))"

section \<open>Ownership through a round\<close>

lemma from_worker_inv:
  "rx_inv c (rx # W) K H d \<Longrightarrow>
   rx_inv c W K (rx # H) (d\<lparr>rx_worker_count := rx_worker_count d - 1\<rparr>)"
  by (simp add: rx_inv_def owned_def buffers_ok_def)

lemma from_stack_inv:
  "rx_inv c W (rx # K) H d \<Longrightarrow>
   rx_inv c W K (rx # H) (d\<lparr>rx_stack_owned_count := rx_stack_owned_count d - 1\<rparr>)"
  by (simp add: rx_inv_def owned_def buffers_ok_def)

lemma worker_to_stack_inv:
  "rx_inv c (rx # W) K H d \<Longrightarrow>
   rx_inv c W (rx # K) H (d\<lparr>rx_stack_owned_count := rx_stack_owned_count d + 1,
     rx_worker_count := rx_worker_count d - 1\<rparr>)"
  by (simp add: rx_inv_def owned_def buffers_ok_def add.commute)

lemma worker_take_inv:
  "rx_inv c W K H d \<Longrightarrow> rx_ready_fifo d = rx # rest \<Longrightarrow>
   rx_inv c (rx # W) K H (d\<lparr>rx_ready_fifo := rest, rx_ready_fifo_count := rx_ready_fifo_count d - 1,
     rx_worker_count := rx_worker_count d + 1\<rparr>)"
  by (simp add: rx_inv_def owned_def buffers_ok_def add.commute)

lemma worker_dat [simp, emz_frame]:
  "dat (put_perf p s) = dat s"
  "dat (prof_cycles_since c slot start s) = dat s"
  "dat (submit_copy c frame s) = dat s"
  "dat (thread_take c rest s) = (dat s)\<lparr>rx_ready_fifo := rest,
     rx_ready_fifo_count := rx_ready_fifo_count (dat s) - 1,
     rx_worker_count := rx_worker_count (dat s) + 1\<rparr>"
  by (simp_all add: put_perf_def prof_cycles_since_def submit_copy_def thread_take_def Let_def)

lemma capture_rx_dat: "capture_rx b s = Some s' \<Longrightarrow> dat s' = dat s"
  by (auto simp: capture_rx_def)

lemma worker_release_inv:
  assumes "emz_rx_direct_enabled c" and "rx_inv c (rx # W) K H (dat s)"
  shows "rx_inv c W K H (dat (emz_release_rx_buffer_from_worker c rx s))"
  using assms d_release_inv [OF from_worker_inv [OF assms(2)]] by simp

lemma frag_destroy_inv:
  assumes "emz_rx_direct_enabled c" and "rx_inv c W (rx # K) H (dat s)"
  shows "rx_inv c W K H (dat (emz_rx_frag_destroy c (Some rx) s))"
  using assms d_release_inv [OF from_stack_inv [OF assms(2)]] by simp

lemma lend_inv:
  assumes "rx_inv c (rx # W) K H (dat s)"
  shows "rx_inv c W (rx # K) H (dat (lend c rx s))"
proof -
  have "rx_inv c (rx # W) K H (upd_rx rx (\<lambda>b. b\<lparr>rxb_stack_handoff_cycle := cycle_now c s\<rparr>) (dat s))"
    by (rule upd_rx_inv [OF assms]) simp_all
  from worker_to_stack_inv [OF this] show ?thesis by (simp add: lend_def Let_def)
qed

lemma held_buffer_in_bounds:
  assumes "rx_inv c (rx # W) K H d"
  shows "unat (rxb_len (rx_buffer d ! rx)) \<le> length (rxb_bytes (rx_buffer d ! rx))"
proof -
  have "rx < length (rx_buffer d)"
    using rx_inv_distinct(2) [OF assms] assms by (auto simp: rx_inv_def buffers_ok_def)
  then show ?thesis
    using assms nth_mem [of rx "rx_buffer d"] by (auto simp: rx_inv_def buffers_ok_def)
qed

lemma drop_after_pkt_Some:
  "unat (rxb_len b) \<le> length (rxb_bytes b) \<Longrightarrow> \<exists>x. drop_after_pkt c b s = Some x"
  by (auto simp: drop_after_pkt_def emaczero_profile_should_keep_control_def Let_def)

lemma capture_rx_Some:
  assumes "unat (rxb_len b) \<le> length (rxb_bytes b)"
  shows "\<exists>s'. capture_rx b s = Some s' \<and> dat s' = dat s"
  using capture_ext_Some [OF assms, of Rx_ext_len Rx_ext_word "perf (aux s)"]
  by (auto simp: capture_rx_def)

lemma rd_range_frame [simp]:
  "n \<le> length b \<Longrightarrow> rd_range b 0 n = Some (take n b)"
  by (simp add: rd_range_def)

lemma thread_copy_lends_nothing:
  "thread_copy c rx r7 bs s = Some (lent, s') \<Longrightarrow> lent = None"
  by (auto simp: thread_copy_def worker_error_def Let_def split: if_splits Option.bind_splits option.splits prod.splits)

text \<open>
  A round needs of the receive pool only that its invariant survives the five moves of a
  buffer (taken from the ready list, given back, lent, given back by the stack) and bounds what
  it reads. That contract is the locale \<open>rx_pool\<close>; the pool behind the direct ring keeps it,
  and so does the one behind the generic DMA API (theory GenericDma). What a round must leave
  behind: the buffer went back, or the stack has it.
\<close>

definition round_ok ::
  "(nat list \<Rightarrow> nat list \<Rightarrow> nat list \<Rightarrow> emaczero_data \<Rightarrow> bool) \<Rightarrow>
   nat list \<Rightarrow> nat list \<Rightarrow> nat list \<Rightarrow> nat \<Rightarrow> (nat option \<times> emz) option \<Rightarrow> bool" where
  "round_ok pool W K H rx r \<longleftrightarrow> (case r of
     None \<Rightarrow> False
   | Some (lent, s) \<Rightarrow>
       (case lent of
          None \<Rightarrow> pool W K H (dat s)
        | Some x \<Rightarrow> x = rx \<and> pool W (rx # K) H (dat s)))"

lemma round_ok_simps [simp]:
  "\<not> round_ok pool W K H rx None"
  "round_ok pool W K H rx (Some (None, s)) = pool W K H (dat s)"
  "round_ok pool W K H rx (Some (Some x, s)) = (x = rx \<and> pool W (rx # K) H (dat s))"
  by (simp_all add: round_ok_def)

locale rx_pool =
  fixes usable :: "ctx \<Rightarrow> bool"
    and pool :: "ctx \<Rightarrow> nat list \<Rightarrow> nat list \<Rightarrow> nat list \<Rightarrow> emaczero_data \<Rightarrow> bool"
  assumes pool_take: "usable c \<Longrightarrow> pool c W K H d \<Longrightarrow> rx_ready_fifo d = rx # rest \<Longrightarrow>
      pool c (rx # W) K H (d\<lparr>rx_ready_fifo := rest, rx_ready_fifo_count := rx_ready_fifo_count d - 1,
        rx_worker_count := rx_worker_count d + 1\<rparr>)"
    and pool_release: "usable c \<Longrightarrow> pool c (rx # W) K H (dat s) \<Longrightarrow>
      pool c W K H (dat (emz_release_rx_buffer_from_worker c rx s))"
    and pool_destroy: "usable c \<Longrightarrow> pool c W (rx # K) H (dat s) \<Longrightarrow>
      pool c W K H (dat (emz_rx_frag_destroy c (Some rx) s))"
    and pool_lend: "usable c \<Longrightarrow> pool c (rx # W) K H (dat s) \<Longrightarrow> pool c W (rx # K) H (dat (lend c rx s))"
    and pool_held: "usable c \<Longrightarrow> pool c (rx # W) K H d \<Longrightarrow>
      unat (eth_buffer_size c) \<le> length (rxb_bytes (rx_buffer d ! rx))"
    and pool_stack: "usable c \<Longrightarrow> pool c W K H d \<Longrightarrow>
      rx_stack_owned_count d = of_nat (length K) \<and> length K \<le> 256"
begin

lemma worker_error_ok:
  assumes "usable c" and "pool c (rx # W) K H (dat s)"
  shows "round_ok (pool c) W K H rx (Some (worker_error c rx s))"
    and "pool c W K H (dat (snd (worker_error c rx s)))"
  using pool_release [OF assms(1), of rx W K H "emit Eth_errors_rx s"] assms(2)
  by (simp_all add: worker_error_def)

lemma build_copy_ok:
  assumes usable: "usable c" and inv: "pool c (rx # W) K H (dat s)"
    and len: "unat (rxb_len b) \<le> length (rxb_bytes b)"
  shows "\<exists>built s'. build_copy c rx b s = Some (built, s') \<and>
    (case built of None \<Rightarrow> pool c W K H (dat s')
     | Some frame \<Rightarrow> frame = take (unat (rxb_len b)) (rxb_bytes b) \<and> dat s' = dat s)"
proof -
  have err: "pool c W K H (dat (snd (worker_error c rx s')))" if "dat s' = dat s" for s'
    using worker_error_ok(2) [OF usable, of rx W K H s'] inv that by simp
  show ?thesis
    using len by (auto simp: build_copy_def emz_rx_copy_frag_alloc_def Let_def err)
qed

lemma thread_copy_ok:
  assumes usable: "usable c" and inv: "pool c (rx # W) K H (dat s)"
    and len: "unat (rxb_len (rx_buffer (dat s) ! rx)) \<le> length (rxb_bytes (rx_buffer (dat s) ! rx))"
  shows "round_ok (pool c) W K H rx (thread_copy c rx r7 bs s)"
proof -
  let ?b = "rx_buffer (dat s) ! rx"
  have err: "round_ok (pool c) W K H rx (Some (worker_error c rx s'))" if "dat s' = dat s" for s'
    using worker_error_ok(1) [OF usable, of rx W K H s'] inv that by simp
  have given: "pool c W K H (dat (emz_release_rx_buffer_from_worker c rx s'))" if "dat s' = dat s" for s'
    using pool_release [OF usable, of rx W K H s'] inv that by simp
  let ?s = "ext_call c Ext_net_pkt_rx_alloc s"
  obtain built s1 where built: "build_copy c rx ?b ?s = Some (built, s1)"
    and b: "case built of None \<Rightarrow> pool c W K H (dat s1)
      | Some frame \<Rightarrow> frame = take (unat (rxb_len ?b)) (rxb_bytes ?b) \<and> dat s1 = dat s"
    using build_copy_ok [OF usable, of rx W K H ?s ?b] inv len unfolding dat_frame by blast
  show ?thesis
  proof (cases "ext_ret c Ext_net_pkt_rx_alloc s = 0")
    case True
    then show ?thesis by (simp add: thread_copy_def Let_def err)
  next
    case False
    show ?thesis
    proof (cases built)
      case None
      with False built b show ?thesis by (simp add: thread_copy_def Let_def)
    next
      case (Some frame)
      define s2 where "s2 = prof_cycles_since c CYCLES_RX_BUILD bs
        (upd_prof c (emaczero_profile_counter COUNTER_RX_COPY_FALLBACK) s1)"
      have d2: "dat s2 = dat s" using b Some by (simp add: s2_def)
      obtain drop where drop: "drop_after_pkt c ?b s2 = Some drop" using drop_after_pkt_Some [OF len] by blast
      obtain s3 where s3: "capture_rx ?b (if cfg_profile (kc c) then tick s2 else s2) = Some s3"
        and d3: "dat s3 = dat s"
        using capture_rx_Some [OF len, of "if cfg_profile (kc c) then tick s2 else s2"] d2
        by (auto split: if_splits)
      show ?thesis
        using False built Some drop s3 d2 d3
        by (cases "cfg_profile (kc c)")
          (simp_all add: thread_copy_def Let_def s2_def [symmetric] given)
    qed
  qed
qed

lemma thread_zero_copy_ok:
  assumes usable: "usable c" and inv: "pool c (rx # W) K H (dat s)"
    and len: "unat (rxb_len (rx_buffer (dat s) ! rx)) \<le> length (rxb_bytes (rx_buffer (dat s) ! rx))"
  shows "round_ok (pool c) W K H rx (thread_zero_copy c rx r7 bs s)"
proof -
  let ?b = "rx_buffer (dat s) ! rx"
  have err: "round_ok (pool c) W K H rx (Some (worker_error c rx s'))" if "dat s' = dat s" for s'
    using worker_error_ok(1) [OF usable, of rx W K H s'] inv that by simp
  let ?s = "ext_call c Ext_net_buf_alloc_zc (ext_call c Ext_net_pkt_rx_alloc s)"
  define s2 where "s2 = prof_cycles_since c CYCLES_RX_BUILD bs (lend c rx ?s)"
  have inv2: "pool c W (rx # K) H (dat s2)" using pool_lend [OF usable, of rx W K H ?s] inv by (simp add: s2_def)
  obtain drop where drop: "drop_after_pkt c ?b s2 = Some drop" using drop_after_pkt_Some [OF len] by blast
  obtain s3 where s3: "capture_rx ?b (if cfg_profile (kc c) then tick s2 else s2) = Some s3"
    and d3: "dat s3 = dat s2"
    using capture_rx_Some [OF len, of "if cfg_profile (kc c) then tick s2 else s2"]
    by (auto split: if_splits)
  have destroy: "pool c W K H (dat (emz_rx_frag_destroy c (Some rx) s'))" if "dat s' = dat s2" for s'
    using pool_destroy [OF usable, of W rx K H s'] inv2 that by simp
  have "round_ok (pool c) W K H rx (Some (submit_zero_copy c rx frame s3))" for frame
    using inv2 d3 by (simp add: submit_zero_copy_def Let_def destroy)
  then have submit_ok: "round_ok (pool c) W K H rx (Some (lent, r7_since c slot r7 (prof_cycles_since c x y s4)))"
    if "submit_zero_copy c rx frame s3 = (lent, s4)" for lent s4 frame slot x y
    using that by (cases lent) (auto dest: meta_spec [of _ frame] simp: round_ok_def split: option.splits)
  show ?thesis
    using len drop s3 submit_ok
    by (cases "cfg_profile (kc c)") (auto simp: thread_zero_copy_def Let_def s2_def [symmetric] err destroy
        split: prod.split)
qed

lemma stack_count:
  assumes "usable c" and "pool c W K H d"
  shows "sint (rx_stack_owned_count d) = int (length K)"
  using pool_stack [OF assms] by (simp add: signed_of_nat signed_take_bit_int_eq_self)

lemma thread_deliver_ok:
  assumes usable: "usable c" and inv: "pool c (rx # W) K H (dat s)"
    and len: "unat (rxb_len (rx_buffer (dat s) ! rx)) \<le> length (rxb_bytes (rx_buffer (dat s) ! rx))"
  shows "round_ok (pool c) W K H rx (thread_deliver c rx r7 bs s)"
    and "thread_deliver c rx r7 bs s = Some (Some x, s') \<Longrightarrow>
           length K < rx_max_stack_owned_zerocopy (kc c)"
proof -
  obtain p where p: "emz_note_rx_pre_stack (mac (dat s)) (rx_buffer (dat s) ! rx) (perf (aux s)) = Some p"
    using frame_notes_Some [OF len] by blast
  have d: "thread_deliver c rx r7 bs s =
      (if rx_max_stack_owned_zerocopy (kc c) \<le> length K
       then thread_copy c rx r7 bs (put_perf p s) else thread_zero_copy c rx r7 bs (put_perf p s))"
    using stack_count [OF usable inv] by (simp add: thread_deliver_def p)
  show "round_ok (pool c) W K H rx (thread_deliver c rx r7 bs s)"
    unfolding d using thread_copy_ok [OF usable, of rx W K H "put_perf p s"]
      thread_zero_copy_ok [OF usable, of rx W K H "put_perf p s"] inv len by simp
  assume "thread_deliver c rx r7 bs s = Some (Some x, s')"
  then show "length K < rx_max_stack_owned_zerocopy (kc c)"
    unfolding d by (auto dest: thread_copy_lends_nothing split: if_splits)
qed

lemma thread_round_ok:
  assumes usable: "usable c" and inv: "pool c (rx # W) K H (dat s)"
  shows "round_ok (pool c) W K H rx (thread_round c rx r7 bs s)"
    and "thread_round c rx r7 bs s = Some (Some x, s') \<Longrightarrow>
           length K < rx_max_stack_owned_zerocopy (kc c)"
proof -
  let ?s = "if iface (dat s) then ext_call c Ext_net_if_is_up s else s"
  let ?b = "rx_buffer (dat ?s) ! rx"
  obtain eaten s2 where e: "run_interceptor (rx_interceptor (dat ?s)) ?b ?s = (eaten, s2)"
    by (cases "run_interceptor (rx_interceptor (dat ?s)) ?b ?s")
  have ds: "dat ?s = dat s" by simp
  have inv2: "pool c (rx # W) K H (dat s2)" using run_interceptor_dat [OF e] inv ds by simp
  have len: "unat (rxb_len (rx_buffer (dat s2) ! rx)) \<le> length (rxb_bytes (rx_buffer (dat s2) ! rx))"
    if "\<not> invalid_result c ?b"
    using that pool_held [OF usable inv] run_interceptor_dat [OF e] ds
    by (simp add: invalid_result_def word_le_nat_alt not_less)
  note deliver = thread_deliver_ok [OF usable inv2 len]
  have given: "pool c W K H (dat (emz_release_rx_buffer_from_worker c rx s'))"
    if "dat s' = dat s" for s'
    using pool_release [OF usable, of rx W K H s'] inv that by simp
  have err: "round_ok (pool c) W K H rx (Some (worker_error c rx s'))" if "dat s' = dat s" for s'
    using worker_error_ok(1) [OF usable, of rx W K H s'] inv that by simp
  have r: "thread_round c rx r7 bs s =
    (if \<not> (iface (dat s) \<and> ext_ret c Ext_net_if_is_up s \<noteq> 0)
     then Some (None, emz_release_rx_buffer_from_worker c rx ?s)
     else if invalid_result c ?b
     then Some (worker_error c rx (upd_prof c (emaczero_profile_counter COUNTER_RX_INVALID)
            (upd_perf (inc64 Rx_invalid) ?s)))
     else if eaten then Some (None, emz_release_rx_buffer_from_worker c rx s2)
     else thread_deliver c rx r7 bs s2)"
    unfolding thread_round_def Let_def e by simp
  show "round_ok (pool c) W K H rx (thread_round c rx r7 bs s)"
    unfolding r using given [of ?s] given [of s2] err deliver(1)
      run_interceptor_dat [OF e] ds
    by simp
  assume "thread_round c rx r7 bs s = Some (Some x, s')"
  then show "length K < rx_max_stack_owned_zerocopy (kc c)"
    unfolding r using deliver(2)
    by (auto simp: worker_error_def split: if_splits)
qed

text \<open>One round, in terms of ownership.\<close>

lemma round_accounts:
  assumes usable: "usable c" and inv: "pool c W K H (dat s)"
    and ready: "rx_ready_fifo (dat s) = rx # rest"
  shows "\<exists>lent s'. emz_rx_thread_step c s = Some (lent, s') \<and>
    (lent = None \<and> pool c W K H (dat s') \<or>
     lent = Some rx \<and> pool c W (rx # K) H (dat s') \<and>
       length K < rx_max_stack_owned_zerocopy (kc c))"
proof -
  define r7 where "r7 = cycle_now c s"
  define bs where "bs = cycle_now c (tick s)"
  define s1 where "s1 = thread_take c rest (if cfg_profile (kc c) then tick (tick s) else tick s)"
  have step: "emz_rx_thread_step c s = thread_round c rx r7 bs s1"
    by (simp add: emz_rx_thread_step_def ready Let_def r7_def bs_def s1_def)
  have "pool c (rx # W) K H (dat s1)"
    using pool_take [OF usable inv ready] by (simp add: s1_def)
  note t = thread_round_ok [OF usable this, of r7 bs]
  obtain lent s' where r: "thread_round c rx r7 bs s1 = Some (lent, s')"
    using t(1) by (cases "thread_round c rx r7 bs s1") auto
  show ?thesis
    using t(1) t(2) [of "the lent" s'] r step by (cases lent) auto
qed

end

lemma pool_size:
  assumes "rx_inv c W K H d"
  shows "rx_stack_owned_count d = of_nat (length K) \<and> length K \<le> 256"
proof -
  have "length (rx_free_fifo d @ posted_buffers d @ rx_ready_fifo d @ W @ K @ H) = rx_count c"
    using arg_cong [of _ _ size, OF assms [unfolded rx_inv_def, THEN conjunct2, THEN conjunct2,
      THEN conjunct2, THEN conjunct1]]
    by (simp add: owned_def)
  moreover have "kconfig_ok (kc c)" using rx_inv_ring [OF assms] by (simp add: ring_inv_def)
  ultimately have "length K \<le> 256" using rx_cap_small(5) [of c] by simp
  then show ?thesis using assms by (simp add: rx_inv_def)
qed

lemma held_buffer_size:
  assumes "rx_inv c (rx # W) K H d"
  shows "unat (eth_buffer_size c) \<le> length (rxb_bytes (rx_buffer d ! rx))"
proof -
  have k: "kconfig_ok (kc c)" using rx_inv_ring [OF assms] by (simp add: ring_inv_def)
  have "rx < length (rx_buffer d)"
    using rx_inv_distinct(2) [OF assms] assms by (auto simp: rx_inv_def buffers_ok_def)
  then have "length (rxb_bytes (rx_buffer d ! rx)) = net_eth_max_frame_size (kc c)"
    using assms by (auto simp: rx_inv_def buffers_ok_def)
  with k show ?thesis by (simp add: kconfig_ok_def)
qed

interpretation direct_pool: rx_pool emz_rx_direct_enabled rx_inv
  by unfold_locales (rule worker_take_inv worker_release_inv frag_destroy_inv lend_inv
    held_buffer_size pool_size | assumption)+

lemmas worker_step_accounts = direct_pool.round_accounts

text \<open>
  A round of the RX worker never reads outside a buffer and never loses one: it always
  returns, and the buffer it took is again free or in the ring, or the network stack has
  it, which happens only while the stack holds fewer buffers than the zero-copy limit.
\<close>
theorem worker_round_accounts:
  assumes direct: "emz_rx_direct_enabled c" and inv: "rx_inv c W K H (dat s)"
    and ready: "rx_ready_fifo (dat s) = rx # rest"
  shows "\<exists>lent s'. emz_rx_thread_step c s = Some (lent, s') \<and>
    (lent = None \<and> rx_inv c W K H (dat s') \<or>
     lent = Some rx \<and> rx_inv c W (rx # K) H (dat s') \<and>
       length K < rx_max_stack_owned_zerocopy (kc c))"
  using worker_step_accounts [OF direct inv ready] .

end
