(* ===== verification/RxTrace.thy ===== *)
theory RxTrace
  imports RxWorker
begin

text \<open>
  What the receive handlers of \<^verbatim>\<open>drivers/ethernet/eth_emaczero.c\<close> leave alone outside the
  driver's data. The locale \<open>quiet_observer\<close> is the interface: something observed of a state
  that neither the data, the statistics, the clock nor the hardware events (registers,
  barriers, cache lines, interrupt masking) change. Refilling and releasing buffers do not
  change what such an observer sees; \<open>trace_observer\<close> adds that nothing in \<open>aux\<close> matters,
  so that an interceptor cannot change it either. The observers of the development are the
  requests for recovery, the frames handed to the network stack and the profile mode.
\<close>

section \<open>Observers\<close>

fun hw_only :: "hw_ev \<Rightarrow> bool" where
  "hw_only Submit_recover_work = False"
| "hw_only Schedule_poll_work = False"
| "hw_only Eth_errors_rx = False"
| "hw_only Eth_errors_tx = False"
| "hw_only (Set_link_addr a) = False"
| "hw_only (Ext_called x r) = False"
| "hw_only e = True"

definition keeps_mode :: "(emaczero_profile_state \<Rightarrow> emaczero_profile_state) \<Rightarrow> bool" where
  "keeps_mode h \<longleftrightarrow> (\<forall>p. prof_mode (h p) = prof_mode p)"

lemma keeps_mode_profile [simp]:
  "keeps_mode (emaczero_profile_counter k)" "keeps_mode (emaczero_profile_note_release v)"
  "keeps_mode (emaczero_profile_add_cycles a v)" "keeps_mode (emaczero_profile_max m v)"
  "keeps_mode (emaczero_profile_min n v)"
  by (cases m; cases n; simp add: keeps_mode_def emaczero_profile_counter_def emaczero_profile_note_release_def
      emaczero_profile_add_cycles_def Let_def)+

locale quiet_observer =
  fixes obs :: "emz \<Rightarrow> 'a"
  assumes obs_dat: "obs (upd_dat f s) = obs s"
    and obs_perf: "obs (upd_perf g s) = obs s"
    and obs_prof: "keeps_mode h \<Longrightarrow> obs (upd_prof c h s) = obs s"
    and obs_tick: "obs (tick s) = obs s"
    and obs_hw: "hw_only e \<Longrightarrow> obs (emit e s) = obs s"
begin

lemmas obs_base = obs_dat obs_perf obs_prof obs_tick obs_hw

lemma obs_reg: "obs (reg_write a v s) = obs s" "obs (reg_read a s) = obs s"
  by (simp_all add: reg_write_def reg_read_def obs_base)

lemma obs_stats:
  "obs (r7_since c slot start s) = obs s"
  "obs (emz_r7_note_lock c s) = obs s"
  "obs (emz_perf_update_pool_inflight c s) = obs s"
  "obs (emz_perf_set_bd_available c s) = obs s"
  "obs (emz_perf_note_dma_callback_gap c now s) = obs s"
  "obs (prof_cycles_since c cy start s) = obs s"
  "obs (put_perf p s) = obs s"
  by (simp_all add: r7_since_def emz_r7_note_lock_def emz_perf_update_pool_inflight_def
      emz_perf_set_bd_available_def emz_perf_note_dma_callback_gap_def prof_cycles_since_def put_perf_def
      obs_base Let_def)

lemma obs_cache:
  "obs (emz_dma_cache_flush c a n s) = obs s"
  "obs (emz_dma_cache_invd c a n s) = obs s"
  by (simp_all add: emz_dma_cache_flush_def emz_dma_cache_invd_def emz_dma_cache_range_def Let_def
      emz_dma_cache_fence_def emz_dma_cache_clean_line_def emz_dma_cache_invd_line_def obs_base
      fold_frame [where f = obs])

lemmas obs_all = obs_base obs_reg obs_stats obs_cache

lemma obs_post_one:
  "emz_rx_direct_post_one c rx s = (ret, s') \<Longrightarrow> obs s' = obs s"
  by (auto simp: emz_rx_direct_post_one_def emz_rx_direct_program_bd_def Let_def obs_all split: if_splits)

lemma obs_refill_loop: "obs (snd (direct_refill_loop c q s)) = obs s"
proof (induction c q s rule: direct_refill_loop.induct)
  case (1 c q s)
  show ?case
  proof (cases "rx_free_fifo (dat s)")
    case Nil
    then show ?thesis by (simp add: direct_refill_loop.simps [of c q s] Let_def obs_all)
  next
    case (Cons rx rest)
    obtain ret s1 where p:
      "emz_rx_direct_post_one c rx (upd_dat (\<lambda>d. d\<lparr>rx_free_fifo := rest\<rparr>) s) = (ret, s1)"
      by (cases "emz_rx_direct_post_one c rx (upd_dat (\<lambda>d. d\<lparr>rx_free_fifo := rest\<rparr>) s)")
    have "obs (note_posted c s') = obs s'" for s' by (simp add: note_posted_def Let_def obs_all)
    then show ?thesis
      using 1 [OF Cons p [symmetric]] obs_post_one [OF p] Cons p
      by (simp add: direct_refill_loop.simps [of c q s] obs_all)
  qed
qed

lemma obs_refill: "obs (snd (emz_rx_direct_refill c s)) = obs s"
  using obs_refill_loop [of c 0 s]
  by (cases "direct_refill_loop c 0 s")
    (simp add: emz_rx_direct_refill_def emz_rx_direct_update_tail_def emz_dma_write_def Let_def obs_all)

lemma obs_refill_dma_rx:
  assumes "emz_rx_direct_enabled c"
  shows "obs (snd (emz_refill_dma_rx c s)) = obs s"
proof -
  let ?s = "upd_perf (inc64 Rx_refill_calls) (upd_prof c (emaczero_profile_counter COUNTER_RX_REFILL_CALLS) (tick s))"
  show ?thesis
    using assms obs_refill [of c ?s]
    by (cases "emz_rx_direct_refill c ?s") (simp add: emz_refill_dma_rx_def Let_def obs_all)
qed

lemma obs_release:
  assumes "emz_rx_direct_enabled c"
  shows "obs (emz_release_rx_buffer c rx s) = obs s"
    and "obs (emz_release_rx_buffer_from_worker c rx s) = obs s"
    and "obs (emz_rx_frag_destroy c (Some rx) s) = obs s"
proof -
  show r: "obs (emz_release_rx_buffer c rx s) = obs s" for s
    by (simp add: emz_release_rx_buffer_def Let_def obs_refill_dma_rx [OF assms] obs_all)
  show "obs (emz_release_rx_buffer_from_worker c rx s) = obs s"
    by (simp add: emz_release_rx_buffer_from_worker_def Let_def r obs_all)
  show "obs (emz_rx_frag_destroy c (Some rx) s) = obs s"
    by (simp add: emz_rx_frag_destroy_def Let_def r obs_all)
qed

lemma obs_note_completed: "obs (note_completed c e s) = obs s"
  by (simp add: note_completed_def Let_def obs_all)

lemma obs_poll_keep: "emz_rx_direct_enabled c \<Longrightarrow> obs (poll_keep c rx b s) = obs s"
  by (simp add: poll_keep_def Let_def obs_release obs_note_completed obs_all)

lemma obs_poll_mark: "obs (poll_mark c rx status s) = obs s"
  by (simp add: poll_mark_def Let_def obs_all)

lemma obs_poll_take_Some: "poll_take c s = (Some p, s') \<Longrightarrow> obs s' = obs s"
  by (auto simp: poll_take_def Let_def obs_all split: if_splits option.splits)

text \<open>A poll requests recovery only where the request flag was clear.\<close>

lemma obs_poll_take_None:
  "poll_take c s = (None, s') \<Longrightarrow> rx_direct_recover_pending (dat s) \<Longrightarrow>
   obs s' = obs s \<and> rx_direct_recover_pending (dat s')"
  by (auto simp: poll_take_def Let_def emz_rx_direct_request_recover_def obs_all split: if_splits option.splits)

lemma obs_recover_body: "obs (recover_body c s) = obs s"
  by (simp add: recover_body_def Let_def emz_dma_write_def emz_rx_direct_arm_def obs_refill obs_all)

end

locale trace_observer = quiet_observer +
  assumes obs_aux: "obs (s\<lparr>aux := a\<rparr>) = obs s"
begin

lemma obs_interceptor: "run_interceptor f b s = (eaten, s') \<Longrightarrow> obs s' = obs s"
  by (auto simp: run_interceptor_def obs_aux split: option.splits prod.splits)

lemma obs_poll_dispatch:
  assumes "emz_rx_direct_enabled c"
  shows "obs (poll_dispatch c rx status s) = obs s"
proof -
  let ?s = "poll_mark c rx status s"
  let ?b = "rx_buffer (dat ?s) ! rx"
  obtain eaten s2 where e: "(if rxb_status ?b = 0 then run_interceptor (rx_interceptor (dat ?s)) ?b ?s
      else (False, ?s)) = (eaten, s2)" by (metis surj_pair)
  then have s2: "obs s2 = obs s"
    by (auto dest: obs_interceptor simp: obs_poll_mark split: if_splits)
  have "poll_dispatch c rx status s =
      (if eaten then note_completed c False (emz_release_rx_buffer c rx s2) else poll_keep c rx ?b s2)"
    unfolding poll_dispatch_def Let_def e by simp
  then show ?thesis
    using s2 by (simp add: obs_poll_keep [OF assms] obs_release [OF assms] obs_note_completed)
qed

end

section \<open>The observers of the development\<close>

definition recover_submits :: "emz \<Rightarrow> nat" where
  "recover_submits s = ev_count (\<lambda>e. e = Submit_recover_work) s"

text \<open>The frames handed to \<^verbatim>\<open>net_recv_data\<close>, oldest first.\<close>

fun recv_frame :: "hw_ev \<Rightarrow> u8 list option" where
  "recv_frame (Ext_called (Ext_net_recv_data frame) ret) = Some frame"
| "recv_frame e = None"

definition recv_frames :: "emz \<Rightarrow> u8 list list" where
  "recv_frames s = List.map_filter recv_frame (rev (tr s))"

definition rx_mode :: "emz \<Rightarrow> emaczero_profile_mode" where
  "rx_mode s = emaczero_profile_get_mode (prof (aux s))"

lemma hw_only_other: "hw_only e \<Longrightarrow> e \<noteq> Submit_recover_work" "hw_only e \<Longrightarrow> recv_frame e = None"
  by (cases e; simp)+

interpretation submits: trace_observer recover_submits
  by unfold_locales (auto simp: recover_submits_def dest: hw_only_other)

interpretation frames: trace_observer recv_frames
  by unfold_locales (simp_all add: recv_frames_def hw_only_other List.map_filter_def)

interpretation mode: quiet_observer rx_mode
  by unfold_locales
    (simp_all add: rx_mode_def emaczero_profile_get_mode_def keeps_mode_def upd_dat_def upd_perf_def upd_prof_def
      tick_def emit_def)

lemma submits_emit [simp]:
  "recover_submits (emit Submit_recover_work s) = recover_submits s + 1"
  by (simp add: recover_submits_def)

section \<open>Recovery requests through a poll\<close>

lemma d_refill_pending: "rx_direct_recover_pending (d_refill c d) = rx_direct_recover_pending d"
proof (induction c d rule: d_refill.induct)
  case (1 c d)
  then show ?case
    by (cases "rx_free_fifo d") (simp_all add: d_refill.simps [of c d] d_post_def Let_def)
qed

lemma pending_kept:
  "rx_direct_recover_pending (d_retire c d) = rx_direct_recover_pending d"
  "rx_direct_recover_pending (d_enqueue rx d) = rx_direct_recover_pending d"
  "rx_direct_recover_pending (d_result c rx status now d) = rx_direct_recover_pending d"
  "rx_direct_recover_pending (d_release c rx d) = rx_direct_recover_pending d"
  by (simp_all add: d_retire_def d_enqueue_def d_result_def upd_rx_def d_release_def d_refill_pending Let_def)

lemma poll_dispatch_pending:
  assumes "emz_rx_direct_enabled c"
  shows "rx_direct_recover_pending (dat (poll_dispatch c rx status s)) = rx_direct_recover_pending (dat s)"
  using poll_dispatch_dat [OF assms, of rx status s] by (auto simp: pending_kept)

lemma poll_loop_pending:
  assumes "emz_rx_direct_enabled c" and "rx_direct_recover_pending (dat s)"
  shows "rx_direct_recover_pending (dat (snd (poll_loop c q s))) \<and>
    recover_submits (snd (poll_loop c q s)) = recover_submits s"
  using assms
proof (induction c q s rule: poll_loop.induct)
  case (1 c q s)
  show ?case
  proof (cases "poll_take c s")
    case (Pair x s1)
    show ?thesis
    proof (cases x)
      case None
      then show ?thesis
        using Pair 1(3) submits.obs_poll_take_None [of c s s1] by (simp add: poll_loop.simps [of c q s])
    next
      case (Some p)
      obtain rx status where p: "p = (rx, status)" by (cases p)
      note t = Pair [unfolded Some p]
      have "rx_direct_recover_pending (dat (poll_dispatch c rx status s1))"
        using poll_take_Some [OF t] 1(3) by (simp add: poll_dispatch_pending [OF 1(2)] pending_kept)
      moreover have "recover_submits (poll_dispatch c rx status s1) = recover_submits s"
        using submits.obs_poll_take_Some [OF t] by (simp add: submits.obs_poll_dispatch [OF 1(2)])
      ultimately show ?thesis
        using 1(1) [OF _ t [symmetric] refl refl 1(2)] t 1(3)
        by (simp add: poll_loop.simps [of c q s])
    qed
  qed
qed

lemma poll_pending:
  assumes "emz_rx_direct_enabled c" and "rx_direct_recover_pending (dat s)"
  shows "rx_direct_recover_pending (dat (emz_rx_direct_poll c s)) \<and>
    recover_submits (emz_rx_direct_poll c s) = recover_submits s"
  using poll_loop_pending [OF assms, of 0] assms(1)
  by (cases "poll_loop c 0 s")
    (simp add: emz_rx_direct_poll_def Let_def d_refill_pending submits.obs_refill_dma_rx submits.obs_all)

end
