(* ===== verification/RxSystem.thy ===== *)
theory RxSystem
  imports RxWorker Boot
begin

text \<open>
  The receive path of \<^verbatim>\<open>drivers/ethernet/eth_emaczero.c\<close> as one system: the DMA engine, the
  interrupt, the 1 ms poll, the recovery work, the worker thread and the network stack take
  steps in any order. A system state is the driver and the list of buffers the stack holds.
  Handlers are atomic steps here; the one interleaving inside a handler that matters, an
  interrupt between \<^verbatim>\<open>irq_enable\<close> and the end of recovery, is the subject of the \<open>RecoverRace\<close>
  theory. The engine may write any status word, and any bytes within the buffer, to a
  descriptor that is posted, and touches nothing else.
\<close>

section \<open>The steps\<close>

definition engine_complete :: "nat \<Rightarrow> u32 \<Rightarrow> u8 list \<Rightarrow> emaczero_data \<Rightarrow> emaczero_data" where
  "engine_complete slot status bytes d =
     (case rx_bd_buffer d ! slot of
        None \<Rightarrow> d
      | Some rx \<Rightarrow>
          upd_rx rx (\<lambda>b. b\<lparr>rxb_bytes := (if length bytes = length (rxb_bytes b) then bytes else rxb_bytes b)\<rparr>)
            (d\<lparr>rx_bd_ring := (rx_bd_ring d)[slot := (rx_bd_ring d ! slot)\<lparr>bd_status := status\<rparr>]\<rparr>))"

definition lent_to :: "nat option \<Rightarrow> nat list \<Rightarrow> nat list" where
  "lent_to lent K = (case lent of None \<Rightarrow> K | Some rx \<Rightarrow> rx # K)"

inductive rx_step :: "ctx \<Rightarrow> emz \<times> nat list \<Rightarrow> emz \<times> nat list \<Rightarrow> bool" for c :: ctx where
  step_engine: "slot < rx_count c \<Longrightarrow> rx_step c (s, K) (upd_dat (engine_complete slot status bytes) s, K)"
| step_isr: "rx_step c (s, K) (emz_rx_direct_isr c s, K)"
| step_poll: "rx_step c (s, K) (emz_rx_direct_poll_work_handler c s, K)"
| step_recover: "rx_step c (s, K) (emz_rx_direct_recover_work_handler c s, K)"
| step_worker: "emz_rx_thread_step c s = Some (lent, s') \<Longrightarrow> rx_step c (s, K) (s', lent_to lent K)"
| step_free: "rx \<in> set K \<Longrightarrow> rx_step c (s, K) (emz_rx_frag_destroy c (Some rx) s, remove1 rx K)"

inductive_cases rx_stepE: "rx_step c x y"

inductive rx_reach :: "ctx \<Rightarrow> emz \<Rightarrow> emz \<times> nat list \<Rightarrow> bool" for c :: ctx and s0 :: emz where
  reach_start: "rx_reach c s0 (s0, [])"
| reach_step: "rx_reach c s0 x \<Longrightarrow> rx_step c x y \<Longrightarrow> rx_reach c s0 y"

section \<open>The invariant of the system\<close>

lemma engine_inv:
  assumes inv: "rx_inv c W K H d"
  shows "rx_inv c W K H (engine_complete slot status bytes d)"
proof (cases "rx_bd_buffer d ! slot")
  case None
  with inv show ?thesis by (simp add: engine_complete_def)
next
  case (Some rx)
  let ?d = "d\<lparr>rx_bd_ring := (rx_bd_ring d)[slot := (rx_bd_ring d ! slot)\<lparr>bd_status := status\<rparr>]\<rparr>"
  have "bds_ok c ?d"
    using inv by (cases "slot < length (rx_bd_ring d)")
      (auto simp: rx_inv_def bds_ok_def nth_list_update list_update_beyond)
  then have "rx_inv c W K H ?d"
    using inv by (simp add: rx_inv_def ring_inv_def owned_def posted_buffers_def buffers_ok_def)
  then show ?thesis
    unfolding engine_complete_def Some option.case by (rule upd_rx_inv) simp_all
qed

lemma rx_inv_stack_perm:
  assumes "mset K = mset K'" and "rx_inv c W K H d"
  shows "rx_inv c W K' H d"
  using assms mset_eq_length [OF assms(1)] by (simp add: rx_inv_def owned_def)

lemma stack_take_out:
  assumes "rx \<in> set K" and "rx_inv c W K H d"
  shows "rx_inv c W (rx # remove1 rx K) H d"
  using assms by (intro rx_inv_stack_perm [OF _ assms(2)]) simp

definition sys_inv :: "ctx \<Rightarrow> emz \<times> nat list \<Rightarrow> bool" where
  "sys_inv c x \<longleftrightarrow> (case x of (s, K) \<Rightarrow>
     rx_inv c [] K [] (dat s) \<and> length K \<le> rx_max_stack_owned_zerocopy (kc c))"

lemma worker_step_inv:
  assumes direct: "emz_rx_direct_enabled c" and inv: "rx_inv c W K H (dat s)"
    and step: "emz_rx_thread_step c s = Some (lent, s')" and few: "length K \<le> rx_max_stack_owned_zerocopy (kc c)"
  shows "rx_inv c W (lent_to lent K) H (dat s') \<and>
    length (lent_to lent K) \<le> rx_max_stack_owned_zerocopy (kc c)"
proof (cases "rx_ready_fifo (dat s)")
  case Nil
  then show ?thesis using step inv few by (auto simp: emz_rx_thread_step_def lent_to_def)
next
  case (Cons rx rest)
  then show ?thesis
    using worker_step_accounts [OF direct inv Cons] step few by (auto simp: lent_to_def)
qed

lemma sys_inv_step:
  assumes direct: "emz_rx_direct_enabled c" and "rx_step c x y" and "sys_inv c x"
  shows "sys_inv c y"
  using assms(2,3)
proof (cases rule: rx_step.cases)
  case (step_worker s lent s' K)
  then show ?thesis using assms(3) worker_step_inv [OF direct] by (auto simp: sys_inv_def)
next
  case (step_free rx K s)
  then have "rx_inv c [] (rx # remove1 rx K) [] (dat s)" using assms(3) stack_take_out by (simp add: sys_inv_def)
  from frag_destroy_inv [OF direct this] step_free show ?thesis
    using assms(3) by (auto simp: sys_inv_def length_remove1 simp del: frag_destroy_dat)
qed (use assms(3) in \<open>simp_all add: sys_inv_def engine_inv isr_inv [OF direct] poll_work_inv [OF direct]
    recover_inv emz_rx_direct_recover_work_handler_def\<close>)

lemma sys_inv_reach:
  assumes "emz_rx_direct_enabled c" and "rx_reach c s0 x" and "rx_inv c [] [] [] (dat s0)"
  shows "sys_inv c x"
  using assms(2)
proof induction
  case reach_start
  with assms(3) show ?case by (simp add: sys_inv_def)
next
  case (reach_step x y)
  then show ?case using sys_inv_step [OF assms(1)] by blast
qed

text \<open>The worker never gets stuck on a read outside a buffer.\<close>

lemma worker_runs:
  assumes "emz_rx_direct_enabled c" and "rx_inv c W K H (dat s)"
  shows "\<exists>r. emz_rx_thread_step c s = Some r"
  using worker_step_accounts [OF assms] by (cases "rx_ready_fifo (dat s)") (auto simp: emz_rx_thread_step_def)


end
