(* ===== verification/RxDelivery.thy ===== *)
theory RxDelivery
  imports RxTrace RxSystem
begin

text \<open>
  The receive path of \<^verbatim>\<open>drivers/ethernet/eth_emaczero.c\<close> end to end: under normal traffic
  the frames the engine completes reach \<^verbatim>\<open>net_recv_data\<close> once each, in ring order, with
  exactly the bytes the engine wrote. Normal traffic means that no interceptor and no drop
  mode takes frames, the interface is up and the network stack accepts packets.
\<close>

section \<open>Normal traffic\<close>

definition stack_accepts :: "ctx \<Rightarrow> bool" where
  "stack_accepts c \<longleftrightarrow> (\<forall>s. ext_ret c Ext_net_if_is_up s \<noteq> 0 \<and> ext_ret c Ext_net_pkt_rx_alloc s \<noteq> 0 \<and>
     ext_ret c Ext_net_buf_alloc_zc s \<noteq> 0 \<and> copy_frag_ok c (ext_ret c Ext_net_buf_alloc_copy s) \<and>
     (\<forall>f. 0 \<le> ext_ret c (Ext_net_recv_data f) s \<and> ext_ret c (Ext_net_pkt_write f) s = 0))"

definition normal_traffic :: "ctx \<Rightarrow> emz \<Rightarrow> bool" where
  "normal_traffic c s \<longleftrightarrow> iface (dat s) \<and> rx_interceptor (dat s) = None \<and>
     (cfg_profile (kc c) \<longrightarrow> rx_mode s = EMACZERO_PROFILE_MODE_NORMAL)"

lemma normal_keeps_all: "normal_traffic c s \<Longrightarrow> keeps_all c s"
  by (auto simp: normal_traffic_def keeps_all_def rx_mode_def)

definition frame_of :: "emaczero_rx_buffer \<Rightarrow> u8 list" where
  "frame_of b = take (unat (rxb_len b)) (rxb_bytes b)"

lemma mode_emit [simp]: "rx_mode (emit e s) = rx_mode s" "rx_mode (ext_call c x s) = rx_mode s"
  by (simp_all add: rx_mode_def emit_def ext_call_def tick_def)

lemma frames_ext [simp]:
  "recv_frames (ext_call c (Ext_net_recv_data f) s) = recv_frames s @ [f]"
  "recv_frames (ext_call c Ext_net_if_is_up s) = recv_frames s"
  "recv_frames (ext_call c Ext_net_pkt_rx_alloc s) = recv_frames s"
  "recv_frames (ext_call c Ext_net_buf_alloc_zc s) = recv_frames s"
  "recv_frames (ext_call c Ext_net_buf_alloc_copy s) = recv_frames s"
  "recv_frames (ext_call c (Ext_net_pkt_write f) s) = recv_frames s"
  by (simp_all add: ext_call_def frames.obs_tick)
    (simp_all add: recv_frames_def List.map_filter_def)

lemma drop_normal: "cfg_profile (kc c) \<longrightarrow> rx_mode s = EMACZERO_PROFILE_MODE_NORMAL \<Longrightarrow>
  drop_after_pkt c b s = Some False"
  by (auto simp: drop_after_pkt_def rx_mode_def)

lemma capture_obs:
  assumes "capture_rx b s = Some s'"
  shows "recv_frames s' = recv_frames s" and "rx_mode s' = rx_mode s"
  using assms by (auto simp: capture_rx_def frames.obs_stats mode.obs_stats)

section \<open>What a refill leaves of the data\<close>

lemma d_refill_keeps:
  "rx_ready_fifo (d_refill c d) = rx_ready_fifo d \<and> rx_buffer (d_refill c d) = rx_buffer d \<and>
   iface (d_refill c d) = iface d \<and> rx_interceptor (d_refill c d) = rx_interceptor d"
proof (induction c d rule: d_refill.induct)
  case (1 c d)
  then show ?case
    by (cases "rx_free_fifo d") (simp_all add: d_refill.simps [of c d] d_post_def Let_def)
qed

lemma d_release_keeps:
  "rx_ready_fifo (d_release c rx d) = rx_ready_fifo d"
  "x \<noteq> rx \<Longrightarrow> rx_buffer (d_release c rx d) ! x = rx_buffer d ! x"
  "iface (d_release c rx d) = iface d" "rx_interceptor (d_release c rx d) = rx_interceptor d"
  by (simp_all add: d_release_def d_refill_keeps)

section \<open>One round of the worker\<close>

text \<open>What a round that delivers the frame of \<open>b\<close> leaves behind, seen from \<open>s\<close>.\<close>

definition delivered :: "ctx \<Rightarrow> nat \<Rightarrow> emaczero_rx_buffer \<Rightarrow> emz \<Rightarrow> emz \<Rightarrow> bool" where
  "delivered c rx b s s' \<longleftrightarrow> recv_frames s' = recv_frames s @ [frame_of b] \<and>
     rx_ready_fifo (dat s') = rx_ready_fifo (dat s) \<and> rx_mode s' = rx_mode s \<and>
     iface (dat s') = iface (dat s) \<and> rx_interceptor (dat s') = rx_interceptor (dat s) \<and>
     (\<forall>x. x \<noteq> rx \<longrightarrow> rx_buffer (dat s') ! x = rx_buffer (dat s) ! x)"

lemma build_copy_delivers:
  assumes "stack_accepts c" and "unat (rxb_len b) \<le> length (rxb_bytes b)"
  shows "\<exists>s'. build_copy c rx b s = Some (Some (frame_of b), s') \<and> dat s' = dat s \<and>
    recv_frames s' = recv_frames s \<and> rx_mode s' = rx_mode s"
  using assms
  by (auto simp: build_copy_def emz_rx_copy_frag_alloc_def stack_accepts_def frame_of_def Let_def)

lemma thread_copy_delivers:
  assumes direct: "emz_rx_direct_enabled c" and ok: "stack_accepts c"
    and len: "unat (rxb_len (rx_buffer (dat s) ! rx)) \<le> length (rxb_bytes (rx_buffer (dat s) ! rx))"
    and mode: "cfg_profile (kc c) \<longrightarrow> rx_mode s = EMACZERO_PROFILE_MODE_NORMAL"
  shows "\<exists>s'. thread_copy c rx r7 bs s = Some (None, s') \<and> delivered c rx (rx_buffer (dat s) ! rx) s s'"
proof -
  let ?b = "rx_buffer (dat s) ! rx"
  obtain s1 where built: "build_copy c rx ?b (ext_call c Ext_net_pkt_rx_alloc s) = Some (Some (frame_of ?b), s1)"
    and s1: "dat s1 = dat s" "recv_frames s1 = recv_frames s" "rx_mode s1 = rx_mode s"
    using build_copy_delivers [OF ok len, of rx "ext_call c Ext_net_pkt_rx_alloc s"] by auto
  define s2 where "s2 = prof_cycles_since c CYCLES_RX_BUILD bs
    (upd_prof c (emaczero_profile_counter COUNTER_RX_COPY_FALLBACK) s1)"
  define s3 where "s3 = (if cfg_profile (kc c) then tick s2 else s2)"
  have s3: "dat s3 = dat s" "recv_frames s3 = recv_frames s" "rx_mode s3 = rx_mode s"
    using s1 by (simp_all add: s2_def s3_def frames.obs_all mode.obs_all)
  have drop: "drop_after_pkt c ?b s2 = Some False"
    using mode s1 by (intro drop_normal) (simp add: s2_def mode.obs_all)
  obtain s4 where cap: "capture_rx ?b s3 = Some s4" and d4: "dat s4 = dat s3"
    using capture_rx_Some [OF len, of s3] by blast
  define s5 where "s5 = r7_since c EMZ_R7_RX_THREAD_BUILD r7 (prof_cycles_since c CYCLES_NET_RECV
    (cycle_now c s2) (submit_copy c (frame_of ?b) s4))"
  have r: "\<not> ext_ret c (Ext_net_recv_data f) s4 < 0" for f
    using ok by (simp add: stack_accepts_def not_less)
  have s5: "dat s5 = dat s" "recv_frames s5 = recv_frames s @ [frame_of ?b]" "rx_mode s5 = rx_mode s"
    using s3 d4 capture_obs [OF cap] r
    by (simp_all add: s5_def submit_copy_def Let_def frames.obs_all mode.obs_all)
  have "ext_ret c Ext_net_pkt_rx_alloc s \<noteq> 0" using ok by (simp add: stack_accepts_def)
  then have "thread_copy c rx r7 bs s = Some (None, emz_release_rx_buffer_from_worker c rx s5)"
    using built drop cap
    by (cases "cfg_profile (kc c)") (simp_all add: thread_copy_def Let_def s2_def [symmetric] s3_def s5_def)
  then show ?thesis
    using s5 by (simp add: delivered_def frames.obs_release [OF direct] mode.obs_release [OF direct] direct
        d_release_keeps)
qed

lemma thread_zero_copy_delivers:
  assumes ok: "stack_accepts c"
    and len: "unat (rxb_len (rx_buffer (dat s) ! rx)) \<le> length (rxb_bytes (rx_buffer (dat s) ! rx))"
    and mode: "cfg_profile (kc c) \<longrightarrow> rx_mode s = EMACZERO_PROFILE_MODE_NORMAL"
  shows "\<exists>s'. thread_zero_copy c rx r7 bs s = Some (Some rx, s') \<and> delivered c rx (rx_buffer (dat s) ! rx) s s'"
proof -
  let ?b = "rx_buffer (dat s) ! rx"
  let ?s = "ext_call c Ext_net_buf_alloc_zc (ext_call c Ext_net_pkt_rx_alloc s)"
  define s2 where "s2 = prof_cycles_since c CYCLES_RX_BUILD bs (lend c rx ?s)"
  define s3 where "s3 = (if cfg_profile (kc c) then tick s2 else s2)"
  have s2: "recv_frames s2 = recv_frames s" "rx_mode s2 = rx_mode s"
    by (simp_all add: s2_def lend_def Let_def frames.obs_all mode.obs_all)
  have d2: "rx_ready_fifo (dat s2) = rx_ready_fifo (dat s)" "iface (dat s2) = iface (dat s)"
    "rx_interceptor (dat s2) = rx_interceptor (dat s)"
    "x \<noteq> rx \<Longrightarrow> rx_buffer (dat s2) ! x = rx_buffer (dat s) ! x" for x
    by (simp_all add: s2_def lend_def Let_def upd_rx_def)
  have s3: "dat s3 = dat s2" "recv_frames s3 = recv_frames s" "rx_mode s3 = rx_mode s"
    using s2 by (simp_all add: s3_def frames.obs_all mode.obs_all)
  have drop: "drop_after_pkt c ?b s2 = Some False" using mode s2 by (intro drop_normal) simp
  obtain s4 where cap: "capture_rx ?b s3 = Some s4" and d4: "dat s4 = dat s3"
    using capture_rx_Some [OF len, of s3] by blast
  define s5 where "s5 = snd (submit_zero_copy c rx (frame_of ?b) s4)"
  have r: "\<not> ext_ret c (Ext_net_recv_data f) s4 < 0" for f
    using ok by (simp add: stack_accepts_def not_less)
  then have sub: "submit_zero_copy c rx (frame_of ?b) s4 = (Some rx, s5)"
    by (simp add: s5_def submit_zero_copy_def Let_def)
  have s5: "dat s5 = dat s2" "recv_frames s5 = recv_frames s @ [frame_of ?b]" "rx_mode s5 = rx_mode s"
    using s3 d4 capture_obs [OF cap] r
    by (simp_all add: s5_def submit_zero_copy_def Let_def frames.obs_all mode.obs_all)
  have "thread_zero_copy c rx r7 bs s = Some (Some rx, r7_since c EMZ_R7_RX_THREAD_BUILD r7
      (prof_cycles_since c CYCLES_NET_RECV (cycle_now c s2) s5))"
    using ok drop cap sub len
    by (cases "cfg_profile (kc c)")
      (simp_all add: thread_zero_copy_def Let_def stack_accepts_def s2_def [symmetric] s3_def frame_of_def)
  then show ?thesis
    using s5 d2 by (simp add: delivered_def frames.obs_all mode.obs_all)
qed


text \<open>One step of the worker delivers the frame of the oldest ready buffer and nothing else.\<close>

lemma worker_step_delivers:
  assumes direct: "emz_rx_direct_enabled c" and inv: "rx_inv c W K H (dat s)" and ok: "stack_accepts c"
    and normal: "normal_traffic c s" and ready: "rx_ready_fifo (dat s) = rx # rest"
    and valid: "\<not> invalid_result c (rx_buffer (dat s) ! rx)"
  shows "\<exists>lent s'. emz_rx_thread_step c s = Some (lent, s') \<and>
    recv_frames s' = recv_frames s @ [frame_of (rx_buffer (dat s) ! rx)] \<and>
    rx_ready_fifo (dat s') = rest \<and> normal_traffic c s' \<and>
    (\<forall>x. x \<noteq> rx \<longrightarrow> rx_buffer (dat s') ! x = rx_buffer (dat s) ! x)"
proof -
  let ?b = "rx_buffer (dat s) ! rx"
  define bs where "bs = cycle_now c (tick s)"
  define s1 where "s1 = thread_take c rest (if cfg_profile (kc c) then tick (tick s) else tick s)"
  have d1: "dat s1 = (dat s)\<lparr>rx_ready_fifo := rest, rx_ready_fifo_count := rx_ready_fifo_count (dat s) - 1,
      rx_worker_count := rx_worker_count (dat s) + 1\<rparr>" by (simp add: s1_def)
  have step: "emz_rx_thread_step c s = thread_round c rx (cycle_now c s) bs s1"
    by (simp add: emz_rx_thread_step_def ready Let_def bs_def s1_def)
  have o1: "recv_frames s1 = recv_frames s" "rx_mode s1 = rx_mode s"
    by (simp_all add: s1_def thread_take_def Let_def frames.obs_all mode.obs_all)
  let ?s2 = "ext_call c Ext_net_if_is_up s1"
  have len: "unat (rxb_len ?b) \<le> length (rxb_bytes ?b)"
    using held_buffer_in_bounds [OF worker_take_inv [OF inv ready]] by simp
  obtain p where p: "emz_note_rx_pre_stack (mac (dat ?s2)) ?b (perf (aux ?s2)) = Some p"
    using frame_notes_Some [OF len] by blast
  define s3 where "s3 = put_perf p ?s2"
  have s3: "dat s3 = dat s1" "recv_frames s3 = recv_frames s" "rx_mode s3 = rx_mode s"
    by (simp_all add: s3_def o1 frames.obs_stats mode.obs_stats)
  have b3: "rx_buffer (dat s3) ! rx = ?b" by (simp add: s3 d1)
  have mode3: "cfg_profile (kc c) \<longrightarrow> rx_mode s3 = EMACZERO_PROFILE_MODE_NORMAL"
    using normal s3 by (simp add: normal_traffic_def)
  have r: "thread_round c rx r7 bs s1 =
      (if int (rx_max_stack_owned_zerocopy (kc c)) \<le> sint (rx_stack_owned_count (dat s3))
       then thread_copy c rx r7 bs s3 else thread_zero_copy c rx r7 bs s3)" for r7
    using normal ok valid p
    by (simp add: thread_round_def thread_deliver_def stack_accepts_def normal_traffic_def run_interceptor_def d1
        s3_def [symmetric] s3(1))
  have len3: "unat (rxb_len (rx_buffer (dat s3) ! rx)) \<le> length (rxb_bytes (rx_buffer (dat s3) ! rx))"
    unfolding b3 by (rule len)
  note copy = thread_copy_delivers [OF direct ok len3 mode3, of "cycle_now c s" bs, unfolded b3]
    and zero = thread_zero_copy_delivers [OF ok len3 mode3, of "cycle_now c s" bs, unfolded b3]
  obtain lent s' where "thread_round c rx (cycle_now c s) bs s1 = Some (lent, s') \<and> delivered c rx ?b s3 s'"
    unfolding r using copy zero
    by (cases "int (rx_max_stack_owned_zerocopy (kc c)) \<le> sint (rx_stack_owned_count (dat s3))") auto
  then show ?thesis
    using step s3 d1 normal by (intro exI [of _ lent] exI [of _ s']) (auto simp: delivered_def normal_traffic_def)
qed

section \<open>Rounds in a row\<close>

text \<open>\<open>n\<close> rounds of the worker, with the buffers the stack holds.\<close>

fun worker_rounds :: "ctx \<Rightarrow> nat \<Rightarrow> emz \<times> nat list \<Rightarrow> (emz \<times> nat list) option" where
  "worker_rounds c 0 x = Some x"
| "worker_rounds c (Suc n) x =
     (case emz_rx_thread_step c (fst x) of
        None \<Rightarrow> None
      | Some (lent, s) \<Rightarrow> worker_rounds c n (s, lent_to lent (snd x)))"

definition ready_frames :: "emaczero_data \<Rightarrow> u8 list list" where
  "ready_frames d = map (\<lambda>rx. frame_of (rx_buffer d ! rx)) (rx_ready_fifo d)"

lemma worker_rounds_deliver:
  assumes direct: "emz_rx_direct_enabled c" and ok: "stack_accepts c"
    and "rx_inv c [] K [] (dat s)" and "length K \<le> rx_max_stack_owned_zerocopy (kc c)"
    and "normal_traffic c s"
    and "\<forall>rx \<in> set (rx_ready_fifo (dat s)). \<not> invalid_result c (rx_buffer (dat s) ! rx)"
  shows "\<exists>s' K'. worker_rounds c (length (rx_ready_fifo (dat s))) (s, K) = Some (s', K') \<and>
    recv_frames s' = recv_frames s @ ready_frames (dat s) \<and> rx_ready_fifo (dat s') = [] \<and>
    rx_inv c [] K' [] (dat s')"
  using assms(3-)
proof (induction "rx_ready_fifo (dat s)" arbitrary: s K)
  case Nil
  then show ?case by (simp add: ready_frames_def)
next
  case (Cons rx rest)
  have ready: "rx_ready_fifo (dat s) = rx # rest" using Cons.hyps(2) by simp
  obtain lent s1 where s1: "emz_rx_thread_step c s = Some (lent, s1)"
    "recv_frames s1 = recv_frames s @ [frame_of (rx_buffer (dat s) ! rx)]" "rx_ready_fifo (dat s1) = rest"
    "normal_traffic c s1" "\<forall>x. x \<noteq> rx \<longrightarrow> rx_buffer (dat s1) ! x = rx_buffer (dat s) ! x"
    using worker_step_delivers [OF direct Cons.prems(1) ok Cons.prems(3) ready] Cons.prems(4) ready by auto
  have "rx \<notin> set rest" using rx_inv_distinct(1) [OF Cons.prems(1)] ready by auto
  then have same: "\<forall>x \<in> set rest. rx_buffer (dat s1) ! x = rx_buffer (dat s) ! x" using s1(5) by metis
  have inv1: "rx_inv c [] (lent_to lent K) [] (dat s1)" "length (lent_to lent K) \<le> rx_max_stack_owned_zerocopy (kc c)"
    using worker_step_inv [OF direct Cons.prems(1) s1(1) Cons.prems(2)] by blast+
  have "\<forall>rx \<in> set (rx_ready_fifo (dat s1)). \<not> invalid_result c (rx_buffer (dat s1) ! rx)"
    using Cons.prems(4) same ready s1(3) by simp
  from Cons.hyps(1) [OF s1(3) [symmetric] inv1 s1(4) this] obtain s' K' where
    "worker_rounds c (length rest) (s1, lent_to lent K) = Some (s', K')"
    "recv_frames s' = recv_frames s1 @ ready_frames (dat s1)" "rx_ready_fifo (dat s') = []" "rx_inv c [] K' [] (dat s')"
    using s1(3) by auto
  moreover have "ready_frames (dat s) = frame_of (rx_buffer (dat s) ! rx) # ready_frames (dat s1)"
    using same ready s1(3) by (simp add: ready_frames_def)
  ultimately show ?case using s1(1,2) ready by simp
qed


section \<open>What the poll records\<close>

text \<open>A buffer after the poll has recorded the result of its descriptor.\<close>

definition result_of :: "ctx \<Rightarrow> u32 \<Rightarrow> emaczero_rx_buffer \<Rightarrow> emaczero_rx_buffer \<Rightarrow> bool" where
  "result_of c status b b' \<longleftrightarrow> b' = set_rx_result c status b \<or>
     (\<exists>t. b' = (set_rx_result c status b)\<lparr>rxb_dma_done_cycle := t\<rparr>)"

definition status_len :: "u32 \<Rightarrow> u32" where
  "status_len status = status AND EMZ_AXI_DMA_BD_STATUS_LEN_MASK"

definition good_status :: "ctx \<Rightarrow> u32 \<Rightarrow> bool" where
  "good_status c status \<longleftrightarrow> bd_done status \<and> \<not> bd_failed status \<and> status_len status \<noteq> 0 \<and>
     status_len status \<le> eth_buffer_size c"

lemma good_result:
  assumes "good_status c status"
  shows "set_rx_result c status b = b\<lparr>rxb_status := DMA_STATUS_COMPLETE, rxb_len := status_len status\<rparr>"
proof -
  have "\<not> eth_buffer_size c < status AND EMZ_AXI_DMA_BD_STATUS_LEN_MASK" "\<not> bd_failed status"
    using assms by (simp_all add: good_status_def status_len_def not_less)
  then show ?thesis by (simp add: set_rx_result_def status_len_def Let_def)
qed

lemma result_good:
  assumes "result_of c status b b'" and "good_status c status"
  shows "frame_of b' = take (unat (status_len status)) (rxb_bytes b)" and "\<not> invalid_result c b'"
  using assms [unfolded result_of_def good_result [OF assms(2)]]
  by (auto simp: good_status_def frame_of_def invalid_result_def not_less)

lemma d_result_at:
  assumes "rx < length (rx_buffer d)"
  shows "result_of c status (rx_buffer d ! rx) (rx_buffer (d_result c rx status now d) ! rx)"
  using assms by (cases now) (auto simp: result_of_def d_result_def upd_rx_def Let_def)

lemma d_result_other: "x \<noteq> rx \<Longrightarrow> rx_buffer (d_result c rx status now d) ! x = rx_buffer d ! x"
  by (simp add: d_result_def upd_rx_def)

lemma enqueue_result_bds:
  "posted_bds (d_enqueue rx (d_result c rx' st now d)) = posted_bds d"
  "rx_buffer (d_enqueue rx d) = rx_buffer d"
  "iface (d_enqueue rx (d_result c rx' st now (d_retire c d))) = iface d"
  "rx_interceptor (d_enqueue rx (d_result c rx' st now (d_retire c d))) = rx_interceptor d"
  by (simp_all add: d_enqueue_def d_result_def upd_rx_def posted_bds_def d_retire_def Let_def)

lemma poll_dispatch_mode:
  assumes "emz_rx_direct_enabled c" and "rx_interceptor (dat s) = None"
  shows "rx_mode (poll_dispatch c rx status s) = rx_mode s"
proof -
  have "rx_interceptor (dat (poll_mark c rx status s)) = None"
    using assms(2) by (simp add: poll_mark_dat d_result_def upd_rx_def)
  then have "poll_dispatch c rx status s = poll_keep c rx (rx_buffer (dat (poll_mark c rx status s)) ! rx)
      (poll_mark c rx status s)"
    by (simp add: poll_dispatch_def Let_def run_interceptor_def)
  then show ?thesis by (simp add: mode.obs_poll_keep [OF assms(1)] mode.obs_poll_mark)
qed

lemma poll_take_None_obs:
  assumes "poll_take c s = (None, s')"
  shows "recv_frames s' = recv_frames s" and "rx_mode s' = rx_mode s"
proof -
  have "recv_frames (emz_rx_direct_request_recover x) = recv_frames x"
    "rx_mode (emz_rx_direct_request_recover x) = rx_mode x" for x
    by (simp_all add: emz_rx_direct_request_recover_def mode.obs_dat)
      (simp add: recv_frames_def List.map_filter_def)
  with assms show "recv_frames s' = recv_frames s" and "rx_mode s' = rx_mode s"
    by (auto simp: poll_take_def Let_def frames.obs_all mode.obs_all split: if_splits option.splits)
qed

definition poll_results :: "ctx \<Rightarrow> emz \<Rightarrow> emz \<Rightarrow> bool" where
  "poll_results c s s' \<longleftrightarrow>
     (let k = done_prefix (dat s)
      in normal_traffic c s' \<and> recv_frames s' = recv_frames s \<and>
         (\<forall>x. x \<notin> set (take k (posted_buffers (dat s))) \<longrightarrow> rx_buffer (dat s') ! x = rx_buffer (dat s) ! x) \<and>
         list_all2 (\<lambda>bd rx. result_of c (bd_status bd) (rx_buffer (dat s) ! rx) (rx_buffer (dat s') ! rx))
           (take k (posted_bds (dat s))) (take k (posted_buffers (dat s))))"

lemma poll_loop_results:
  assumes "emz_rx_direct_enabled c" and "rx_inv c W K H (dat s)" and "normal_traffic c s"
  shows "poll_results c s (snd (poll_loop c q s))"
  using assms
proof (induction c q s rule: poll_loop.induct)
  case (1 c q s)
  note inv = 1(3) and ring = rx_inv_ring [OF 1(3)]
  have idx: "rx_bd_consume_index (dat s) < length (rx_bd_ring (dat s))"
    using ring by (simp add: ring_inv_def)
  obtain x s1 where x: "poll_take c s = (x, s1)" by (cases "poll_take c s")
  have some: "rx_bd_buffer (dat s) ! rx_bd_consume_index (dat s) \<noteq> None \<longleftrightarrow> posted_buffers (dat s) \<noteq> []"
    using ring_inv_first [OF ring] length_posted [of "dat s"] by (metis length_greater_0_conv)
  show ?case
  proof (cases x)
    case None
    have "posted_buffers (dat s) = [] \<or> \<not> bd_done (bd_status (rx_bd_ring (dat s) ! rx_bd_consume_index (dat s)))"
      using x None some by (auto simp: poll_take_def Let_def split: if_splits option.splits)
    then have "done_prefix (dat s) = 0"
      using done_prefix_retire [OF ring] length_posted [of "dat s"] done_prefix_0 by fastforce
    then show ?thesis
      using 1(4) x None idx poll_take_None [of c s s1] poll_take_None_obs [of c s s1]
      by (auto simp: poll_loop.simps [of c q s] poll_results_def normal_traffic_def)
  next
    case (Some p)
    obtain rx status where p: "p = (rx, status)" by (cases p)
    note t = x [unfolded Some p]
    note ts = poll_take_Some [OF t]
    let ?s2 = "poll_dispatch c rx status s1"
    have ne: "posted_buffers (dat s) \<noteq> []" using ts some by simp
    have dp: "done_prefix (dat s) = Suc (done_prefix (d_retire c (dat s)))"
      using done_prefix_retire [OF ring ne] ts by metis
    have pb: "posted_buffers (dat s) = rx # posted_buffers (d_retire c (dat s))"
      using d_retire_inv(2) [OF ring ne] ts by simp
    have bds: "posted_bds (dat s) = rx_bd_ring (dat s) ! rx_bd_consume_index (dat s) # posted_bds (d_retire c (dat s))"
      by (rule posted_bds_retire [OF ring ne])
    have k1: "keeps_all c s1" by (rule poll_take_keeps [OF t normal_keeps_all [OF 1(4)]])
    obtain now where disp: "dat ?s2 = d_enqueue rx (d_result c rx status now (d_retire c (dat s)))"
      using poll_dispatch_keeps(2) [OF k1] ts by metis
    have i1: "rx_interceptor (dat s1) = None" using k1 by (simp add: keeps_all_def)
    have o2: "rx_mode ?s2 = rx_mode s" "recv_frames ?s2 = recv_frames s"
      using poll_dispatch_mode [OF 1(2) i1] mode.obs_poll_take_Some [OF t]
        frames.obs_poll_dispatch [OF 1(2)] frames.obs_poll_take_Some [OF t] by simp_all
    have n2: "normal_traffic c ?s2"
      using 1(4) o2 unfolding normal_traffic_def disp by (simp add: enqueue_result_bds)
    have inv2: "rx_inv c W K H (dat ?s2)"
      using poll_dispatch_inv [OF 1(2)] poll_take_Some_inv [OF inv t] by blast
    have lt: "rx < length (rx_buffer (dat s))"
      using rx_inv_distinct(2) [OF inv] pb inv by (auto simp: rx_inv_def buffers_ok_def)
    have head: "result_of c status (rx_buffer (dat s) ! rx) (rx_buffer (dat ?s2) ! rx)"
      using d_result_at [of rx "d_retire c (dat s)"] lt by (simp add: disp enqueue_result_bds)
    have other: "rx_buffer (dat ?s2) ! y = rx_buffer (dat s) ! y" if "y \<noteq> rx" for y
      using d_result_other [OF that] by (simp add: disp enqueue_result_bds)
    let ?k = "done_prefix (d_retire c (dat s))" and ?ps = "posted_buffers (d_retire c (dat s))"
    have fresh: "rx \<notin> set (take ?k ?ps)"
      using rx_inv_distinct(1) [OF inv] pb in_set_takeD [of rx ?k ?ps] by auto
    let ?s' = "snd (poll_loop c (q + 1) ?s2)"
    have ih: "poll_results c ?s2 ?s'" using 1(1) [OF idx t [symmetric] refl refl 1(2) inv2 n2] .
    then have ih': "normal_traffic c ?s'" "recv_frames ?s' = recv_frames s"
      "\<forall>y. y \<notin> set (take ?k ?ps) \<longrightarrow> rx_buffer (dat ?s') ! y = rx_buffer (dat ?s2) ! y"
      "list_all2 (\<lambda>bd r. result_of c (bd_status bd) (rx_buffer (dat ?s2) ! r) (rx_buffer (dat ?s') ! r))
         (take ?k (posted_bds (d_retire c (dat s)))) (take ?k ?ps)"
      using o2 unfolding poll_results_def Let_def disp enqueue_result_sel enqueue_result_bds(1) by simp_all
    have tail: "list_all2 (\<lambda>bd r. result_of c (bd_status bd) (rx_buffer (dat s) ! r) (rx_buffer (dat ?s') ! r))
         (take ?k (posted_bds (d_retire c (dat s)))) (take ?k ?ps)"
    proof (rule list.rel_mono_strong [OF ih'(4)])
      fix bd r
      assume "r \<in> set (take ?k ?ps)"
        and "result_of c (bd_status bd) (rx_buffer (dat ?s2) ! r) (rx_buffer (dat ?s') ! r)"
      moreover have "r \<noteq> rx" using calculation(1) fresh by blast
      ultimately show "result_of c (bd_status bd) (rx_buffer (dat s) ! r) (rx_buffer (dat ?s') ! r)"
        by (simp add: other)
    qed
    have "result_of c status (rx_buffer (dat s) ! rx) (rx_buffer (dat ?s') ! rx)"
      using head ih'(3) fresh by simp
    then have "poll_results c s ?s'"
      using ih' tail other ts unfolding poll_results_def Let_def dp pb bds by auto
    moreover have "snd (poll_loop c q s) = ?s'" using t idx by (simp add: poll_loop.simps [of c q s])
    ultimately show ?thesis by simp
  qed
qed


section \<open>From the descriptor to the network stack\<close>

text \<open>The frames of the completed prefix of the ring, as the engine left them.\<close>

definition completed_frames :: "emaczero_data \<Rightarrow> u8 list list" where
  "completed_frames d = map2 (\<lambda>bd rx. take (unat (status_len (bd_status bd))) (rxb_bytes (rx_buffer d ! rx)))
     (take (done_prefix d) (posted_bds d)) (take (done_prefix d) (posted_buffers d))"

lemma results_frames:
  assumes "list_all2 (\<lambda>bd rx. result_of c (bd_status bd) (bs ! rx) (bs' ! rx)) bds rxs"
    and "\<forall>bd \<in> set bds. good_status c (bd_status bd)"
  shows "map (\<lambda>rx. frame_of (bs' ! rx)) rxs =
      map2 (\<lambda>bd rx. take (unat (status_len (bd_status bd))) (rxb_bytes (bs ! rx))) bds rxs"
    and "\<forall>rx \<in> set rxs. \<not> invalid_result c (bs' ! rx)"
  using assms
proof (induction rule: list_all2_induct)
  case (Cons bd bds rx rxs)
  { case 1 then show ?case using Cons result_good(1) by simp }
  { case 2 then show ?case using Cons result_good(2) by simp }
qed simp_all

lemma isr_ack_effect:
  "\<exists>p t. dat (isr_ack c now s) = (dat s)\<lparr>last_dma_callback_cycle := t, rx_direct_recover_pending := p\<rparr>"
  "recv_frames (isr_ack c now s) = recv_frames s" "rx_mode (isr_ack c now s) = rx_mode s"
proof -
  have "dat (isr_ack c now s) = (dat s)\<lparr>last_dma_callback_cycle := now\<rparr> \<or>
      dat (isr_ack c now s) = (dat s)\<lparr>last_dma_callback_cycle := now, rx_direct_recover_pending := True\<rparr>"
    by (simp add: isr_ack_def Let_def emz_dma_write_def request_recover_dat)
  moreover have "(dat s)\<lparr>last_dma_callback_cycle := now\<rparr> = (dat s)\<lparr>last_dma_callback_cycle := now,
      rx_direct_recover_pending := rx_direct_recover_pending (dat s)\<rparr>" by simp
  ultimately show "\<exists>p t. dat (isr_ack c now s) = (dat s)\<lparr>last_dma_callback_cycle := t, rx_direct_recover_pending := p\<rparr>"
    by metis
  have "recv_frames (emz_rx_direct_request_recover x) = recv_frames x"
    "rx_mode (emz_rx_direct_request_recover x) = rx_mode x" for x
    by (simp_all add: emz_rx_direct_request_recover_def mode.obs_dat)
      (simp add: recv_frames_def List.map_filter_def)
  then show "recv_frames (isr_ack c now s) = recv_frames s" "rx_mode (isr_ack c now s) = rx_mode s"
    by (simp_all add: isr_ack_def Let_def emz_dma_write_def frames.obs_all mode.obs_all)
qed

lemma ring_view_other [simp]:
  "posted_bds (d\<lparr>last_dma_callback_cycle := t, rx_direct_recover_pending := p\<rparr>) = posted_bds d"
  "posted_buffers (d\<lparr>last_dma_callback_cycle := t, rx_direct_recover_pending := p\<rparr>) = posted_buffers d"
  "done_prefix (d\<lparr>last_dma_callback_cycle := t, rx_direct_recover_pending := p\<rparr>) = done_prefix d"
  by (simp_all add: posted_bds_def posted_buffers_def done_prefix_def)

lemma poll_delivers_frames:
  assumes direct: "emz_rx_direct_enabled c" and inv: "rx_inv c W K H (dat s)" and normal: "normal_traffic c s"
    and empty: "rx_ready_fifo (dat s) = []"
    and good: "\<forall>bd \<in> set (take (done_prefix (dat s)) (posted_bds (dat s))). good_status c (bd_status bd)"
  defines "s' \<equiv> emz_rx_direct_poll c s"
  shows "normal_traffic c s'" and "recv_frames s' = recv_frames s" and "length (rx_ready_fifo (dat s')) = done_prefix (dat s)"
    and "ready_frames (dat s') = completed_frames (dat s)"
    and "\<forall>rx \<in> set (rx_ready_fifo (dat s')). \<not> invalid_result c (rx_buffer (dat s') ! rx)"
proof -
  obtain q s1 where l: "poll_loop c 0 s = (q, s1)" by (cases "poll_loop c 0 s")
  have s': "s' = (if q \<noteq> 0 then snd (emz_refill_dma_rx c (upd_perf (emz_perf_set_max_u32 Rx_poll_completed_max q) s1))
      else upd_perf (emz_perf_set_max_u32 Rx_poll_completed_max q) s1)"
    by (simp add: s'_def emz_rx_direct_poll_def l Let_def)
  have keep: "rx_ready_fifo (dat s') = rx_ready_fifo (dat s1)" "rx_buffer (dat s') = rx_buffer (dat s1)"
    "iface (dat s') = iface (dat s1)" "rx_interceptor (dat s') = rx_interceptor (dat s1)"
    using direct by (simp_all add: s' d_refill_keeps)
  have obs: "recv_frames s' = recv_frames s1" "rx_mode s' = rx_mode s1"
    by (simp_all add: s' frames.obs_refill_dma_rx [OF direct] mode.obs_refill_dma_rx [OF direct] frames.obs_all mode.obs_all)
  have res: "poll_results c s s1" using poll_loop_results [OF direct inv normal, of 0] l by simp
  then show "normal_traffic c s'" and "recv_frames s' = recv_frames s"
    using keep obs by (simp_all add: poll_results_def normal_traffic_def Let_def)
  have ready: "rx_ready_fifo (dat s') = take (done_prefix (dat s)) (posted_buffers (dat s))"
    using poll_loop_delivers [OF direct inv normal_keeps_all [OF normal] l] keep empty by simp
  then show "length (rx_ready_fifo (dat s')) = done_prefix (dat s)" using done_prefix_le [of "dat s"] by simp
  have "list_all2 (\<lambda>bd rx. result_of c (bd_status bd) (rx_buffer (dat s) ! rx) (rx_buffer (dat s') ! rx))
      (take (done_prefix (dat s)) (posted_bds (dat s))) (rx_ready_fifo (dat s'))"
    using res keep ready by (simp add: poll_results_def Let_def)
  note r = results_frames [OF this good]
  then show "ready_frames (dat s') = completed_frames (dat s)"
    and "\<forall>rx \<in> set (rx_ready_fifo (dat s')). \<not> invalid_result c (rx_buffer (dat s') ! rx)"
    by (simp_all add: ready_frames_def completed_frames_def ready)
qed

text \<open>
  C1: under normal traffic the frames of the completed prefix of the ring reach the
  network stack. One interrupt and as many rounds of the worker as descriptors were
  completed call \<^verbatim>\<open>net_recv_data\<close> once for each, in ring order, with exactly the bytes and
  the length the engine reported, and leave every buffer accounted for.
\<close>
theorem completed_frames_reach_stack:
  assumes direct: "emz_rx_direct_enabled c" and ok: "stack_accepts c"
    and inv: "rx_inv c [] K [] (dat s)" and few: "length K \<le> rx_max_stack_owned_zerocopy (kc c)"
    and normal: "normal_traffic c s" and empty: "rx_ready_fifo (dat s) = []"
    and good: "\<forall>bd \<in> set (take (done_prefix (dat s)) (posted_bds (dat s))). good_status c (bd_status bd)"
  shows "\<exists>s' K'. worker_rounds c (done_prefix (dat s)) (emz_rx_direct_isr c s, K) = Some (s', K') \<and>
    recv_frames s' = recv_frames s @ completed_frames (dat s) \<and> rx_inv c [] K' [] (dat s')"
proof -
  define s1 where "s1 = isr_ack c (cycle_now c s) (tick s)"
  obtain p t where d1: "dat s1 = (dat s)\<lparr>last_dma_callback_cycle := t, rx_direct_recover_pending := p\<rparr>"
    using isr_ack_effect(1) [of c "cycle_now c s" "tick s"] by (auto simp: s1_def)
  have o1: "recv_frames s1 = recv_frames s" "rx_mode s1 = rx_mode s"
    by (simp_all add: s1_def isr_ack_effect frames.obs_tick mode.obs_tick)
  have inv1: "rx_inv c [] K [] (dat s1)" and n1: "normal_traffic c s1" and e1: "rx_ready_fifo (dat s1) = []"
    using inv normal empty o1 by (simp_all add: d1 normal_traffic_def)
  have g1: "\<forall>bd \<in> set (take (done_prefix (dat s1)) (posted_bds (dat s1))). good_status c (bd_status bd)"
    using good by (simp add: d1)
  note poll = poll_delivers_frames [OF direct inv1 n1 e1 g1]
  let ?s2 = "emz_rx_direct_isr c s"
  have isr: "?s2 = r7_since c EMZ_R7_ISR_TOTAL (cycle_now c s) (emit Dmem_fence (emz_rx_direct_poll c s1))"
    by (simp add: emz_rx_direct_isr_def Let_def s1_def)
  have s2: "dat ?s2 = dat (emz_rx_direct_poll c s1)" "recv_frames ?s2 = recv_frames s"
    "rx_mode ?s2 = rx_mode (emz_rx_direct_poll c s1)"
    using poll(2) o1 by (simp_all add: isr frames.obs_all mode.obs_all)
  have inv2: "rx_inv c [] K [] (dat ?s2)" using poll_inv [OF direct inv1] s2 by simp
  have n2: "normal_traffic c ?s2" using poll(1) s2 by (simp add: normal_traffic_def)
  have frames: "ready_frames (dat ?s2) = completed_frames (dat s)"
    using poll(4) s2 by (simp add: completed_frames_def d1)
  have len: "length (rx_ready_fifo (dat ?s2)) = done_prefix (dat s)" using poll(3) s2 by (simp add: d1)
  show ?thesis
    using worker_rounds_deliver [OF direct ok inv2 few n2] poll(5) s2 frames len by auto
qed

end
