(* ===== verification/RxScenarios.thy ===== *)
theory RxScenarios
  imports Init RxDelivery
begin

text \<open>
  Concrete runs of the receive side of \<^verbatim>\<open>drivers/ethernet/eth_emaczero.c\<close>: the theorems of
  the earlier theories applied to states of the small configuration, which shows that their
  hypotheses can hold together. \<open>demo_pool\<close> has a full pool and an empty ring; in
  \<open>demo_done\<close> three buffers are posted and the engine has completed the first two.
\<close>

section \<open>Statistics, filter and cache\<close>

theorem r7_add_accumulates_witness:
  "r7_sum (emz_r7_add 2 7 perf_zero) 2 = 7"
  using r7_add_accumulates [of 2 7 perf_zero]
  by (simp add: EMZ_R7_SLOT_COUNT_def r7_sum_def perf_zero_def)

theorem should_keep_control_correct_witness:
  "emaczero_profile_should_keep_control (Some (replicate 12 0 @ [8, 6] @ replicate 46 0)) 60 = Some True"
  using should_keep_control_correct [of 60 "replicate 12 0 @ [8, 6] @ replicate 46 0"]
  by (simp add: keep_control_spec_def nth_append of_be16_def)

definition cached_ctx :: ctx where
  "cached_ctx = quiet_ctx\<lparr>kc := tiny_kconfig\<lparr>cfg_dcache_maint := True\<rparr>\<rparr>"

theorem cache_flush_covers_witness:
  "\<exists>ls. tr (emz_dma_cache_flush cached_ctx 0x90000004 20 (emz_zero tiny_kconfig)) =
     Fence_iorw # map (\<lambda>l. Cbo_clean (of_nat l)) ls @ [Fence_iorw] \<and> 0x90000010 \<in> set ls"
proof -
  have "cfg_dcache_maint (kc cached_ctx)" by (simp add: cached_ctx_def)
  from cache_flush_covers [OF this, where addr = "0x90000004" and sz = 20
      and b = "0x90000010" and s = "emz_zero tiny_kconfig"] show ?thesis
    by (auto simp: EMZ_DMA_DCACHE_BASE_def EMZ_DMA_DCACHE_HIGH_def emz_zero_def)
qed

section \<open>Frames\<close>

definition demo_buffer :: emaczero_rx_buffer where
  "demo_buffer = (rx_buffer_zero tiny_kconfig)\<lparr>rxb_bytes := replicate 12 0xff @ [8, 6] @ replicate 46 0,
     rxb_len := 60\<rparr>"

theorem frame_notes_in_bounds_witness:
  "\<exists>p. emz_note_rx_pre_stack [2, 0, 0, 0, 0, 1] demo_buffer perf_zero = Some p"
  using frame_notes_in_bounds [of demo_buffer 0 "[]"] by (auto simp: demo_buffer_def)

theorem classification_counts_once_witness:
  "\<exists>p. emz_note_rx_pre_stack [2, 0, 0, 0, 0, 1] demo_buffer perf_zero = Some p \<and>
     type_total p = 1 \<and> dst_total p = 1"
proof -
  have "unat (rxb_len demo_buffer) \<le> length (rxb_bytes demo_buffer)" by (simp add: demo_buffer_def)
  then obtain p where p: "emz_note_rx_pre_stack [2, 0, 0, 0, 0, 1] demo_buffer perf_zero = Some p"
    using frame_notes_Some by blast
  then show ?thesis
    using classification_counts_once [OF p] by (simp add: demo_buffer_def type_total_def dst_total_def perf_zero_def)
qed

section \<open>Refill from a full pool\<close>

definition demo_pool :: emz where
  "demo_pool = upd_dat (\<lambda>d. (fill_pool quiet_ctx d)\<lparr>rx_bd_ring_addr := 0x9f100000,
     rx_bd_ring := linked_ring 0x9f100000 8\<rparr>) (emz_zero tiny_kconfig)"

lemma quiet_direct [simp]: "emz_rx_direct_enabled quiet_ctx"
  by (simp add: emz_rx_direct_enabled_def demo_config_def)

lemma demo_pool_inv: "rx_inv quiet_ctx [] [] [] (dat demo_pool)"
proof -
  have "(data_zero tiny_kconfig)\<lparr>rx_free_fifo := [], rx_ready_fifo := []\<rparr> = data_zero tiny_kconfig"
    by (simp add: data_zero_def)
  then show ?thesis
    using fresh_pool_inv [OF _ zero_fresh, where c = quiet_ctx and base = "0x9f100000"] tiny_kconfig_ok
    by (simp add: demo_pool_def emz_zero_def)
qed

lemma demo_pool_sel [simp]:
  "rx_free_fifo (dat demo_pool) = [0, 1, 2, 3, 4, 5, 6, 7]" "posted_buffers (dat demo_pool) = []"
  "rx_bd_posted (dat demo_pool) = 0" "rx_ready_fifo (dat demo_pool) = []"
  "rx_worker_count (dat demo_pool) = 0" "rx_stack_owned_count (dat demo_pool) = 0"
  by (simp_all add: demo_pool_def emz_zero_def fill_pool_def data_zero_def posted_buffers_def upt_rec)

theorem refill_posts_in_order_witness:
  "fst (emz_rx_direct_refill quiet_ctx demo_pool) = 3 \<and>
   posted_buffers (dat (snd (emz_rx_direct_refill quiet_ctx demo_pool))) = [0, 1, 2]"
proof -
  have "refill_amount quiet_ctx (dat demo_pool) = 3" by (simp add: refill_amount_def rx_cap_def)
  then show ?thesis
    using refill_posts_in_order [OF demo_pool_inv, of "fst (emz_rx_direct_refill quiet_ctx demo_pool)"
        "snd (emz_rx_direct_refill quiet_ctx demo_pool)"]
    by (simp add: numeral_3_eq_3)
qed

section \<open>A ring with two completed descriptors\<close>

definition demo_bytes :: "u8 list" where
  "demo_bytes = map of_nat [1..<61]"

definition demo_bd :: "u32 \<Rightarrow> emaczero_rx_bd" where
  "demo_bd status = bd_zero\<lparr>bd_control := 60, bd_status := status\<rparr>"

definition demo_done :: emz where
  "demo_done = upd_dat (\<lambda>d. d\<lparr>iface := True, rx_direct_ring_started := True,
     rx_bd_ring := [demo_bd 0x8000003c, demo_bd 0x8000002a, demo_bd 0, bd_zero, bd_zero, bd_zero, bd_zero, bd_zero],
     rx_bd_buffer := [Some 0, Some 1, Some 2, None, None, None, None, None],
     rx_bd_consume_index := 0, rx_bd_refill_index := 3, rx_bd_tail_index := 2, rx_bd_posted := 3,
     rx_dma_inflight := 3, rx_dma_fifo_count := 3, rx_free_fifo := [3, 4, 5, 6, 7], rx_free_count := 5,
     rx_buffer := replicate 8 ((rx_buffer_zero tiny_kconfig)\<lparr>rxb_bytes := demo_bytes\<rparr>)\<rparr>) (emz_zero tiny_kconfig)"

lemma upt_8: "[0..<8] = [0, 1, 2, 3, 4, 5, 6, 7]"
  by (simp add: upt_rec)

lemma demo_done_sel:
  "dat demo_done = (data_zero tiny_kconfig)\<lparr>iface := True, rx_direct_ring_started := True,
     rx_bd_ring := [demo_bd 0x8000003c, demo_bd 0x8000002a, demo_bd 0, bd_zero, bd_zero, bd_zero, bd_zero, bd_zero],
     rx_bd_buffer := [Some 0, Some 1, Some 2, None, None, None, None, None],
     rx_bd_consume_index := 0, rx_bd_refill_index := 3, rx_bd_tail_index := 2, rx_bd_posted := 3,
     rx_dma_inflight := 3, rx_dma_fifo_count := 3, rx_free_fifo := [3, 4, 5, 6, 7], rx_free_count := 5,
     rx_buffer := replicate 8 ((rx_buffer_zero tiny_kconfig)\<lparr>rxb_bytes := demo_bytes\<rparr>)\<rparr>"
  by (simp add: demo_done_def emz_zero_def)

lemma demo_done_posted: "posted_buffers (dat demo_done) = [0, 1, 2]"
  by (simp add: demo_done_sel posted_buffers_def window_def upt_rec)

lemma demo_done_ring:
  assumes "kc c = tiny_kconfig"
  shows "ring_inv c (dat demo_done)"
proof -
  have "slots_ok 0 3 [Some 0, Some 1, Some (2 :: nat), None, None, None, None, None]"
    by (simp add: slots_ok_def All_less_Suc)
  then show ?thesis
    using assms tiny_kconfig_ok by (simp add: ring_inv_def demo_done_sel rx_cap_def)
qed

lemma demo_done_inv:
  assumes c: "kc c = tiny_kconfig"
  shows "rx_inv c [] [] [] (dat demo_done)"
proof (rule rx_invI [OF demo_done_ring [OF c]])
  show "buffers_ok c (dat demo_done)"
    by (simp add: c demo_done_sel buffers_ok_def demo_bytes_def rx_buffer_zero_def)
  show "bds_ok c (dat demo_done)"
    unfolding bds_ok_def demo_done_sel
    by (simp add: c All_less_Suc demo_bd_def bd_zero_def rx_buffer_zero_def EMZ_AXI_DMA_BD_CTRL_LEN_MASK_def)
  show "owned [] [] [] (dat demo_done) = mset [0..<rx_count c]"
    unfolding owned_def demo_done_posted by (simp add: c demo_done_sel data_zero_def upt_8)
qed (simp_all add: demo_done_sel data_zero_def)

lemma demo_done_prefix:
  "done_prefix (dat demo_done) = 2"
  "take 2 (posted_bds (dat demo_done)) = [demo_bd 0x8000003c, demo_bd 0x8000002a]"
  by (simp_all add: done_prefix_def posted_bds_def demo_done_sel window_def upt_rec demo_bd_def bd_zero_def
      bd_done_def EMZ_AXI_DMA_BD_STATUS_COMPLETE_def EMZ_AXI_DMA_BD_STATUS_ERROR_MASK_def)

lemma demo_done_keeps: "keeps_all quiet_ctx demo_done"
  by (simp add: keeps_all_def demo_done_sel data_zero_def)


theorem recover_rebuilds_witness:
  "posted_buffers (dat (emz_rx_direct_recover quiet_ctx demo_done)) = [3, 4, 5]"
  using recover_rebuilds [OF demo_done_inv, of quiet_ctx]
  by (simp add: rx_cap_def demo_done_sel numeral_3_eq_3)

section \<open>The worker and the system\<close>

definition demo_ready :: emz where
  "demo_ready = upd_dat (\<lambda>d. d\<lparr>rx_free_fifo := [0, 1, 2, 3, 4, 5, 6], rx_free_count := 7,
     rx_ready_fifo := [7], rx_ready_fifo_count := 1\<rparr>) demo_pool"

lemma demo_ready_inv: "rx_inv quiet_ctx [] [] [] (dat demo_ready)"
  using demo_pool_inv
  by (simp add: demo_ready_def rx_inv_def owned_def buffers_ok_def add.commute add_mset_commute)

theorem worker_round_accounts_witness:
  "\<exists>lent s'. emz_rx_thread_step quiet_ctx demo_ready = Some (lent, s') \<and>
     (rx_inv quiet_ctx [] [] [] (dat s') \<or> rx_inv quiet_ctx [] [7] [] (dat s'))"
  using worker_round_accounts [OF quiet_direct demo_ready_inv, of 7 "[]"]
  by (auto simp: demo_ready_def)


text \<open>A network stack that accepts everything.\<close>

definition open_ctx :: ctx where
  "open_ctx = quiet_ctx\<lparr>env_of := quiet_env\<lparr>ext := (\<lambda>x _. case x of Ext_net_pkt_write f \<Rightarrow> 0 | _ \<Rightarrow> 1)\<rparr>\<rparr>"

lemma open_ctx_ok: "emz_rx_direct_enabled open_ctx" "stack_accepts open_ctx" "kc open_ctx = tiny_kconfig"
  by (simp_all add: open_ctx_def emz_rx_direct_enabled_def demo_config_def stack_accepts_def ext_ret_def copy_frag_ok_def)

theorem completed_frames_reach_stack_witness:
  "\<exists>s' K'. worker_rounds open_ctx 2 (emz_rx_direct_isr open_ctx demo_done, []) = Some (s', K') \<and>
     recv_frames s' = [demo_bytes, take 42 demo_bytes]"
proof -
  have n: "normal_traffic open_ctx demo_done"
    by (simp add: normal_traffic_def demo_done_sel data_zero_def open_ctx_ok)
  have e: "rx_ready_fifo (dat demo_done) = []" by (simp add: demo_done_sel data_zero_def)
  have g: "\<forall>bd \<in> set (take (done_prefix (dat demo_done)) (posted_bds (dat demo_done))). good_status open_ctx (bd_status bd)"
    by (simp add: demo_done_prefix demo_bd_def good_status_def status_len_def bd_done_def bd_failed_def open_ctx_ok
        EMZ_AXI_DMA_BD_STATUS_COMPLETE_def EMZ_AXI_DMA_BD_STATUS_ERROR_MASK_def EMZ_AXI_DMA_BD_STATUS_LEN_MASK_def)
  have f: "completed_frames (dat demo_done) = [demo_bytes, take 42 demo_bytes]"
    unfolding completed_frames_def demo_done_prefix demo_done_posted
    by (simp add: demo_bd_def status_len_def EMZ_AXI_DMA_BD_STATUS_LEN_MASK_def demo_done_sel)
      (simp add: demo_bytes_def)
  have t: "recv_frames demo_done = []" by (simp add: recv_frames_def demo_done_def emz_zero_def List.map_filter_def)
  show ?thesis
    using completed_frames_reach_stack [OF open_ctx_ok(1,2) demo_done_inv [OF open_ctx_ok(3)] _ n e g] f t
    by (auto simp: demo_done_prefix)
qed

end
