(* ===== verification/RecoverRace.thy ===== *)
theory RecoverRace
  imports RxTrace Boot
begin

text \<open>
  Requests for recovery in \<^verbatim>\<open>drivers/ethernet/eth_emaczero.c\<close>: an interrupt that finds the
  engine halted by an error submits the recovery work once, guarded by
  \<^verbatim>\<open>rx_direct_recover_pending\<close>. Recovery re-enables the interrupt before it clears that
  flag, and an interrupt in between loses its request.
\<close>

text \<open>What the interrupt reads from DMASR in a state.\<close>

definition dmasr_now :: "ctx \<Rightarrow> emz \<Rightarrow> u32" where
  "dmasr_now c s = reg_value c (cfg_dma_base (cfg c) + EMZ_AXI_DMA_REG_S2MM_DMASR) s"

definition engine_halted :: "ctx \<Rightarrow> emz \<Rightarrow> bool" where
  "engine_halted c s \<longleftrightarrow> dmasr_now c s AND EMZ_AXI_DMA_DMASR_ERROR_MASK \<noteq> 0 \<and>
     dmasr_now c s AND EMZ_AXI_DMA_DMASR_HALTED \<noteq> 0"

lemma dmasr_tick: "dmasr_now c (tick s) = dmasr_now c s"
  by (simp add: dmasr_now_def reg_value_def)

lemma isr_ack_halted:
  assumes "engine_halted c s"
  shows "rx_direct_recover_pending (dat (isr_ack c now s)) \<and>
    recover_submits (isr_ack c now s) =
      recover_submits s + (if rx_direct_recover_pending (dat s) then 0 else 1)"
proof -
  have "reg_value c (cfg_dma_base (cfg c) + EMZ_AXI_DMA_REG_S2MM_DMASR) s AND EMZ_AXI_DMA_DMASR_ERROR_MASK \<noteq> 0"
    "reg_value c (cfg_dma_base (cfg c) + EMZ_AXI_DMA_REG_S2MM_DMASR) s AND EMZ_AXI_DMA_DMASR_HALTED \<noteq> 0"
    using assms by (simp_all add: engine_halted_def dmasr_now_def)
  then show ?thesis
    by (simp add: isr_ack_def Let_def emz_dma_write_def emz_rx_direct_request_recover_def submits.obs_all)
qed

lemma isr_halted:
  assumes "emz_rx_direct_enabled c" and "engine_halted c s"
  shows "rx_direct_recover_pending (dat (emz_rx_direct_isr c s)) \<and>
    recover_submits (emz_rx_direct_isr c s) =
      recover_submits s + (if rx_direct_recover_pending (dat s) then 0 else 1)"
proof -
  have "engine_halted c (tick s)" using assms(2) by (simp add: engine_halted_def dmasr_tick)
  note a = isr_ack_halted [OF this, of "cycle_now c s"]
  note p = poll_pending [OF assms(1) conjunct1 [OF a]]
  have "recover_submits (tick s) = recover_submits s" by (simp add: recover_submits_def)
  then show ?thesis
    using a p by (simp add: emz_rx_direct_isr_def Let_def recover_submits_def)
qed

lemma recover_body_pending:
  "rx_direct_recover_pending (dat (recover_body c s)) = rx_direct_recover_pending (dat s)"
proof -
  have "rx_direct_recover_pending (fold put_free xs d) = rx_direct_recover_pending d" for xs d
    by (induction xs arbitrary: d) (simp_all add: put_free_def)
  then show ?thesis by (simp add: recover_body_dat d_refill_pending clear_ring_def)
qed

text \<open>
  C22: however many interrupts find the engine halted by an error before recovery has run,
  they submit the recovery work exactly once, and not at all if a request was already
  outstanding; the request flag stays set.
\<close>
theorem halted_engine_requests_recovery:
  assumes direct: "emz_rx_direct_enabled c"
    and halted: "\<And>i. i < n \<Longrightarrow> engine_halted c ((emz_rx_direct_isr c ^^ i) s)" and n: "0 < n"
  defines "s' \<equiv> (emz_rx_direct_isr c ^^ n) s"
  shows "rx_direct_recover_pending (dat s') \<and>
    recover_submits s' = recover_submits s + (if rx_direct_recover_pending (dat s) then 0 else 1)"
  unfolding s'_def using n halted
proof (induction n)
  case (Suc n)
  have h: "engine_halted c ((emz_rx_direct_isr c ^^ n) s)" using Suc.prems(2) by simp
  show ?case
    using isr_halted [OF direct h] Suc.IH Suc.prems(2) by (cases n) simp_all
qed simp

text \<open>
  C23: the request is lost when that interrupt comes between the \<^verbatim>\<open>irq_enable\<close> of a running
  recovery and the \<^verbatim>\<open>atomic_clear\<close> that ends it. The interrupt finds the engine halted,
  yet afterwards no work was submitted and no request is outstanding, so nothing restarts
  the engine.
\<close>
theorem recovery_request_lost:
  assumes direct: "emz_rx_direct_enabled c" and running: "rx_direct_recover_pending (dat s)"
    and halted: "engine_halted c (recover_body c s)"
  defines "s' \<equiv> recover_finish (emz_rx_direct_isr c (recover_body c s))"
  shows "\<not> rx_direct_recover_pending (dat s') \<and> recover_submits s' = recover_submits s"
proof -
  have "recover_submits s' = recover_submits (emz_rx_direct_isr c (recover_body c s))"
    by (simp add: s'_def recover_finish_def recover_submits_def)
  then show ?thesis
    using isr_halted [OF direct halted] running
    by (simp add: recover_body_pending submits.obs_recover_body) (simp add: s'_def recover_finish_def)
qed

section \<open>Concrete runs\<close>

text \<open>A surrounding whose DMASR reads as halted by an internal error, and no reads of a MAC.\<close>

definition halted_ctx :: ctx where
  "halted_ctx = quiet_ctx\<lparr>env_of := quiet_env\<lparr>mmio := (\<lambda>_ _. 0x11)\<rparr>\<rparr>"

lemma halted_ctx_ok:
  "emz_rx_direct_enabled halted_ctx" "engine_halted halted_ctx s"
  by (simp_all add: halted_ctx_def emz_rx_direct_enabled_def demo_config_def engine_halted_def dmasr_now_def
      reg_value_def EMZ_AXI_DMA_DMASR_ERROR_MASK_def EMZ_AXI_DMA_DMASR_HALTED_def)

theorem halted_engine_requests_recovery_witness:
  "recover_submits ((emz_rx_direct_isr halted_ctx ^^ 3) (emz_zero tiny_kconfig)) = 1"
  using halted_engine_requests_recovery [OF halted_ctx_ok, of 3 "emz_zero tiny_kconfig"]
  by (simp add: emz_zero_def data_zero_def recover_submits_def ev_count_def)

theorem recovery_request_lost_witness:
  "\<exists>s. rx_direct_recover_pending (dat s) \<and> engine_halted halted_ctx (recover_body halted_ctx s) \<and>
     \<not> rx_direct_recover_pending (dat (recover_finish (emz_rx_direct_isr halted_ctx (recover_body halted_ctx s)))) \<and>
     recover_submits (recover_finish (emz_rx_direct_isr halted_ctx (recover_body halted_ctx s))) = 0"
proof -
  let ?s = "upd_dat (\<lambda>d. d\<lparr>rx_direct_recover_pending := True\<rparr>) (emz_zero tiny_kconfig)"
  have p: "rx_direct_recover_pending (dat ?s)" by simp
  have "recover_submits ?s = 0" by (simp add: recover_submits_def ev_count_def emz_zero_def)
  then show ?thesis
    using recovery_request_lost [OF halted_ctx_ok(1) p halted_ctx_ok(2)] p halted_ctx_ok(2)
    by (intro exI [of _ ?s]) simp
qed

end
