(* ===== verification/AppText.thy ===== *)
theory AppText
  imports Profile PerfStats
begin

text \<open>
  The text the application reads and writes, \<^verbatim>\<open>app/src/main.c\<close>: numbers of a command line
  (\<^verbatim>\<open>parse_u32_arg\<close> over C's \<^verbatim>\<open>strtoul\<close> with base 0 and a 32-bit \<^verbatim>\<open>unsigned long\<close>), the
  statistics helpers, and the replies built with \<^verbatim>\<open>snprintk\<close>, whose result is the length the
  whole text would have. A C string is the list of its characters without the NUL.
\<close>

section \<open>Numbers in text\<close>

fun digit_value :: "char \<Rightarrow> nat" where
  "digit_value ch =
     (let n = of_char ch
      in if 48 \<le> n \<and> n \<le> 57 then n - 48
         else if 97 \<le> n \<and> n \<le> 122 then n - 87
         else if 65 \<le> n \<and> n \<le> 90 then n - 55
         else 36)"

definition digits_of :: "nat \<Rightarrow> string \<Rightarrow> string" where
  "digits_of base s = takeWhile (\<lambda>ch. digit_value ch < base) s"

definition number_of :: "nat \<Rightarrow> string \<Rightarrow> nat" where
  "number_of base ds = foldl (\<lambda>n ch. n * base + digit_value ch) 0 ds"

definition ULONG_MAX :: nat where "ULONG_MAX = 4294967295"

text \<open>
  \<^verbatim>\<open>strtoul(s, &end, 0)\<close> on a text that starts with a digit: the prefix \<^verbatim>\<open>0x\<close> before a
  hexadecimal digit selects base 16, another leading 0 base 8; a value that does not fit is
  \<^verbatim>\<open>ULONG_MAX\<close>. The result is the value and the text behind the number.
\<close>

definition strtoul0 :: "string \<Rightarrow> nat \<times> string" where
  "strtoul0 s =
     (let hex = (case s of
          a # x # h # _ \<Rightarrow> a = CHR ''0'' \<and> (x = CHR ''x'' \<or> x = CHR ''X'') \<and> digit_value h < 16
        | _ \<Rightarrow> False);
          base = (if hex then 16 else if s \<noteq> [] \<and> hd s = CHR ''0'' then 8 else 10);
          rest = (if hex then drop 2 s else s);
          ds = digits_of base rest
      in (min (number_of base ds) ULONG_MAX, drop (length ds) rest))"

definition is_blank :: "char \<Rightarrow> bool" where
  "is_blank ch \<longleftrightarrow> ch = CHR '' '' \<or> ch = CHR 0x09"

text \<open>\<open>None\<close> is the \<^verbatim>\<open>NULL\<close> answer, with the value left as it was.\<close>

definition parse_u32_arg :: "string \<Rightarrow> (u32 \<times> string) option" where
  "parse_u32_arg cursor =
     (let cursor = dropWhile is_blank cursor
      in if cursor = [] \<or> \<not> (48 \<le> (of_char (hd cursor) :: nat) \<and> of_char (hd cursor) \<le> (57 :: nat)) then None
         else
           let (parsed, rest) = strtoul0 cursor
           in if length rest = length cursor \<or> 4294967295 < parsed then None
              else Some (of_nat parsed, rest))"

text \<open>\<^verbatim>\<open>%u\<close>, \<^verbatim>\<open>%llu\<close> and \<^verbatim>\<open>%d\<close>.\<close>

fun dec :: "nat \<Rightarrow> string" where
  "dec n = (if n < 10 then [char_of (48 + n)] else dec (n div 10) @ [char_of (48 + n mod 10)])"

declare dec.simps [simp del]

definition sdec :: "int \<Rightarrow> string" where
  "sdec n = (if n < 0 then CHR ''-'' # dec (nat (- n)) else dec (nat n))"

lemma length_dec_pos: "0 < length (dec n)"
  by (subst dec.simps) simp

lemma length_dec_le:
  assumes "n < 10 ^ k" and "0 < k"
  shows "length (dec n) \<le> k"
  using assms
proof (induction k arbitrary: n)
  case (Suc k)
  show ?case
  proof (cases "n < 10")
    case True
    then show ?thesis by (simp add: dec.simps [of n])
  next
    case False
    with Suc.prems have "n div 10 < 10 ^ k" "0 < k" by (auto intro: gr0I)
    with Suc.IH have "length (dec (n div 10)) \<le> k" by blast
    with False show ?thesis by (simp add: dec.simps [of n])
  qed
qed simp

lemma length_dec_u32: "length (dec (unat (x :: u32))) \<le> 10"
  using unat_less_exp [of x] by (intro length_dec_le) simp_all

lemma length_dec_u64: "length (dec (unat (x :: u64))) \<le> 20"
  using unat_less_exp [of x] by (intro length_dec_le) simp_all

lemma digit_value_dec: "d < 10 \<Longrightarrow> digit_value (char_of (48 + d)) = d"
  by simp

lemma number_of_snoc: "number_of b (ds @ [ch]) = number_of b ds * b + digit_value ch"
  by (simp add: number_of_def)

lemma dec_digits:
  "number_of 10 (dec n) = n \<and> (\<forall>ch \<in> set (dec n). digit_value ch < 10)"
proof (induction n rule: dec.induct)
  case (1 n)
  show ?case
  proof (cases "n < 10")
    case True
    then show ?thesis using digit_value_dec [of n] by (simp add: dec.simps [of n] number_of_def del: digit_value.simps)
  next
    case False
    have "n mod 10 < 10" by simp
    with 1 False digit_value_dec [of "n mod 10"] show ?thesis
      by (simp add: dec.simps [of n] number_of_snoc del: digit_value.simps)
  qed
qed

text \<open>What may follow a number on a command line: nothing, or a blank.\<close>

definition ends_number :: "string \<Rightarrow> bool" where
  "ends_number rest \<longleftrightarrow> rest = [] \<or> is_blank (hd rest)"

lemma digits_of_dec: "ends_number rest \<Longrightarrow> 8 \<le> b \<Longrightarrow> b \<le> 10 \<Longrightarrow>
    (\<forall>ch \<in> set ds. digit_value ch < b) \<Longrightarrow> digits_of b (ds @ rest) = ds"
  by (cases rest) (auto simp: digits_of_def ends_number_def is_blank_def takeWhile_append)

lemma dec_first: "\<exists>ch ds. dec n = ch # ds \<and> 48 \<le> (of_char ch :: nat) \<and> of_char ch \<le> (57 :: nat) \<and>
    (0 < n \<longrightarrow> ch \<noteq> CHR ''0'')"
proof (induction n rule: dec.induct)
  case (1 n)
  have digit: "of_char (char_of (48 + d) :: char) = 48 + d" if "d < 10" for d :: nat using that by simp
  show ?case
  proof (cases "n < 10")
    case True
    have "char_of (48 + n) = CHR ''0'' \<Longrightarrow> n = 0"
    proof -
      assume "char_of (48 + n) = CHR ''0''"
      then have "(of_char (char_of (48 + n) :: char) :: nat) = 48" by simp
      then show "n = 0" using digit [OF True] by simp
    qed
    then show ?thesis using True digit [OF True] by (auto simp: dec.simps [of n])
  next
    case False
    then have "0 < n div 10" by simp
    with 1 False show ?thesis by (auto simp: dec.simps [of n])
  qed
qed

lemma digit_not_x: "(of_char ch :: nat) \<le> 57 \<Longrightarrow> ch \<noteq> CHR ''x'' \<and> ch \<noteq> CHR ''X''"
  by auto

lemma digit_value_bounds: "digit_value ch < 10 \<Longrightarrow> (of_char ch :: nat) \<le> 57"
  by (auto simp: Let_def split: if_splits)

text \<open>Parsing what was printed: the number, cut off at \<open>ULONG_MAX\<close>, and the text behind it.\<close>

lemma strtoul_dec:
  assumes "ends_number rest"
  shows "strtoul0 (dec n @ rest) = (min n ULONG_MAX, rest)"
proof -
  obtain ch ds where d: "dec n = ch # ds" and z: "0 < n \<longrightarrow> ch \<noteq> CHR ''0''"
    using dec_first [of n] by blast
  have all: "\<forall>c \<in> set (ch # ds). digit_value c < 10" and val: "number_of 10 (ch # ds) = n"
    using dec_digits [of n] d by auto
  have nx: "x \<noteq> CHR ''x'' \<and> x \<noteq> CHR ''X''" if "ds @ rest = x # r" for x r
    using that all digit_not_x [OF digit_value_bounds] assms
    by (cases ds) (auto simp: ends_number_def is_blank_def)
  have hex: "\<not> (case ch # ds @ rest of a # x # h # _ \<Rightarrow> a = CHR ''0'' \<and> (x = CHR ''x'' \<or> x = CHR ''X'') \<and>
      digit_value h < 16 | _ \<Rightarrow> False)"
    using nx by (auto split: list.splits)
  show ?thesis
  proof (cases "ch = CHR ''0''")
    case True
    then have "n = 0" using z by auto
    then have "ds = []" using d by (simp add: dec.simps [of 0])
    then show ?thesis
      using hex True \<open>n = 0\<close> digits_of_dec [OF assms, of 8 "[ch]"] d
      by (simp add: strtoul0_def number_of_def Let_def del: digit_value.simps) (simp add: ULONG_MAX_def)
  next
    case False
    then show ?thesis
      using hex digits_of_dec [OF assms _ _ all] val d
      by (simp add: strtoul0_def Let_def del: digit_value.simps)
  qed
qed

lemma parse_dec:
  assumes "ends_number rest" and "\<forall>ch \<in> set blanks. is_blank ch"
  shows "parse_u32_arg (blanks @ dec n @ rest) = Some (of_nat (min n ULONG_MAX), rest)"
proof -
  obtain ch ds where d: "dec n = ch # ds" and c: "48 \<le> (of_char ch :: nat)" "of_char ch \<le> (57 :: nat)"
    using dec_first [of n] by blast
  have "\<not> is_blank ch" using c by (auto simp: is_blank_def)
  then have "dropWhile is_blank (blanks @ dec n @ rest) = dec n @ rest"
    using assms(2) by (simp add: d dropWhile_append)
  then show ?thesis
    using strtoul_dec [OF assms(1), of n] c length_dec_pos [of n]
    by (simp add: parse_u32_arg_def d) (simp add: ULONG_MAX_def)
qed

text \<open>A command-line number that was printed with \<^verbatim>\<open>%u\<close> is read back as it was, whatever
  blanks precede it, and the text behind it is left for the next argument.\<close>

theorem parse_u32_round_trip:
  assumes "\<forall>ch \<in> set blanks. is_blank ch" and "ends_number rest"
  shows "parse_u32_arg (blanks @ dec (unat x) @ rest) = Some (x, rest)"
  using parse_dec [OF assms(2,1), of "unat x"] unat_less_exp [of x] by (simp add: ULONG_MAX_def)

text \<open>The overflow test of \<^verbatim>\<open>parse_u32_arg\<close> never applies on this target. A number that does
  not fit 32 bits is not refused: it is read as 4294967295.\<close>

theorem parse_u32_accepts_overflow:
  assumes "2 ^ 32 \<le> n"
  shows "parse_u32_arg (dec n) = Some (0xffffffff, [])"
  using parse_dec [of "[]" "[]" n] assms by (simp add: ends_number_def ULONG_MAX_def)

section \<open>Statistics helpers\<close>

definition u64_delta :: "u64 \<Rightarrow> u64 \<Rightarrow> u64" where
  "u64_delta now before = (if before \<le> now then now - before else 0)"

definition u32_delta :: "u32 \<Rightarrow> u32 \<Rightarrow> u32" where
  "u32_delta now before = (if before \<le> now then now - before else 0)"

definition u64_avg :: "u64 \<Rightarrow> u64 \<Rightarrow> u64" where
  "u64_avg sum_all count = (if count = 0 then 0 else sum_all div count)"

section \<open>Replies\<close>

definition u_text :: "u32 \<Rightarrow> string" where "u_text x = dec (unat x)"
definition llu_text :: "u64 \<Rightarrow> string" where "llu_text x = dec (unat x)"
definition crlf :: string where "crlf = [CHR 0x0D, CHR 0x0A]"

lemma length_texts: "length (u_text x) \<le> 10" "length (llu_text y) \<le> 20" "length crlf = 2"
  by (simp_all add: u_text_def llu_text_def crlf_def length_dec_u32 length_dec_u64)

text \<open>The two register values are read between the snapshot and the formatting.\<close>

definition format_profile_snapshot :: "emaczero_profile_snapshot \<Rightarrow> u32 \<Rightarrow> u32 \<Rightarrow> string" where
  "format_profile_snapshot s rx_frame_cnt rx_byte_cnt =
     ''mode='' @ u_text (ps_mode s) @ '' hz='' @ u_text (ps_cycles_per_sec s) @
     '' mac_rx='' @ u_text rx_frame_cnt @ '' mac_bytes='' @ u_text rx_byte_cnt @
     '' dma='' @ llu_text (ps_counter s COUNTER_DMA_CALLBACKS) @
     '' work='' @ llu_text (ps_counter s COUNTER_RX_WORKER_PACKETS) @
     '' zc='' @ llu_text (ps_counter s COUNTER_RX_ZERO_COPY_SUBMIT) @
     '' copy='' @ llu_text (ps_counter s COUNTER_RX_COPY_SUBMIT) @
     '' drop_dma='' @ llu_text (ps_counter s COUNTER_DMA_DROP_AFTER_DMA) @
     '' drop_pkt='' @ llu_text (ps_counter s COUNTER_RX_DROP_AFTER_PKT) @
     '' fail='' @ llu_text (ps_counter s COUNTER_RX_NET_RECV_FAIL) @
     '' nofree='' @ llu_text (ps_counter s COUNTER_RX_REFILL_NO_FREE) @
     '' dma_cyc='' @ llu_text (ps_cycles_total s CYCLES_DMA_CB) @
     '' build_cyc='' @ llu_text (ps_cycles_total s CYCLES_RX_BUILD) @
     '' net_cyc='' @ llu_text (ps_cycles_total s CYCLES_NET_RECV) @
     '' life_cyc='' @ llu_text (ps_buffer_lifetime_cycles_total s) @
     '' life_n='' @ llu_text (ps_buffer_lifetime_samples s) @
     '' max_inflight='' @ u_text (ps_rx_max_dma_inflight s) @
     '' max_stack='' @ u_text (ps_rx_max_stack_owned s) @
     '' min_free='' @ u_text (if ps_rx_min_free s = - 1 then 0 else ps_rx_min_free s) @ crlf"

text \<open>The five MAC and gate registers of the acceptance reply, in the order they are printed.\<close>

record accept_regs =
  ar_rx_frame_cnt :: u32
  ar_rx_err_cnt :: u32
  ar_gate_bad :: u32
  ar_gate_ovf :: u32
  ar_tready_low :: u32

definition alloc_fail :: "perf_stats \<Rightarrow> u64" where
  "alloc_fail p = p64 p Rx_alloc_pkt_fail + p64 p Rx_alloc_frag_fail + p64 p Rx_alloc_pkt_zc_fail +
     p64 p Rx_alloc_pkt_copy_fail"

definition format_acceptance_snapshot :: "perf_stats \<Rightarrow> accept_regs \<Rightarrow> string" where
  "format_acceptance_snapshot p r =
     ''magic=EZRX uptime='' @ u_text (p32 p Uptime_ms) @
     '' sink_p='' @ llu_text (p64 p Sink_packets) @ '' sink_b='' @ llu_text (p64 p Sink_bytes) @
     '' sink_err='' @ llu_text (p64 p Sink_recv_errors) @
     '' mac_rx='' @ u_text (ar_rx_frame_cnt r) @ '' mac_err='' @ u_text (ar_rx_err_cnt r) @
     '' gate_bad='' @ u_text (ar_gate_bad r) @ '' gate_ovf='' @ u_text (ar_gate_ovf r) @
     '' tready='' @ u_text (ar_tready_low r) @
     '' dma='' @ llu_text (p64 p Dma_callbacks) @ '' dma_err='' @ llu_text (p64 p Dma_errors) @
     '' bd_err='' @ u_text (p32 p Rx_bd_errors) @ '' invalid='' @ llu_text (p64 p Rx_invalid) @
     '' alloc='' @ llu_text (alloc_fail p) @ '' recv_fail='' @ llu_text (p64 p Rx_net_recv_fail) @
     '' nofree='' @ llu_text (p64 p Rx_refill_no_free) @ crlf"

text \<open>
  \<^verbatim>\<open>snprintk(buf, size, ...)\<close> followed by \<^verbatim>\<open>zsock_sendto(sock, buf, len, ...)\<close> with its result as
  the length, as \<^verbatim>\<open>profile_control_thread\<close> does: what is in the buffer is the text cut to
  \<open>size - 1\<close> characters and a NUL, and sending the length of the whole text reads outside the
  buffer (\<open>None\<close>) when that is more than \<open>size\<close>.
\<close>

definition reply_datagram :: "nat \<Rightarrow> string \<Rightarrow> string option" where
  "reply_datagram n text =
     (if n < length text then None
      else if length text = n then Some (take (n - 1) text @ [CHR 0x00])
      else Some text)"

lemma reply_fits:
  "reply_datagram 512 (format_profile_snapshot s a b) = Some (format_profile_snapshot s a b)"
proof -
  have "length (format_profile_snapshot s a b) \<le>
      5 + (10 + (4 + (10 + (8 + (10 + (11 + (10 + (5 + (20 + (6 + (20 + (4 + (20 + (6 + (20 + (10 +
      (20 + (10 + (20 + (6 + (20 + (8 + (20 + (9 + (20 + (11 + (20 + (9 + (20 + (10 + (20 + (8 + (20
      + (14 + (10 + (11 + (10 + (10 + (10 + (2))))))))))))))))))))))))))))))))))))))))"
    unfolding format_profile_snapshot_def length_append
    by (intro add_mono length_texts; simp add: length_texts)
  then show ?thesis by (simp add: reply_datagram_def)
qed

text \<open>The 512-byte reply buffer of the profile snapshot is large enough for every value of
  the counters and registers: the datagram is the whole text and nothing outside the buffer
  is read.\<close>

theorem profile_reply_fits:
  "reply_datagram 512 (format_profile_snapshot s a b) = Some (format_profile_snapshot s a b)"
  by (rule reply_fits)

text \<open>The 64-bit counters the acceptance reply prints.\<close>

definition accept_counters :: "perf_stats \<Rightarrow> u64 list" where
  "accept_counters p = [p64 p Sink_packets, p64 p Sink_bytes, p64 p Sink_recv_errors, p64 p Dma_callbacks,
     p64 p Dma_errors, p64 p Rx_invalid, alloc_fail p, p64 p Rx_net_recv_fail, p64 p Rx_refill_no_free]"

text \<open>The 384-byte buffer of the acceptance reply is large enough as long as the 64-bit
  counters stay below \<open>10 ^ 18\<close>.\<close>

theorem acceptance_reply_fits:
  assumes "\<forall>v \<in> set (accept_counters p). unat v < 10 ^ 18"
  shows "reply_datagram 384 (format_acceptance_snapshot p r) = Some (format_acceptance_snapshot p r)"
proof -
  have "\<forall>v \<in> set (accept_counters p). length (llu_text v) \<le> 18"
    using assms length_dec_le [of _ 18] by (simp add: llu_text_def)
  note short = this [unfolded accept_counters_def, simplified]
  have "length (format_acceptance_snapshot p r) \<le>
      18 + (10 + (8 + (18 + (8 + (18 + (10 + (18 + (8 + (10 + (9 + (10 + (10 + (10 + (10 + (10 + (8 +
      (10 + (5 + (18 + (9 + (18 + (8 + (10 + (9 + (18 + (7 + (18 + (11 + (18 + (8 + (18 +
      (2))))))))))))))))))))))))))))))))"
    unfolding format_acceptance_snapshot_def length_append
    by (intro add_mono length_texts; simp add: length_texts short)
  then show ?thesis by (simp add: reply_datagram_def)
qed

text \<open>Counters at their maximum, the sum of the four allocation failures among them.\<close>

definition full_stats :: perf_stats where
  "full_stats = \<lparr>p32 = (\<lambda>_. - 1),
     p64 = (\<lambda>f. if f \<in> {Rx_alloc_frag_fail, Rx_alloc_pkt_zc_fail, Rx_alloc_pkt_copy_fail} then 0 else - 1)\<rparr>"

lemma full_texts: "length (u_text (- 1)) = 10" "length (llu_text (- 1)) = 20"
proof -
  have "unat (- 1 :: u32) = 4294967295" "unat (- 1 :: u64) = 18446744073709551615"
    by (simp_all add: unsigned_minus_1_eq_mask mask_eq_exp_minus_1)
  moreover have "length (dec 4294967295) = 10" "length (dec 18446744073709551615) = 20"
    by (simp_all add: dec.simps)
  ultimately show "length (u_text (- 1)) = 10" "length (llu_text (- 1)) = 20"
    by (simp_all add: u_text_def llu_text_def)
qed


end
