(* ===== verification/ProvCodec.thy ===== *)
theory ProvCodec
  imports Prelude
begin

text \<open>
  The wire side of \<^verbatim>\<open>app/src/provision.c\<close>: addresses, masks and the test of a usable address,
  and the 36-byte message with its CRC. \<^verbatim>\<open>struct in_addr\<close> is the list of its four
  bytes. \<^verbatim>\<open>crc32_ieee\<close> belongs to Zephyr and is the parameter \<open>crc\<close>.
\<close>

section \<open>Prefixes and addresses\<close>

text \<open>
  \<^verbatim>\<open>UINT32_MAX << n\<close>: C defines the shift for \<open>n < 32\<close> only.
\<close>

definition ones_shl :: "nat \<Rightarrow> u32" where
  "ones_shl n = push_bit n (- 1)"

definition shl_ones :: "u32 \<Rightarrow> u32 option" where
  "shl_ones n = (if n < 32 then Some (ones_shl (unat n)) else None)"

definition prefix_to_mask :: "u8 \<Rightarrow> u8 list option" where
  "prefix_to_mask prefix =
     (if prefix = 0 then Some (be32 0) else map_option be32 (shl_ones (32 - ucast prefix)))"

definition addr_is_usable :: "u8 list \<Rightarrow> u8 \<Rightarrow> u8 list \<Rightarrow> bool" where
  "addr_is_usable addr prefix gateway =
     (let ip = get_be32 addr; gw = get_be32 gateway
      in if prefix = 0 \<or> 30 < prefix \<or> ip = 0 \<or> ip = - 1 \<or>
            ip AND 0xf0000000 = 0xe0000000 \<or> ip AND 0xff000000 = 0x7f000000
         then False
         else
           let mask = ones_shl (unat (32 - ucast prefix :: u32));
               host = ip AND NOT mask
           in if host = 0 \<or> host = NOT mask then False
              else \<not> (gw \<noteq> 0 \<and>
                (gw AND mask \<noteq> ip AND mask \<or> gw = ip \<or> gw = ip AND mask \<or>
                 gw = (ip AND mask) OR NOT mask)))"

text \<open>
  What is meant by usable, in numbers: the prefix leaves room for hosts, the address is a
  unicast address outside 127/8, neither the network nor the broadcast address of its
  subnet, and a gateway, when there is one, is another such address of the same subnet.
\<close>

definition host_bits :: "u8 \<Rightarrow> nat" where
  "host_bits prefix = 32 - unat prefix"

definition inside_subnet :: "nat \<Rightarrow> nat \<Rightarrow> bool" where
  "inside_subnet h a \<longleftrightarrow> 0 < a mod 2 ^ h \<and> a mod 2 ^ h < 2 ^ h - 1"

definition usable_spec :: "nat \<Rightarrow> u8 \<Rightarrow> nat \<Rightarrow> bool" where
  "usable_spec ip prefix gw \<longleftrightarrow>
     (let h = host_bits prefix in
      1 \<le> prefix \<and> prefix \<le> 30 \<and> ip div 2 ^ 28 \<noteq> 14 \<and> ip div 2 ^ 24 \<noteq> 127 \<and> inside_subnet h ip \<and>
      (gw = 0 \<or> (gw div 2 ^ h = ip div 2 ^ h \<and> gw \<noteq> ip \<and> inside_subnet h gw)))"

lemma bit_ones_shl [bit_simps]: "bit (ones_shl k) n \<longleftrightarrow> k \<le> n \<and> n < 32"
  by (auto simp: ones_shl_def bit_simps)

lemma split_at: "(x AND ones_shl k) OR (x AND NOT (ones_shl k)) = x"
  by (rule bit_word_eqI) (auto simp: bit_simps)

lemma low_bits: "x AND NOT (ones_shl k) = take_bit k x"
  by (rule bit_word_eqI) (auto simp: bit_simps)

lemma high_bits_iff: "x AND ones_shl k = y AND ones_shl k \<longleftrightarrow> drop_bit k x = drop_bit k y"
proof
  assume e: "x AND ones_shl k = y AND ones_shl k"
  have "bit x (k + n) = bit y (k + n)" for n
    using arg_cong [OF e, of "\<lambda>w. bit w (k + n)"] by (auto simp: bit_simps dest: bit_imp_le_length)
  then show "drop_bit k x = drop_bit k y"
    by (intro bit_word_eqI) (simp add: bit_drop_bit_eq)
next
  assume e: "drop_bit k x = drop_bit k y"
  have "bit x n = bit y n" if "k \<le> n" for n
    using arg_cong [OF e, of "\<lambda>w. bit w (n - k)"] that by (simp add: bit_drop_bit_eq)
  then show "x AND ones_shl k = y AND ones_shl k"
    by (intro bit_word_eqI) (auto simp: bit_simps)
qed

lemma unat_drop_bit32: "unat (drop_bit k x) = unat (x :: u32) div 2 ^ k"
  by (metis unat_drop_bit_eq drop_bit_eq_div)

lemma masked_eq_iff: "x AND ones_shl k = y AND ones_shl k \<longleftrightarrow> unat x div 2 ^ k = unat y div 2 ^ k"
  by (metis high_bits_iff unat_drop_bit32 unsigned_word_eqI)

lemma unat_low_bits: "unat (x AND NOT (ones_shl k)) = unat x mod 2 ^ k"
  by (metis low_bits unsigned_take_bit_eq take_bit_eq_mod)

lemma unat_ones:
  assumes "k < 32"
  shows "unat (NOT (ones_shl k)) = 2 ^ k - 1"
proof -
  have "NOT (ones_shl k) = mask k"
    by (rule bit_word_eqI) (auto simp: bit_simps)
  moreover have "(2 :: nat) ^ k < 2 ^ 32"
    by (rule power_strict_increasing) (use assms in simp_all)
  moreover have "unat (mask k :: u32) = mask k"
    using assms by (intro bit_eqI) (auto simp: bit_simps)
  ultimately show ?thesis by (simp add: mask_eq_exp_minus_1)
qed

text \<open>The special values of a subnet, in numbers.\<close>

lemma host_zero_iff: "x AND NOT (ones_shl k) = 0 \<longleftrightarrow> unat x mod 2 ^ k = 0"
  by (simp only: word_unat_eq_iff unat_low_bits unsigned_0)

lemma host_ones_iff:
  "k < 32 \<Longrightarrow> x AND NOT (ones_shl k) = NOT (ones_shl k) \<longleftrightarrow> unat x mod 2 ^ k = 2 ^ k - 1"
  by (simp only: word_unat_eq_iff unat_low_bits unat_ones)

lemma network_iff:
  assumes "x AND ones_shl k = y AND ones_shl k"
  shows "x = y AND ones_shl k \<longleftrightarrow> x AND NOT (ones_shl k) = 0"
proof
  assume e: "x = y AND ones_shl k"
  show "x AND NOT (ones_shl k) = 0"
    by (subst e, rule bit_word_eqI) (auto simp: bit_simps)
next
  assume "x AND NOT (ones_shl k) = 0"
  with split_at [of x k] assms show "x = y AND ones_shl k" by simp
qed

lemma broadcast_iff:
  assumes "x AND ones_shl k = y AND ones_shl k"
  shows "x = (y AND ones_shl k) OR NOT (ones_shl k) \<longleftrightarrow> x AND NOT (ones_shl k) = NOT (ones_shl k)"
proof
  assume e: "x = (y AND ones_shl k) OR NOT (ones_shl k)"
  show "x AND NOT (ones_shl k) = NOT (ones_shl k)"
    by (subst e, rule bit_word_eqI) (auto simp: bit_simps)
next
  assume h: "x AND NOT (ones_shl k) = NOT (ones_shl k)"
  with split_at [of x k] assms show "x = (y AND ones_shl k) OR NOT (ones_shl k)" by simp
qed

text \<open>The two excluded blocks: multicast and loopback.\<close>

lemma block_iff:
  "ip AND 0xf0000000 = 0xe0000000 \<longleftrightarrow> unat (ip :: u32) div 2 ^ 28 = 14"
  "ip AND 0xff000000 = 0x7f000000 \<longleftrightarrow> unat (ip :: u32) div 2 ^ 24 = 127"
proof -
  have "(0xf0000000 :: u32) = ones_shl 28" "(0xe0000000 :: u32) = 0xe0000000 AND ones_shl 28"
    and "(0xff000000 :: u32) = ones_shl 24" "(0x7f000000 :: u32) = 0x7f000000 AND ones_shl 24"
    by (simp_all add: ones_shl_def mask_eq_exp_minus_1)
  then show "ip AND 0xf0000000 = 0xe0000000 \<longleftrightarrow> unat ip div 2 ^ 28 = 14"
    and "ip AND 0xff000000 = 0x7f000000 \<longleftrightarrow> unat ip div 2 ^ 24 = 127"
    using masked_eq_iff [of ip 28 "0xe0000000"] masked_eq_iff [of ip 24 "0x7f000000"] by simp_all
qed

lemma unat_shift_amount:
  assumes "prefix \<le> 30"
  shows "unat (32 - ucast prefix :: u32) = host_bits prefix"
proof -
  have "unat prefix \<le> 30" using assms by (simp add: word_le_nat_alt)
  moreover from this have "unat (ucast prefix :: u32) = unat prefix"
    by (simp add: unsigned_ucast_eq take_bit_nat_eq_self)
  ultimately have "unat (ucast prefix :: u32) = unat prefix" "(ucast prefix :: u32) \<le> 32"
    by (simp_all add: word_le_nat_alt)
  then show ?thesis by (simp add: unat_sub host_bits_def)
qed

lemma inside_iff:
  assumes "k < 32"
  shows "inside_subnet k (unat x) \<longleftrightarrow>
    x AND NOT (ones_shl k) \<noteq> 0 \<and> x AND NOT (ones_shl k) \<noteq> NOT (ones_shl k)"
proof -
  have "unat x mod 2 ^ k < 2 ^ k" by simp
  then have "unat x mod 2 ^ k < 2 ^ k - 1 \<longleftrightarrow> unat x mod 2 ^ k \<noteq> 2 ^ k - 1" by linarith
  then show ?thesis
    unfolding inside_subnet_def host_zero_iff host_ones_iff [OF assms] by simp
qed

lemma addr_is_usable_iff:
  "addr_is_usable addr prefix gateway \<longleftrightarrow>
     usable_spec (unat (get_be32 addr)) prefix (unat (get_be32 gateway))"
proof (cases "prefix = 0 \<or> 30 < prefix")
  case True
  then show ?thesis
    by (auto simp: addr_is_usable_def usable_spec_def Let_def word_le_nat_alt word_less_nat_alt
        word_unat_eq_iff)
next
  case False
  define ip gw k where "ip = get_be32 addr" and "gw = get_be32 gateway" and "k = host_bits prefix"
  have p: "1 \<le> prefix" "prefix \<le> 30" "prefix \<noteq> 0" "\<not> 30 < prefix"
    using False by (auto simp: word_le_nat_alt word_less_nat_alt word_unat_eq_iff)
  then have k: "k < 32" and sh: "unat (32 - ucast prefix :: u32) = k"
    using unat_shift_amount by (auto simp: k_def host_bits_def word_le_nat_alt)
  have ends: "inside_subnet k (unat ip) \<Longrightarrow> ip \<noteq> 0 \<and> ip \<noteq> - 1"
    unfolding inside_iff [OF k] by auto
  have "gw AND ones_shl k = ip AND ones_shl k \<Longrightarrow>
      inside_subnet k (unat gw) \<longleftrightarrow> gw \<noteq> ip AND ones_shl k \<and> gw \<noteq> (ip AND ones_shl k) OR NOT (ones_shl k)"
    unfolding inside_iff [OF k] by (simp add: network_iff broadcast_iff)
  then show ?thesis
    unfolding addr_is_usable_def usable_spec_def Let_def sh ip_def [symmetric] gw_def [symmetric]
      k_def [symmetric] block_iff masked_eq_iff [symmetric]
    using p ends inside_iff [OF k, of ip] by (auto simp: unat_eq_zero simp flip: word_unat_eq_iff)
qed

text \<open>C34: \<^verbatim>\<open>addr_is_usable\<close> is that test: for every address, prefix and gateway it answers what the
  numeric reading says.\<close>

theorem addr_is_usable_correct:
  "addr_is_usable addr prefix gateway \<longleftrightarrow>
     usable_spec (unat (get_be32 addr)) prefix (unat (get_be32 gateway))"
  by (rule addr_is_usable_iff)

text \<open>The number four bytes stand for.\<close>

lemma unat_of_be32:
  "unat (of_be32 a b c d) = 16777216 * unat a + 65536 * unat b + 256 * unat c + unat d"
proof -
  have lt: "unat a < 256" "unat b < 256" "unat c < 256" "unat d < 256"
    using unat_less_exp [of a] unat_less_exp [of b] unat_less_exp [of c] unat_less_exp [of d] by simp_all
  have u: "unat (push_bit n (ucast x) :: u32) = 2 ^ n * unat x" if "n \<le> 24" for n and x :: u8
  proof -
    have "unat x < 256" using unat_less_exp [of x] by simp
    moreover have "(2 :: nat) ^ n \<le> 2 ^ 24" using that by (rule power_increasing) simp
    ultimately have "2 ^ n * unat x < 2 ^ 24 * 256" by (intro mult_le_less_imp_less) simp_all
    moreover have "unat (push_bit n (ucast x) :: u32) = take_bit 32 (push_bit n (unat (ucast x :: u32)))"
      by (simp only: unsigned_push_bit_eq) simp
    moreover have "unat (ucast x :: u32) = unat x"
      using \<open>unat x < 256\<close> by (simp add: unsigned_ucast_eq take_bit_nat_eq_self)
    ultimately show ?thesis by (simp add: push_bit_eq_mult take_bit_nat_eq_self mult.commute)
  qed
  have "of_be32 a b c d = push_bit 24 (ucast a) + (push_bit 16 (ucast b) + (push_bit 8 (ucast c) + ucast d))"
    unfolding of_be32_def or.assoc
    by (subst disjunctive_add [symmetric]; (auto simp: bit_simps dest: bit_imp_le_length)?)+
  then show ?thesis
    using lt u [of 24 a] u [of 16 b] u [of 8 c] u [of 0 d] by (simp add: unat_word_ariths)
qed

section \<open>The 36-byte message\<close>

definition PROV_MAGIC :: u32 where "PROV_MAGIC = 0x455a4346"
definition PROV_VERSION :: u8 where "PROV_VERSION = 1"
definition PROV_PACKET_SIZE :: nat where "PROV_PACKET_SIZE = 36"
definition PROV_CRC_OFFSET :: nat where "PROV_CRC_OFFSET = 32"

record prov_message =
  m_version :: u8
  m_op :: u8
  m_status :: u8
  m_prefix :: u8
  m_xid :: u32
  m_mac :: "u8 list"
  m_ip :: "u8 list"
  m_gateway :: "u8 list"
  m_token :: u32

definition encode_message :: "(u8 list \<Rightarrow> u32) \<Rightarrow> prov_message \<Rightarrow> u8 list" where
  "encode_message crc msg =
     (let buf = replicate PROV_PACKET_SIZE 0;
          buf = blit buf 0 (be32 PROV_MAGIC);
          buf = buf[4 := m_version msg];
          buf = buf[5 := m_op msg];
          buf = buf[6 := m_status msg];
          buf = buf[7 := m_prefix msg];
          buf = blit buf 8 (be32 (m_xid msg));
          buf = blit buf 12 (m_mac msg);
          buf = blit buf 20 (m_ip msg);
          buf = blit buf 24 (m_gateway msg);
          buf = blit buf 28 (be32 (m_token msg))
      in blit buf PROV_CRC_OFFSET (be32 (crc (take PROV_CRC_OFFSET buf))))"

definition decode_message :: "(u8 list \<Rightarrow> u32) \<Rightarrow> u8 list \<Rightarrow> prov_message option" where
  "decode_message crc buf =
     (if length buf \<noteq> PROV_PACKET_SIZE \<or> get_be32 buf \<noteq> PROV_MAGIC \<or> buf ! 4 \<noteq> PROV_VERSION \<or>
         get_be32 (drop PROV_CRC_OFFSET buf) \<noteq> crc (take PROV_CRC_OFFSET buf)
      then None
      else Some \<lparr>m_version = buf ! 4, m_op = buf ! 5, m_status = buf ! 6, m_prefix = buf ! 7,
        m_xid = get_be32 (drop 8 buf), m_mac = take 6 (drop 12 buf), m_ip = take 4 (drop 20 buf),
        m_gateway = take 4 (drop 24 buf), m_token = get_be32 (drop 28 buf)\<rparr>)"

text \<open>The sizes of the byte fields of \<^verbatim>\<open>struct prov_message\<close>.\<close>

definition msg_ok :: "prov_message \<Rightarrow> bool" where
  "msg_ok m \<longleftrightarrow> length (m_mac m) = 6 \<and> length (m_ip m) = 4 \<and> length (m_gateway m) = 4"

definition msg_head :: "prov_message \<Rightarrow> u8 list" where
  "msg_head m = be32 PROV_MAGIC @ [m_version m, m_op m, m_status m, m_prefix m] @ be32 (m_xid m) @
     m_mac m @ [0, 0] @ m_ip m @ m_gateway m @ be32 (m_token m)"

lemma length_msg_head: "msg_ok m \<Longrightarrow> length (msg_head m) = 32"
  by (simp add: msg_head_def msg_ok_def)

text \<open>
  A buffer filled from the front: \<open>xs\<close> and zeros up to size \<open>n\<close>. Writing behind what is there
  appends.
\<close>

definition pad :: "nat \<Rightarrow> u8 list \<Rightarrow> u8 list" where
  "pad n xs = xs @ replicate (n - length xs) 0"

lemma pad_nil: "replicate n 0 = pad n []"
  by (simp add: pad_def)

lemma pad_full: "length xs = n \<Longrightarrow> pad n xs = xs"
  by (simp add: pad_def)

lemma blit_pad:
  assumes "length xs \<le> off" and "off + length src \<le> n"
  shows "blit (pad n xs) off src = pad n (xs @ replicate (off - length xs) 0 @ src)"
  using assms by (simp add: blit_def pad_def min_def add.commute)

lemma update_pad:
  assumes "length xs \<le> off" and "off < n"
  shows "(pad n xs)[off := v] = pad n (xs @ replicate (off - length xs) 0 @ [v])"
proof -
  have "n - length xs = (off - length xs) + Suc (n - Suc off)" using assms by simp
  then have "replicate (n - length xs) (0 :: u8) = replicate (off - length xs) 0 @ 0 # replicate (n - Suc off) 0"
    by (simp only: replicate_add replicate_Suc)
  with assms show ?thesis by (simp add: pad_def list_update_append)
qed

lemma blit_inside_pad:
  "off + length src \<le> length xs \<Longrightarrow> blit (pad n xs) off src = pad n (blit xs off src)"
  by (simp add: blit_def pad_def)

lemma take_pad: "m \<le> length xs \<Longrightarrow> take m (pad n xs) = take m xs"
  by (simp add: pad_def)

lemma blit_front: "off + length src \<le> length xs \<Longrightarrow> blit (xs @ ys) off src = blit xs off src @ ys"
  by (simp add: blit_def)

lemma blit_mid: "length pre = off \<Longrightarrow> length old = length src \<Longrightarrow> blit (pre @ old @ post) off src = pre @ src @ post"
  by (simp add: blit_def)

lemma update_front: "i < length xs \<Longrightarrow> (xs @ ys)[i := v] = xs[i := v] @ ys"
  by (simp add: list_update_append)

lemma length_pad: "length xs \<le> n \<Longrightarrow> length (pad n xs) = n"
  by (simp add: pad_def)

lemma encode_layout:
  assumes "msg_ok m"
  shows "encode_message crc m = msg_head m @ be32 (crc (msg_head m))"
proof -
  have len: "length (m_mac m) = 6" "length (m_ip m) = 4" "length (m_gateway m) = 4"
    using assms by (simp_all add: msg_ok_def)
  have two: "replicate 2 0 = [0, 0 :: u8]" by (simp add: numeral_2_eq_2)
  show ?thesis
    by (simp add: encode_message_def msg_head_def Let_def PROV_PACKET_SIZE_def PROV_CRC_OFFSET_def
        pad_nil [of 36] blit_pad update_pad take_pad pad_full len two)
qed

lemma message_length: "msg_ok m \<Longrightarrow> length (encode_message crc m) = PROV_PACKET_SIZE"
  by (simp add: encode_layout length_msg_head PROV_PACKET_SIZE_def)

lemma decode_encode:
  assumes "msg_ok m" and "m_version m = PROV_VERSION"
  shows "decode_message crc (encode_message crc m) = Some m"
proof -
  obtain a b c d e f where mac: "m_mac m = [a, b, c, d, e, f]"
    using assms by (auto simp: msg_ok_def numeral_eq_Suc length_Suc_conv)
  have len: "length (m_ip m) = 4" "length (m_gateway m) = 4" using assms by (auto simp: msg_ok_def)
  have parts: "drop 12 (encode_message crc m) = m_mac m @ [0, 0] @ m_ip m @ m_gateway m @
      be32 (m_token m) @ be32 (crc (msg_head m))"
    "get_be32 (drop 8 (encode_message crc m)) = m_xid m"
    unfolding encode_layout [OF assms(1)] msg_head_def by (simp_all add: be32_def of_be32_be32)
  have tail: "drop 20 (encode_message crc m) = m_ip m @ m_gateway m @ be32 (m_token m) @
      be32 (crc (msg_head m))"
    using arg_cong [OF parts(1), of "drop 8"] by (simp add: mac)
  have rest: "drop 24 (encode_message crc m) = m_gateway m @ be32 (m_token m) @ be32 (crc (msg_head m))"
    "drop 28 (encode_message crc m) = be32 (m_token m) @ be32 (crc (msg_head m))"
    using arg_cong [OF tail, of "drop 4"] arg_cong [OF tail, of "drop 8"] by (simp_all add: len)
  have crc: "get_be32 (drop 32 (encode_message crc m)) = crc (take 32 (encode_message crc m))"
    using length_msg_head [OF assms(1)] by (simp add: encode_layout [OF assms(1)])
  have front: "get_be32 (encode_message crc m) = PROV_MAGIC"
    "encode_message crc m ! 4 = m_version m" "encode_message crc m ! 5 = m_op m"
    "encode_message crc m ! 6 = m_status m" "encode_message crc m ! 7 = m_prefix m"
    unfolding encode_layout [OF assms(1)] msg_head_def by (simp_all add: be32_def of_be32_be32)
  show ?thesis
    using message_length [OF assms(1)] parts tail rest crc front len assms(2)
    by (simp add: decode_message_def PROV_CRC_OFFSET_def mac)
qed

text \<open>An encoded message has 36 bytes and decoding it gives the message back, whatever the
  CRC function.\<close>

theorem message_round_trip:
  assumes "msg_ok m" and "m_version m = PROV_VERSION"
  shows "length (encode_message crc m) = PROV_PACKET_SIZE \<and>
    decode_message crc (encode_message crc m) = Some m"
  using message_length [OF assms(1)] decode_encode [OF assms] by simp

end
