(* ===== verification/InetChecksum.thy ===== *)
theory InetChecksum
  imports ProvCodec
begin

text \<open>
  The IPv4 header checksum of \<^verbatim>\<open>app/src/provision.c\<close> and of \<^verbatim>\<open>app/src/main.c\<close>: the sum of the
  16-bit words, the carries folded back, the complement. Folding is reduction modulo
  \<open>2 ^ 16 - 1\<close>, from which it follows that a header with its checksum in place verifies.
\<close>

section \<open>The IPv4 header checksum\<close>

text \<open>Summing 16-bit words; an odd length would read one byte past the data.\<close>

fun sum_be16 :: "u8 list \<Rightarrow> u32 \<Rightarrow> u32 option" where
  "sum_be16 [] acc = Some acc"
| "sum_be16 [a] acc = None"
| "sum_be16 (a # b # rest) acc = sum_be16 rest (acc + ucast (of_be16 a b))"

lemma carry_less:
  fixes a :: nat
  assumes "a div 65536 \<noteq> 0"
  shows "a mod 65536 + a div 65536 < a"
proof -
  have "a div 65536 * 65536 + a mod 65536 = a" by (rule div_mult_mod_eq)
  with assms show ?thesis by linarith
qed

lemma fold_carry_less:
  fixes acc :: u32
  assumes "drop_bit 16 acc \<noteq> 0"
  shows "unat ((acc AND 0xffff) + drop_bit 16 acc) < unat acc"
    and "unat ((acc AND 0xffff) + drop_bit 16 acc) = unat acc mod 2 ^ 16 + unat acc div 2 ^ 16"
proof -
  have "unat (acc AND 0xffff) = unat acc mod 2 ^ 16"
    using unat_low_bits [of acc 16] by (simp add: ones_shl_def mask_eq_exp_minus_1)
  moreover have hi: "unat (drop_bit 16 acc) = unat acc div 2 ^ 16" by (rule unat_drop_bit32)
  moreover have "unat acc div 2 ^ 16 \<noteq> 0" using assms hi by (metis unat_eq_zero)
  moreover have "unat acc < 2 ^ 32" using unat_less_exp [of acc] by simp
  ultimately show "unat ((acc AND 0xffff) + drop_bit 16 acc) = unat acc mod 2 ^ 16 + unat acc div 2 ^ 16"
    and "unat ((acc AND 0xffff) + drop_bit 16 acc) < unat acc"
    using carry_less [of "unat acc"] by (simp_all add: unat_add_no_wrap)
qed

function fold_carry :: "u32 \<Rightarrow> u32" where
  "fold_carry acc =
     (if drop_bit 16 acc \<noteq> 0 then fold_carry ((acc AND 0xffff) + drop_bit 16 acc) else acc)"
  by pat_completeness auto
termination
  by (relation "measure unat") (simp_all add: fold_carry_less(1))

declare fold_carry.simps [simp del]

definition ipv4_checksum :: "u8 list \<Rightarrow> u16 option" where
  "ipv4_checksum data = map_option (\<lambda>acc. NOT (ucast (fold_carry acc))) (sum_be16 data 0)"

text \<open>
  Folding the carries is reduction modulo \<open>2 ^ 16 - 1\<close>, with \<open>2 ^ 16 - 1\<close> standing for a
  multiple other than 0.
\<close>

definition ones_complement :: "nat \<Rightarrow> nat" where
  "ones_complement n = (if n = 0 then 0 else (n - 1) mod 65535 + 1)"

lemma ones_complement_carry:
  assumes "n div 65536 \<noteq> 0"
  shows "ones_complement (n mod 65536 + n div 65536) = ones_complement n"
proof -
  have "n div 65536 * 65536 + n mod 65536 = n" by (rule div_mult_mod_eq)
  then have "n - 1 = (n mod 65536 + n div 65536 - 1) + n div 65536 * 65535" using assms by linarith
  then have "(n - 1) mod 65535 = (n mod 65536 + n div 65536 - 1) mod 65535" by (metis mod_mult_self1)
  then show ?thesis using assms by (auto simp: ones_complement_def)
qed

lemma power_16: "(2 :: nat) ^ 16 = 65536"
  by simp

lemma unat_fold_carry: "unat (fold_carry acc) = ones_complement (unat acc)"
proof (induction acc rule: fold_carry.induct)
  case (1 acc)
  show ?case
  proof (cases "drop_bit 16 acc = 0")
    case False
    then have "unat acc div 65536 \<noteq> 0" using unat_drop_bit32 [of 16 acc] by (metis power_16 unat_eq_zero)
    then show ?thesis
      using False 1 fold_carry_less(2) [OF False] ones_complement_carry [of "unat acc"]
      by (simp add: fold_carry.simps [of acc])
  next
    case True
    then have "unat acc div 65536 = 0" using unat_drop_bit32 [of 16 acc] by simp
    then have "unat acc < 65536" by (simp add: div_eq_0_iff)
    with True show ?thesis by (simp add: fold_carry.simps [of acc] ones_complement_def)
  qed
qed

fun words_sum :: "u8 list \<Rightarrow> nat" where
  "words_sum (a # b # rest) = unat (of_be16 a b) + words_sum rest"
| "words_sum _ = 0"

lemma words_sum_append: "even (length xs) \<Longrightarrow> words_sum (xs @ ys) = words_sum xs + words_sum ys"
  by (induction xs rule: words_sum.induct) auto

lemma words_sum_le: "words_sum xs \<le> 32768 * length xs"
proof (induction xs rule: words_sum.induct)
  case (1 a b rest)
  have "unat (of_be16 a b) < 65536" using unat_less_exp [of "of_be16 a b"] by simp
  with 1 show ?case by simp
qed auto

lemma sum_be16_value:
  assumes "even (length xs)" and "unat acc + words_sum xs < 2 ^ 32"
  shows "\<exists>r. sum_be16 xs acc = Some r \<and> unat r = unat acc + words_sum xs"
  using assms
proof (induction xs acc rule: sum_be16.induct)
  case (3 a b rest acc)
  have "unat (ucast (of_be16 a b) :: u32) = unat (of_be16 a b)"
    using unat_less_exp [of "of_be16 a b"] by (simp add: unsigned_ucast_eq take_bit_nat_eq_self)
  then have "unat (acc + ucast (of_be16 a b)) = unat acc + unat (of_be16 a b)"
    using 3(3) by (simp add: unat_add_no_wrap)
  with 3 show ?case by (simp add: add.assoc)
qed simp_all

lemma ones_complement_le: "ones_complement n \<le> 65535"
proof -
  have "(n - 1) mod 65535 < 65535" by simp
  then show ?thesis by (simp add: ones_complement_def less_eq_Suc_le)
qed

lemma unat_NOT_fold: "unat (NOT (ucast (fold_carry r)) :: u16) = 65535 - ones_complement (unat r)"
proof -
  have "unat (ucast (fold_carry r) :: u16) = ones_complement (unat r)"
    using ones_complement_le [of "unat r"]
    by (simp add: unsigned_ucast_eq unat_fold_carry take_bit_nat_eq_self)
  moreover have "unat (NOT w :: u16) = 65535 - unat w" for w
  proof -
    have "NOT w = - 1 - w" by (simp add: not_eq_complement)
    then show ?thesis
      using unat_sub [of w "- 1"] by (simp add: unsigned_minus_1_eq_mask mask_eq_exp_minus_1)
  qed
  ultimately show ?thesis by simp
qed

lemma ones_complement_cancel: "ones_complement (n + (65535 - ones_complement n)) = 65535"
proof (cases "n = 0")
  case False
  define m where "m = (n - 1) div 65535"
  have "m * 65535 + (n - 1) mod 65535 = n - 1" by (simp add: m_def)
  moreover have "(n - 1) mod 65535 < 65535" by simp
  ultimately have "n + (65535 - ones_complement n) - 1 = 65534 + m * 65535"
    using False by (simp add: ones_complement_def)
  moreover have "(65534 + m * 65535) mod 65535 = (65534 :: nat)" by (simp only: mod_mult_self1) simp
  ultimately show ?thesis using False by (simp add: ones_complement_def)
qed (simp add: ones_complement_def)

lemma checksum_verifies:
  assumes "even (length hdr)" and "length hdr \<le> 65536" and "even off" and "off + 2 \<le> length hdr"
    and "hdr ! off = 0" and "hdr ! Suc off = 0"
  shows "\<exists>ck. ipv4_checksum hdr = Some ck \<and> ipv4_checksum (blit hdr off (be16 ck)) = Some 0"
proof -
  have hdr: "hdr = take off hdr @ [0, 0] @ drop (off + 2) hdr"
    using assms(4-6) id_take_nth_drop [of off hdr] Cons_nth_drop_Suc [of "Suc off" hdr] by simp
  obtain r where r: "sum_be16 hdr 0 = Some r" "unat r = words_sum hdr"
    using sum_be16_value [of hdr 0] assms(1,2) words_sum_le [of hdr] by auto
  define ck where "ck = (NOT (ucast (fold_carry r)) :: u16)"
  have ck: "unat ck = 65535 - ones_complement (words_sum hdr)"
    using r(2) by (simp add: ck_def unat_NOT_fold)
  have "words_sum (blit hdr off (be16 ck)) = words_sum (take off hdr) + (unat ck + words_sum (drop (off + 2) hdr))"
    using assms(3,4) by (simp add: blit_def words_sum_append be16_def of_be16_be16)
  moreover have "words_sum hdr = words_sum (take off hdr) + words_sum (drop (off + 2) hdr)"
    using assms(3,4) by (subst hdr) (simp add: words_sum_append of_be16_def)
  ultimately have new: "words_sum (blit hdr off (be16 ck)) = words_sum hdr + (65535 - ones_complement (words_sum hdr))"
    using ck by simp
  have "words_sum hdr + (65535 - ones_complement (words_sum hdr)) < 4294967296"
    using assms(2) words_sum_le [of hdr] by linarith
  then obtain r' where r': "sum_be16 (blit hdr off (be16 ck)) 0 = Some r'"
    "unat r' = words_sum hdr + (65535 - ones_complement (words_sum hdr))"
    using sum_be16_value [of "blit hdr off (be16 ck)" 0] assms(1,4) new by auto
  have "unat (NOT (ucast (fold_carry r')) :: u16) = 0"
    using r'(2) ones_complement_cancel by (simp add: unat_NOT_fold)
  then show ?thesis
    using r r' by (simp add: ipv4_checksum_def ck_def unat_eq_zero)
qed

text \<open>A checksum written into its zeroed field makes the whole header verify: summed again the
  result is 0, which is what a receiver tests.\<close>

theorem ipv4_checksum_verifies:
  assumes "even (length hdr)" and "length hdr \<le> 65536" and "even off" and "off + 2 \<le> length hdr"
    and "hdr ! off = 0" and "hdr ! Suc off = 0"
  shows "\<exists>ck. ipv4_checksum hdr = Some ck \<and> ipv4_checksum (blit hdr off (be16 ck)) = Some 0"
  using checksum_verifies [OF assms] .

end
