(* ===== verification/Provision.thy ===== *)
theory Provision
  imports InetChecksum TxSafety
begin

text \<open>
  \<^verbatim>\<open>app/src/provision.c\<close>: the provisioning thread with its queue of received messages, the
  host's JTAG mailbox, and the address of the interface. The state is the file's static
  variables, the mailbox, the calls made into the network interface with their answers (the
  newest first), and the driver. \<open>pctx\<close> answers for what is outside \<^verbatim>\<open>src/\<close>: \<^verbatim>\<open>crc32_ieee\<close>, the
  network interface calls, and the host, which may rewrite the mailbox before every access.
  A C operation that would be undefined is \<open>None\<close>.
\<close>

section \<open>State\<close>

definition EMACZ_JTAG_MAILBOX_MAGIC :: u32 where "EMACZ_JTAG_MAILBOX_MAGIC = 0x50525856"

record emacz_jtag_mailbox =
  jm_magic :: u32
  jm_epoch :: u32
  jm_ip :: u32
  jm_gateway :: u32
  jm_prefix :: u32
  jm_reserved :: u32
  jm_ack_epoch :: u32
  jm_status :: int

record prov_data =
  prov_iface :: bool
  prov_addr :: "u8 list"
  prov_addr_installed :: bool
  prov_gateway :: "u8 list"
  prov_prefix :: u8
  prov_token :: u32
  prov_xid :: u32
  prov_mac :: "u8 list"
  last_applied_epoch :: u32
  armed :: bool

definition prov_zero :: prov_data where
  "prov_zero = \<lparr>prov_iface = False, prov_addr = [0, 0, 0, 0], prov_addr_installed = False,
     prov_gateway = [0, 0, 0, 0], prov_prefix = 0, prov_token = 0, prov_xid = 0,
     prov_mac = replicate 6 0, last_applied_epoch = 0, armed = False\<rparr>"

datatype net_call =
    Net_addr_add "u8 list" | Net_addr_rm "u8 list" | Net_set_netmask "u8 list" "u8 list"
  | Net_set_gw "u8 list"

record pctx =
  pc :: ctx
  crc32_ieee :: "u8 list \<Rightarrow> u32"
  net_ok :: "(net_call \<times> bool) list \<Rightarrow> net_call \<Rightarrow> bool"
  net_up :: int
  host :: "nat \<Rightarrow> emacz_jtag_mailbox \<Rightarrow> emacz_jtag_mailbox"

record psys =
  pv :: prov_data
  mailbox :: emacz_jtag_mailbox
  mb_accesses :: nat
  net_tr :: "(net_call \<times> bool) list"
  drv :: emz

definition upd_pv :: "(prov_data \<Rightarrow> prov_data) \<Rightarrow> psys \<Rightarrow> psys" where
  "upd_pv f s = s\<lparr>pv := f (pv s)\<rparr>"

definition net_do :: "pctx \<Rightarrow> net_call \<Rightarrow> psys \<Rightarrow> bool \<times> psys" where
  "net_do c x s = (let r = net_ok c (net_tr s) x in (r, s\<lparr>net_tr := (x, r) # net_tr s\<rparr>))"

text \<open>One access to the mailbox: what the host did since the last one comes first.\<close>

definition mb_access :: "pctx \<Rightarrow> (emacz_jtag_mailbox \<Rightarrow> emacz_jtag_mailbox) \<Rightarrow> psys \<Rightarrow> psys" where
  "mb_access c f s =
     s\<lparr>mailbox := f (host c (mb_accesses s) (mailbox s)), mb_accesses := mb_accesses s + 1\<rparr>"

definition mb_read :: "pctx \<Rightarrow> (emacz_jtag_mailbox \<Rightarrow> 'a) \<Rightarrow> psys \<Rightarrow> 'a \<times> psys" where
  "mb_read c field s = (let s = mb_access c (\<lambda>m. m) s in (field (mailbox s), s))"

section \<open>Responses\<close>

datatype prov_op = PROV_DISCOVER | PROV_OFFER | PROV_CONFIG | PROV_ACK | PROV_NACK

fun op_code :: "prov_op \<Rightarrow> u8" where
  "op_code PROV_DISCOVER = 1"
| "op_code PROV_OFFER = 2"
| "op_code PROV_CONFIG = 3"
| "op_code PROV_ACK = 4"
| "op_code PROV_NACK = 5"

datatype prov_status = PROV_OK | PROV_BAD_REQUEST | PROV_BAD_TOKEN | PROV_BAD_ADDRESS | PROV_APPLY_FAILED

fun status_code :: "prov_status \<Rightarrow> u8" where
  "status_code PROV_OK = 0"
| "status_code PROV_BAD_REQUEST = 1"
| "status_code PROV_BAD_TOKEN = 2"
| "status_code PROV_BAD_ADDRESS = 3"
| "status_code PROV_APPLY_FAILED = 4"

definition EMACZ_PROVISION_PORT :: u16 where "EMACZ_PROVISION_PORT = 5004"
definition PROV_MULTICAST_ADDR :: u32 where "PROV_MULTICAST_ADDR = 0xefff4d5a"

definition response_message :: "prov_data \<Rightarrow> prov_op \<Rightarrow> prov_status \<Rightarrow> u32 \<Rightarrow> prov_message" where
  "response_message d op status xid =
     \<lparr>m_version = PROV_VERSION, m_op = op_code op, m_status = status_code status,
      m_prefix = prov_prefix d, m_xid = xid, m_mac = prov_mac d, m_ip = prov_addr d,
      m_gateway = prov_gateway d, m_token = prov_token d\<rparr>"

text \<open>The frame \<^verbatim>\<open>send_response\<close> builds; the header is summed with a zero in its checksum field.\<close>

definition response_frame :: "(u8 list \<Rightarrow> u32) \<Rightarrow> prov_data \<Rightarrow> prov_op \<Rightarrow> prov_status \<Rightarrow> u32 \<Rightarrow> u8 list option" where
  "response_frame crc d op status xid = do {
     let frame = replicate (14 + 20 + 8 + PROV_PACKET_SIZE) 0;
     let frame = blit frame 42 (encode_message crc (response_message d op status xid));
     let frame = blit frame 0 [0x01, 0x00, 0x5e, 0x7f, 0x4d, 0x5a];
     let frame = blit frame 6 (prov_mac d);
     let frame = blit frame 12 (be16 0x0800);
     let frame = frame[14 + 0 := 0x45];
     let frame = blit frame (14 + 2) (be16 (of_nat (20 + 8 + PROV_PACKET_SIZE)));
     let frame = blit frame (14 + 4) (be16 (ucast xid));
     let frame = frame[14 + 8 := 1];
     let frame = frame[14 + 9 := 17];
     let frame = blit frame (14 + 12) (prov_addr d);
     let frame = blit frame (14 + 16) (be32 PROV_MULTICAST_ADDR);
     ck \<leftarrow> ipv4_checksum (take 20 (drop 14 frame));
     let frame = blit frame (14 + 10) (be16 ck);
     let frame = blit frame (34 + 0) (be16 EMACZ_PROVISION_PORT);
     let frame = blit frame (34 + 2) (be16 EMACZ_PROVISION_PORT);
     let frame = blit frame (34 + 4) (be16 (of_nat (8 + PROV_PACKET_SIZE)));
     Some frame
   }"

definition send_response :: "pctx \<Rightarrow> prov_op \<Rightarrow> prov_status \<Rightarrow> u32 \<Rightarrow> psys \<Rightarrow> (int \<times> psys) option" where
  "send_response c op status xid s = do {
     frame \<leftarrow> response_frame (crc32_ieee c) (pv s) op status xid;
     (ret, d) \<leftarrow> emaczero_send_raw_frame (pc c) frame (drv s);
     Some (ret, s\<lparr>drv := d\<rparr>)
   }"

section \<open>Installing an address\<close>

text \<open>Putting the previous address back after a failure.\<close>

definition restore_old :: "pctx \<Rightarrow> u8 list \<Rightarrow> psys \<Rightarrow> psys option" where
  "restore_old c old_addr s =
     (case net_do c (Net_addr_add old_addr) s of
        (False, s) \<Rightarrow> Some s
      | (True, s) \<Rightarrow> do {
          old_mask \<leftarrow> prefix_to_mask (prov_prefix (pv s));
          let (_, s) = net_do c (Net_set_netmask old_addr old_mask) s;
          Some (upd_pv (\<lambda>d. d\<lparr>prov_addr_installed := True\<rparr>) s)
        })"

text \<open>\<^verbatim>\<open>apply_config\<close> from the addition of the new address on.\<close>

definition install_address :: "pctx \<Rightarrow> prov_message \<Rightarrow> u8 list \<Rightarrow> psys \<Rightarrow> (int \<times> psys) option" where
  "install_address c request old_addr s =
     (case net_do c (Net_addr_add (m_ip request)) s of
        (False, s) \<Rightarrow> do { s \<leftarrow> restore_old c old_addr s; Some (- ENOMEM, s) }
      | (True, s) \<Rightarrow> do {
          nm \<leftarrow> prefix_to_mask (m_prefix request);
          (case net_do c (Net_set_netmask (m_ip request) nm) s of
             (False, s) \<Rightarrow> do {
               let (_, s) = net_do c (Net_addr_rm (m_ip request)) s;
               s \<leftarrow> restore_old c old_addr s;
               Some (- EIO, s)
             }
           | (True, s) \<Rightarrow>
               let (_, s) = net_do c (Net_set_gw (m_gateway request)) s
               in Some (0, upd_pv (\<lambda>d. d\<lparr>prov_addr_installed := True,
                    prov_addr := m_ip request, prov_gateway := m_gateway request,
                    prov_prefix := m_prefix request\<rparr>) s))
        })"

definition apply_config :: "pctx \<Rightarrow> prov_message \<Rightarrow> psys \<Rightarrow> (int \<times> psys) option" where
  "apply_config c request s =
     (let old_addr = prov_addr (pv s)
      in if \<not> addr_is_usable (m_ip request) (m_prefix request) (m_gateway request) then Some (- EINVAL, s)
         else case (if prov_addr_installed (pv s) then net_do c (Net_addr_rm old_addr) s else (True, s)) of
           (False, s) \<Rightarrow> Some (- EIO, s)
         | (True, s) \<Rightarrow>
             install_address c request old_addr (upd_pv (\<lambda>d. d\<lparr>prov_addr_installed := False\<rparr>) s))"

section \<open>The JTAG mailbox\<close>

text \<open>The part of \<^verbatim>\<open>poll_jtag_mailbox\<close> that serves a request: everything after the epoch tests.\<close>

definition mailbox_done :: "pctx \<Rightarrow> u32 \<Rightarrow> int \<Rightarrow> psys \<Rightarrow> psys" where
  "mailbox_done c epoch status s =
     (let s = mb_access c (\<lambda>m. m\<lparr>jm_status := status\<rparr>) s;
          s = mb_access c (\<lambda>m. m\<lparr>jm_ack_epoch := epoch\<rparr>) s
      in upd_pv (\<lambda>d. d\<lparr>last_applied_epoch := epoch\<rparr>) s)"

definition mailbox_serve :: "pctx \<Rightarrow> u32 \<Rightarrow> psys \<Rightarrow> psys option" where
  "mailbox_serve c epoch s =
     (let (ip, s) = mb_read c jm_ip s;
          (gateway, s) = mb_read c jm_gateway s;
          (prefix, s) = mb_read c jm_prefix s;
          request = \<lparr>m_version = 0, m_op = 0, m_status = 0, m_prefix = ucast prefix, m_xid = 0,
            m_mac = prov_mac (pv s), m_ip = be32 ip, m_gateway = be32 gateway, m_token = 0\<rparr>
      in if \<not> addr_is_usable (m_ip request) (m_prefix request) (m_gateway request)
         then Some (mailbox_done c epoch (- EINVAL) s)
         else do { (ret, s) \<leftarrow> apply_config c request s; Some (mailbox_done c epoch ret s) })"

definition poll_jtag_mailbox :: "pctx \<Rightarrow> psys \<Rightarrow> psys option" where
  "poll_jtag_mailbox c s =
     (let (magic, s) = mb_read c jm_magic s
      in if magic \<noteq> EMACZ_JTAG_MAILBOX_MAGIC then Some (upd_pv (\<lambda>d. d\<lparr>armed := False\<rparr>) s)
         else
           let (epoch, s) = mb_read c jm_epoch s
           in if \<not> armed (pv s) then
                let s = upd_pv (\<lambda>d. d\<lparr>armed := True\<rparr>) s;
                    (ack, s) = mb_read c jm_ack_epoch s
                in if ack = epoch then Some (upd_pv (\<lambda>d. d\<lparr>last_applied_epoch := epoch\<rparr>) s)
                   else mailbox_serve c epoch s
              else if epoch = last_applied_epoch (pv s) then Some s
              else mailbox_serve c epoch s)"

section \<open>The provisioning thread\<close>

text \<open>\<^verbatim>\<open>K_MSGQ_DEFINE(prov_rx_queue, PROV_PACKET_SIZE, 8, 4)\<close> and the call that fills it.\<close>

definition prov_queue_len :: nat where "prov_queue_len = 8"

definition msgq_put :: "u8 list \<Rightarrow> aux_state \<Rightarrow> aux_state" where
  "msgq_put payload a =
     (if length (prov_rx_queue a) < prov_queue_len
      then a\<lparr>prov_rx_queue := prov_rx_queue a @ [payload]\<rparr> else a)"

definition msgq_get :: "aux_state \<Rightarrow> aux_state" where
  "msgq_get a = a\<lparr>prov_rx_queue := tl (prov_rx_queue a)\<rparr>"

definition emacz_provision_ingress :: "u8 list option \<Rightarrow> aux_state \<Rightarrow> bool \<times> aux_state" where
  "emacz_provision_ingress payload a =
     (case payload of
        None \<Rightarrow> (False, a)
      | Some bytes \<Rightarrow>
          if length bytes \<noteq> PROV_PACKET_SIZE then (False, a) else (True, msgq_put bytes a))"

definition new_token :: "u32 \<Rightarrow> u32 \<Rightarrow> u8 list \<Rightarrow> u32" where
  "new_token cycle xid hw =
     (let token = ((cycle XOR xid) XOR get_be32 (drop 2 hw)) XOR 0x455a4346
      in if token = 0 then 1 else token)"

text \<open>What the thread does with one message.\<close>

definition serve_request :: "pctx \<Rightarrow> prov_message \<Rightarrow> psys \<Rightarrow> psys option" where
  "serve_request c request s =
     (if m_op request = op_code PROV_DISCOVER then do {
        let s = upd_pv (\<lambda>d. d\<lparr>prov_xid := m_xid request\<rparr>) s;
        let cycle = cycle_now (pc c) (drv s);
        let s = s\<lparr>drv := tick (drv s)\<rparr>;
        let s = upd_pv (\<lambda>d. d\<lparr>prov_token := new_token cycle (m_xid request) (prov_mac d)\<rparr>) s;
        map_option snd (send_response c PROV_OFFER PROV_OK (m_xid request) s)
      }
      else if m_op request \<noteq> op_code PROV_CONFIG \<or> m_mac request \<noteq> prov_mac (pv s) then Some s
      else if m_xid request \<noteq> prov_xid (pv s) \<or> m_token request = 0 \<or> m_token request \<noteq> prov_token (pv s)
      then map_option snd (send_response c PROV_NACK PROV_BAD_TOKEN (m_xid request) s)
      else if \<not> addr_is_usable (m_ip request) (m_prefix request) (m_gateway request)
      then map_option snd (send_response c PROV_NACK PROV_BAD_ADDRESS (m_xid request) s)
      else do {
        (ret, s) \<leftarrow> apply_config c request s;
        if ret \<noteq> 0 then map_option snd (send_response c PROV_NACK PROV_APPLY_FAILED (m_xid request) s)
        else
          map_option snd (send_response c PROV_ACK PROV_OK (m_xid request)
            (upd_pv (\<lambda>d. d\<lparr>prov_token := 0\<rparr>) s))
      })"

text \<open>One turn of the loop of \<^verbatim>\<open>provision_thread_fn\<close>; the queue is what it holds when the wait ends.\<close>

definition provision_thread_step :: "pctx \<Rightarrow> psys \<Rightarrow> psys option" where
  "provision_thread_step c s =
     (case prov_rx_queue (aux (drv s)) of
        [] \<Rightarrow> poll_jtag_mailbox c s
      | buf # _ \<Rightarrow> do {
          let s = s\<lparr>drv := (drv s)\<lparr>aux := msgq_get (aux (drv s))\<rparr>\<rparr>;
          s \<leftarrow> poll_jtag_mailbox c s;
          (case decode_message (crc32_ieee c) buf of
             None \<Rightarrow> Some s
           | Some request \<Rightarrow> serve_request c request s)
        })"

section \<open>Start\<close>

text \<open>The link-local bootstrap address, from the last two bytes of the station address.\<close>

definition not_end :: "u8 \<Rightarrow> u8" where
  "not_end b = (if b = 0 \<or> b = 255 then 1 else b)"

definition bootstrap_addr :: "u8 list \<Rightarrow> u8 list" where
  "bootstrap_addr hw = [169, 254, not_end (hw ! 4 XOR 0x80), not_end (hw ! 5)]"

definition emacz_provision_start :: "pctx \<Rightarrow> bool \<Rightarrow> u8 list option \<Rightarrow> psys \<Rightarrow> (int \<times> psys) option" where
  "emacz_provision_start c bound link_addr s =
     (if \<not> bound then Some (- EINVAL, s)
      else case link_addr of
        None \<Rightarrow> Some (- EINVAL, s)
      | Some addr \<Rightarrow>
          if length addr \<noteq> 6 then Some (- EINVAL, s)
          else do {
            let s = upd_pv (\<lambda>d. d\<lparr>prov_iface := True, prov_mac := addr, prov_addr := bootstrap_addr addr,
              prov_gateway := [0, 0, 0, 0], prov_prefix := 16\<rparr>) s;
            (ret, s) \<leftarrow>
              (case net_do c (Net_addr_add (prov_addr (pv s))) s of
                 (False, s) \<Rightarrow> Some (- ENOMEM, s)
               | (True, s) \<Rightarrow> do {
                   let s = upd_pv (\<lambda>d. d\<lparr>prov_addr_installed := True\<rparr>) s;
                   mask \<leftarrow> prefix_to_mask (prov_prefix (pv s));
                   let (ok, s) = net_do c (Net_set_netmask (prov_addr (pv s)) mask) s;
                   Some (if ok then 0 else - EIO, s)
                 });
            let up = net_up c;
            Some (if up \<noteq> 0 \<and> up \<noteq> - EALREADY \<and> ret = 0 then up else ret, s)
          })"

definition emacz_provision_get_ipv4 :: "bool \<Rightarrow> psys \<Rightarrow> u8 list option" where
  "emacz_provision_get_ipv4 addr s =
     (if \<not> addr \<or> \<not> prov_iface (pv s) then None else Some (prov_addr (pv s)))"

end
