(* ===== verification/UdpSink.thy ===== *)
theory UdpSink
  imports Provision
begin

text \<open>
  The UDP sink of \<^verbatim>\<open>app/src/main.c\<close>: the sink counters of the statistics block with their
  sequence word, and \<^verbatim>\<open>udp_sink_intercept\<close>, which the driver calls on every received frame and
  which consumes sink and provisioning datagrams. Every update runs under \<^verbatim>\<open>sink_stats_lock\<close>,
  so it is one step here; the theory \<open>SinkSeqlock\<close> has its single stores.
\<close>

section \<open>Sink counters\<close>

definition sink_stats_begin :: "perf_stats \<Rightarrow> perf_stats" where
  "sink_stats_begin p = inc32 Sink_seq p"

definition sink_stats_end :: "perf_stats \<Rightarrow> perf_stats" where
  "sink_stats_end p = inc32 Sink_seq p"

definition sink_account_packet :: "u32 \<Rightarrow> u32 \<Rightarrow> perf_stats \<Rightarrow> perf_stats" where
  "sink_account_packet now payload_len p =
     (let p = sink_stats_begin p;
          p = (if p64 p Sink_packets = 0 then set32 Sink_first_cycle now p else p);
          p = inc64 Sink_packets p;
          p = add64 Sink_bytes (ucast payload_len) p;
          p = set32 Sink_last_len payload_len p;
          p = set32 Sink_last_cycle now p
      in sink_stats_end p)"

text \<open>\<^verbatim>\<open>EWOULDBLOCK\<close> is \<^verbatim>\<open>EAGAIN\<close> in Zephyr's headers.\<close>

definition sink_account_error :: "u32 \<Rightarrow> perf_stats \<Rightarrow> perf_stats" where
  "sink_account_error err p =
     (let p = sink_stats_begin p;
          p = inc64 Sink_recv_errors p;
          p = set32 Sink_last_errno err p;
          p = (if err = of_int EAGAIN then inc64 Sink_eagain p else p)
      in sink_stats_end p)"

text \<open>The accounting of one receive call in \<^verbatim>\<open>udp_sink_thread_fn\<close>.\<close>

definition sink_account_recv :: "u32 \<Rightarrow> perf_stats \<Rightarrow> perf_stats" where
  "sink_account_recv recv_cycles p =
     (let p = sink_stats_begin p;
          p = inc64 Sink_recvfrom_calls p;
          p = add64 Sink_recvfrom_cycles_total (ucast recv_cycles) p;
          p = (if p32 p Sink_recvfrom_cycles_max < recv_cycles
               then set32 Sink_recvfrom_cycles_max recv_cycles p else p)
      in sink_stats_end p)"

text \<open>
  One turn of the socket loop: \<open>got\<close> is the answer of \<^verbatim>\<open>zsock_recvfrom\<close>, \<open>err\<close> the errno, \<open>now\<close> the
  clock when the packet is accounted.
\<close>

definition udp_sink_turn :: "u32 \<Rightarrow> u32 \<Rightarrow> int \<Rightarrow> u32 \<Rightarrow> u32 \<Rightarrow> perf_stats \<Rightarrow> perf_stats" where
  "udp_sink_turn recv_start recv_end got err now p =
     (let p = sink_account_recv (recv_end - recv_start) p
      in if got < 0 then sink_account_error err p else sink_account_packet now (of_int got) p)"

text \<open>The start of the thread: a failing socket or bind is accounted and ends it.\<close>

definition udp_sink_open :: "int \<Rightarrow> int \<Rightarrow> u32 \<Rightarrow> perf_stats \<Rightarrow> bool \<times> perf_stats" where
  "udp_sink_open sock bind_ret err p =
     (if sock < 0 then (False, sink_account_error err p)
      else if bind_ret < 0 then (False, sink_account_error err p)
      else (True, p))"

section \<open>The interceptor\<close>

definition UDP_SINK_PORT :: u16 where "UDP_SINK_PORT = 5001"

text \<open>\<^verbatim>\<open>memcmp(frame, mac, 6)\<close>: \<open>None\<close> when one of them is shorter.\<close>

definition mem_equal6 :: "u8 list \<Rightarrow> u8 list \<Rightarrow> bool option" where
  "mem_equal6 a b = (if 6 \<le> length a \<and> 6 \<le> length b then Some (take 6 a = take 6 b) else None)"

text \<open>\<^verbatim>\<open>emacz_provision_ingress(frame + off, n)\<close>: the callee copies the \<open>n\<close> bytes it accepts.\<close>

definition ingress_at :: "u8 list \<Rightarrow> nat \<Rightarrow> nat \<Rightarrow> aux_state \<Rightarrow> (bool \<times> aux_state) option" where
  "ingress_at frame off n a =
     (if off + n \<le> length frame then Some (emacz_provision_ingress (Some (take n (drop off frame))) a) else None)"

definition upd_aux_perf :: "(perf_stats \<Rightarrow> perf_stats) \<Rightarrow> aux_state \<Rightarrow> aux_state" where
  "upd_aux_perf f a = a\<lparr>perf := f (perf a)\<rparr>"

definition udp_sink_intercept ::
  "(nat \<Rightarrow> u32) \<Rightarrow> u8 list option \<Rightarrow> u8 list \<Rightarrow> nat \<Rightarrow> aux_state \<Rightarrow> (bool \<times> aux_state) option" where
  "udp_sink_intercept clock user_data frame len a =
     (case user_data of
        None \<Rightarrow> Some (False, a)
      | Some mac6 \<Rightarrow>
          if len < 42 then Some (False, a)
          else do {
            eth_type \<leftarrow> rd16 frame 12;
            vihl \<leftarrow> rd8 frame 14;
            proto \<leftarrow> rd8 frame 23;
            if eth_type \<noteq> 0x0800 \<or> drop_bit 4 vihl \<noteq> 4 \<or> vihl AND 0x0f < 5 \<or> proto \<noteq> 17 then Some (False, a)
            else do {
              let ip_header_len = unat (vihl AND 0x0f) * 4;
              total \<leftarrow> rd16 frame 16;
              let ip_total_len = unat total;
              let udp_offset = 14 + ip_header_len;
              frag \<leftarrow> rd16 frame 20;
              if ip_total_len < ip_header_len + 8 \<or> len < 14 + ip_total_len \<or> frag AND 0x3fff \<noteq> 0 \<or>
                 len < udp_offset + 8 then Some (False, a)
              else do {
                ulen \<leftarrow> rd16 frame (udp_offset + 4);
                let udp_len = unat ulen;
                if udp_len < 8 \<or> ip_total_len - ip_header_len < udp_len \<or> len < udp_offset + udp_len
                then Some (False, a)
                else do {
                  port \<leftarrow> rd16 frame (udp_offset + 2);
                  bcast \<leftarrow> mem_equal6 frame (replicate 6 0xff);
                  mine \<leftarrow> mem_equal6 frame mac6;
                  if port = EMACZ_PROVISION_PORT \<and> (bcast \<or> mine)
                  then ingress_at frame (udp_offset + 8) (udp_len - 8) a
                  else if port \<noteq> UDP_SINK_PORT \<or> \<not> mine then Some (False, a)
                  else
                    let now = clock (ticks a);
                        a = a\<lparr>ticks := ticks a + 1\<rparr>
                    in Some (True, upd_aux_perf (sink_account_packet now (of_nat (udp_len - 8))) a)
                }
              }
            }
          })"

section \<open>What the interceptor is for\<close>

text \<open>
  The destination port and the payload of a frame that holds a whole, unfragmented UDP
  datagram over IPv4, and \<open>None\<close> for any other frame.
\<close>

definition udp_view :: "u8 list \<Rightarrow> nat \<Rightarrow> (u16 \<times> u8 list) option" where
  "udp_view frame len =
     (let ihl = 4 * unat (frame ! 14 AND 0x0f); total = unat (of_be16 (frame ! 16) (frame ! 17));
          ulen = unat (of_be16 (frame ! (18 + ihl)) (frame ! (19 + ihl)))
      in if 42 \<le> len \<and> of_be16 (frame ! 12) (frame ! 13) = 0x0800 \<and> drop_bit 4 (frame ! 14) = 4 \<and>
            20 \<le> ihl \<and> frame ! 23 = 17 \<and> of_be16 (frame ! 20) (frame ! 21) AND 0x3fff = 0 \<and>
            8 \<le> ulen \<and> ihl + ulen \<le> total \<and> 14 + total \<le> len
         then Some (of_be16 (frame ! (16 + ihl)) (frame ! (17 + ihl)), take (ulen - 8) (drop (22 + ihl) frame))
         else None)"

definition intercept_spec :: "(nat \<Rightarrow> u32) \<Rightarrow> u8 list \<Rightarrow> u8 list \<Rightarrow> nat \<Rightarrow> aux_state \<Rightarrow> bool \<times> aux_state" where
  "intercept_spec clock mac6 frame len a =
     (case udp_view frame len of
        None \<Rightarrow> (False, a)
      | Some (port, payload) \<Rightarrow>
          if port = 5004 \<and> take 6 frame \<in> {replicate 6 0xff, mac6}
          then emacz_provision_ingress (Some payload) a
          else if port = 5001 \<and> take 6 frame = mac6
          then (True, upd_aux_perf (sink_account_packet (clock (ticks a)) (of_nat (length payload)))
                  (a\<lparr>ticks := ticks a + 1\<rparr>))
          else (False, a))"

lemma mem_equal6_Some [simp]:
  "6 \<le> length a \<Longrightarrow> length b = 6 \<Longrightarrow> mem_equal6 a b = Some (take 6 a = b)"
  by (simp add: mem_equal6_def)

lemma ihl_le: "unat (v AND 0x0f :: u8) \<le> 15"
  using word_and_mask_le [of v 15] by (simp add: word_le_nat_alt)

lemma intercept_in_bounds:
  assumes len: "len \<le> length frame" and mac6: "length mac6 = 6"
  shows "udp_sink_intercept clock (Some mac6) frame len a = Some (intercept_spec clock mac6 frame len a)"
proof (cases "len < 42")
  case True
  then show ?thesis by (simp add: udp_sink_intercept_def intercept_spec_def udp_view_def)
next
  case False
  define ihl total where "ihl = unat (frame ! 14 AND 0x0f) * 4" and "total = unat (of_be16 (frame ! 16) (frame ! 17))"
  define ulen where "ulen = unat (of_be16 (frame ! (18 + ihl)) (frame ! (19 + ihl)))"
  define port where "port = of_be16 (frame ! (16 + ihl)) (frame ! (17 + ihl))"
  define hdr where "hdr \<longleftrightarrow> of_be16 (frame ! 12) (frame ! 13) = 0x0800 \<and> drop_bit 4 (frame ! 14) = 4 \<and>
    \<not> frame ! 14 AND 0x0f < 5 \<and> frame ! 23 = 17"
  define whole where "whole \<longleftrightarrow> ihl + 8 \<le> total \<and> 14 + total \<le> len \<and> of_be16 (frame ! 20) (frame ! 21) AND 0x3fff = 0"
  have five: "\<not> frame ! 14 AND 0x0f < 5 \<longleftrightarrow> 20 \<le> ihl" by (auto simp: ihl_def word_less_nat_alt)
  have view: "udp_view frame len = (if hdr \<and> whole \<and> 8 \<le> ulen \<and> ihl + ulen \<le> total
      then Some (port, take (ulen - 8) (drop (22 + ihl) frame)) else None)"
    using False unfolding udp_view_def Let_def hdr_def whole_def five
    by (auto simp: ihl_def total_def ulen_def port_def mult.commute)
  show ?thesis
  proof (cases "hdr \<and> whole")
    case True
    then have off: "14 + ihl + 8 \<le> length frame" "14 + ihl + 8 \<le> len" using len by (auto simp: whole_def)
    define fit where "fit \<longleftrightarrow> 8 \<le> ulen \<and> ihl + ulen \<le> total"
    define payload where "payload = take (ulen - 8) (drop (22 + ihl) frame)"
    have n: "length payload = ulen - 8" "22 + ihl + (ulen - 8) \<le> length frame" if fit
      using that True len by (auto simp: fit_def payload_def whole_def)
    have "udp_sink_intercept clock (Some mac6) frame len a =
        (if ulen < 8 \<or> total - ihl < ulen \<or> len < 14 + ihl + ulen then Some (False, a)
         else if port = EMACZ_PROVISION_PORT \<and> (take 6 frame = replicate 6 0xff \<or> take 6 frame = mac6)
         then ingress_at frame (14 + ihl + 8) (ulen - 8) a
         else if port \<noteq> UDP_SINK_PORT \<or> take 6 frame \<noteq> mac6 then Some (False, a)
         else Some (True, upd_aux_perf (sink_account_packet (clock (ticks a)) (of_nat (ulen - 8)))
           (a\<lparr>ticks := ticks a + 1\<rparr>)))"
      using True False len mac6 off
      unfolding udp_sink_intercept_def Let_def hdr_def whole_def
      by (auto simp: ihl_def [symmetric] total_def [symmetric] ulen_def [symmetric] port_def [symmetric])
    also have "ulen < 8 \<or> total - ihl < ulen \<or> len < 14 + ihl + ulen \<longleftrightarrow> \<not> fit"
      using True by (auto simp: fit_def whole_def)
    finally show ?thesis
      using True n by (cases fit) (auto simp: intercept_spec_def view fit_def [symmetric] payload_def [symmetric]
        ingress_at_def EMACZ_PROVISION_PORT_def UDP_SINK_PORT_def)
  next
    case no: False
    have "udp_sink_intercept clock (Some mac6) frame len a = Some (False, a)"
      using no False len unfolding udp_sink_intercept_def Let_def hdr_def whole_def
      by (auto simp: ihl_def [symmetric] total_def [symmetric])
    then show ?thesis using no view by (auto simp: intercept_spec_def)
  qed
qed



end
