(* ===== verification/TxBurst.thy ===== *)
theory TxBurst
  imports TxSafety
begin

text \<open>
  The burst of \<^verbatim>\<open>emaczero_profile_send_raw_frame_burst\<close>: what it queues, and two
  consequences of how it does so. All descriptors of a burst point at the buffer of the
  first one, so a packet sent before they have all completed overwrites frames that are
  still to be transmitted; and, unlike \<^verbatim>\<open>emz_tx_direct_reserve\<close>, it does not test for a
  ring that was never allocated.
\<close>

lemma burst_step_dat:
  assumes "tx_inv (dat s)"
  shows "\<exists>s'. tx_burst_loop c bytes len (Suc n) prev s =
      tx_burst_loop c bytes len n (tx_populated_buffer_index (dat s)) s' \<and>
    dat s' = d_tx_push (bytes, tx_control len) (dat s)"
proof -
  obtain ring where r: "tx_bd_ring (dat s) = Some ring" using assms by (auto simp: tx_inv_def)
  show ?thesis
    unfolding tx_burst_loop.simps r option.case Let_def
    by (intro exI conjI, rule refl) (simp add: r d_tx_push_def Let_def tx_program_def)
qed

lemma burst_loop_pushes:
  assumes "tx_inv (dat s)" and "unat (tx_bd_inflight (dat s)) + n \<le> tx_count"
  shows "\<exists>i s'. tx_burst_loop c bytes len n prev s = Some (i, s') \<and>
    dat s' = fold d_tx_push (replicate n (bytes, tx_control len)) (dat s)"
  using assms
proof (induction n arbitrary: s prev)
  case 0
  then show ?case by simp
next
  case (Suc n)
  obtain s1 where s1: "tx_burst_loop c bytes len (Suc n) prev s =
      tx_burst_loop c bytes len n (tx_populated_buffer_index (dat s)) s1"
    and d1: "dat s1 = d_tx_push (bytes, tx_control len) (dat s)"
    using burst_step_dat [OF Suc(2)] by blast
  have room: "unat (tx_bd_inflight (dat s)) < tx_count" using Suc(3) by simp
  have "length (tx_items (dat s1)) = unat (tx_bd_inflight (dat s)) + 1"
    unfolding d1 using d_tx_push_inv(2) [OF Suc(2) room] by simp
  then have "unat (tx_bd_inflight (dat s1)) + n \<le> tx_count" using Suc(3) by simp
  moreover have "tx_inv (dat s1)" unfolding d1 by (rule d_tx_push_inv(1) [OF Suc(2) room])
  ultimately show ?case using Suc(1) [of s1] s1 d1 by fastforce
qed

lemma burst_waits:
  "tx_burst_loop c bytes len n prev s = Some (i, s') \<Longrightarrow> waits s' = waits s"
proof (induction n arbitrary: prev s)
  case (Suc n)
  then show ?case
    by (auto simp: Let_def waits_def cache_ev_count split: option.splits)
qed simp

lemma note_perf_waits: "note_perf f s = Some s' \<Longrightarrow> waits s' = waits s"
  by (auto simp: note_perf_def waits_def)

text \<open>The burst once the ring has drained: nothing more can go wrong.\<close>

lemma burst_on_idle_ring:
  assumes direct: "emz_rx_direct_enabled c" and inv1: "tx_inv (dat s1)" and bufs1: "tx_bufs_ok c (dat s1)"
    and idle: "tx_bd_inflight (dat s1) = 0" and len: "\<not> bad_tx_len c (length frame)" and count: "0 < count"
    and w: "tx_wait_loop c 10000 (\<lambda>d. tx_bd_inflight d \<noteq> 0) 0 (snd (emz_tx_direct_reclaim c s)) = (True, s1)"
  defines "first \<equiv> tx_populated_buffer_index (dat s1)" and "n \<equiv> min count tx_count"
  shows "\<exists>s'. emaczero_profile_send_raw_frame_burst c frame count s = Some (int n, s') \<and> tx_inv (dat s') \<and>
    waits s' = waits s1 \<and>
    tx_items (dat s') = replicate n (txb_addr (tx_buffer (dat s') ! first), tx_control (length frame)) \<and>
    take (length frame) (txb_bytes (tx_buffer (dat s') ! first)) = frame"
proof -
  let ?len = "length frame"
  have len': "?len \<le> net_eth_max_frame_size (kc c)" using len by (simp add: bad_tx_len_def)
  have first: "first < 32" using populated_less [OF inv1] by (simp add: first_def)
  note put = put_tx_bytes_ok [OF bufs1 first len']
  define s2 where "s2 = upd_dat (put_tx_bytes first frame) s1"
  define buf where "buf = tx_buffer (dat s2) ! first"
  define s3 where "s3 = upd_perf (set32 Tx_last_len (of_nat ?len))
    (emz_dma_cache_flush c (txb_addr buf) (of_nat ?len) s2)"
  have l3: "?len \<le> length (txb_bytes buf)" using put(3) len' by (simp add: buf_def s2_def)
  obtain s4 where s4: "note_perf (note_tx_words (txb_bytes buf) ?len) s3 = Some s4" "dat s4 = dat s3"
    using note_words_Some(1) [OF l3] by blast
  have d4: "dat s4 = put_tx_bytes first frame (dat s1)" using s4(2) by (simp add: s3_def s2_def)
  have inv4: "tx_inv (dat s4)" and n: "unat (tx_bd_inflight (dat s4)) + n \<le> tx_count"
    and items4: "tx_items (dat s4) = []"
    using inv1 idle by (simp_all add: d4 n_def put_tx_bytes_def tx_inv_def tx_items_def)
  obtain i s5 where s5: "tx_burst_loop c (txb_addr buf) ?len n first s4 = Some (i, s5)"
    and d5: "dat s5 = fold d_tx_push (replicate n (txb_addr buf, tx_control ?len)) (dat s4)"
    using burst_loop_pushes [OF inv4 n] by blast
  have "length (tx_items (dat s4)) + length (replicate n (txb_addr buf, tx_control ?len)) \<le> tx_count"
    using n by simp
  note fin = tx_ring.push_pushes [OF inv4 this, folded d5]
  have keep: "tx_buffer (fold d_tx_push xs d) = tx_buffer d" for xs d
    by (induction xs arbitrary: d) (simp_all add: d_tx_push_def Let_def)
  have buf5: "tx_buffer (dat s5) = tx_buffer (dat s2)" unfolding d5 keep d4 by (simp add: s2_def)
  define s6 where "s6 = set_last_ret 0 (upd_perf (add64 Tx_dma_start_ok (of_nat n))
    (upd_perf (add64 Tx_setup_calls (of_nat n)) (upd_perf (add64 Tx_send_calls (of_nat n))
      (emz_dma_write c EMZ_AXI_DMA_REG_MM2S_TAILDESC (tx_bd_addr (dat (emit Dmem_fence s5)) i)
        (emit Dmem_fence s5)))))"
  have buf: "tx_buffer (put_tx_bytes first frame (dat s1)) ! first = buf"
    by (simp add: buf_def s2_def)
  have run: "emaczero_profile_send_raw_frame_burst c frame count s = Some (int n, s6)"
    using w direct len count s4(1) s5
    unfolding emaczero_profile_send_raw_frame_burst_def Let_def
    by (simp add: s2_def [symmetric] buf s3_def [symmetric] n_def [symmetric] first_def [symmetric] s6_def
        del: tx_count_val)
  have d6: "dat s6 = dat s5" by (simp add: s6_def set_last_ret_def emz_dma_write_def)
  have "waits s6 = waits s1"
    using burst_waits [OF s5] note_perf_waits [OF s4(1)]
    by (simp add: s6_def set_last_ret_def emz_dma_write_def waits_def s3_def s2_def cache_ev_count)
  moreover have "take ?len (txb_bytes (tx_buffer (dat s6) ! first)) = frame"
    using put(2) buf5 d6 by (simp add: s2_def)
  moreover have "txb_addr buf = txb_addr (tx_buffer (dat s6) ! first)"
    using buf5 d6 by (simp add: buf_def)
  ultimately show ?thesis using run fin items4 d6 by simp
qed

lemma burst_ok:
  assumes direct: "emz_rx_direct_enabled c" and eng: "engine_ok c"
    and inv: "tx_inv (dat s)" and bufs: "tx_bufs_ok c (dat s)"
    and len: "\<not> bad_tx_len c (length frame)" and count: "0 < count"
  defines "first \<equiv> tx_populated_buffer_index (dat s)" and "n \<equiv> min count tx_count"
  shows "\<exists>ret s'. emaczero_profile_send_raw_frame_burst c frame count s = Some (ret, s') \<and> tx_inv (dat s') \<and>
    waits s' \<le> waits s + 10000 \<and>
    (ret = - ENOSPC \<or>
     ret = int n \<and>
     tx_items (dat s') = replicate n (txb_addr (tx_buffer (dat s') ! first), tx_control (length frame)) \<and>
     take (length frame) (txb_bytes (tx_buffer (dat s') ! first)) = frame)"
proof -
  let ?len = "length frame" and ?busy = "\<lambda>d. tx_bd_inflight d \<noteq> 0"
  let ?s0 = "snd (emz_tx_direct_reclaim c s)"
  obtain ok s1 where w: "tx_wait_loop c 10000 ?busy 0 ?s0 = (ok, s1)"
    by (cases "tx_wait_loop c 10000 ?busy 0 ?s0")
  have sh0: "tx_shrunk s ?s0" by (rule reclaim_shrunk [OF inv])
  then have inv0: "tx_inv (dat ?s0)" by (simp add: tx_shrunk_def)
  note l = wait_loop_shrunk [OF eng inv0 w]
  have sh: "tx_shrunk s s1" using tx_shrunk_trans [OF sh0] l by blast
  then have inv1: "tx_inv (dat s1)" and buf1: "tx_buffer (dat s1) = tx_buffer (dat s)"
    and i1: "tx_populated_buffer_index (dat s1) = first"
    by (simp_all add: tx_shrunk_def first_def)
  have waits1: "waits s1 \<le> waits s + 10000"
    using wait_loop_waits [of c 10000 ?busy 0 ?s0] w by (simp add: reclaim_waits)
  show ?thesis
  proof (cases ok)
    case False
    then show ?thesis
      using w waits1 inv1 direct len count
      by (simp add: emaczero_profile_send_raw_frame_burst_def Let_def set_last_ret_def waits_def)
  next
    case True
    have idle: "tx_bd_inflight (dat s1) = 0" using l True by simp
    have bufs1: "tx_bufs_ok c (dat s1)" using bufs buf1 by (simp add: tx_bufs_ok_def)
    show ?thesis
      using burst_on_idle_ring [OF direct inv1 bufs1 idle len count w [unfolded eqTrueI [OF True]]]
        waits1 i1 by (auto simp: n_def)
  qed
qed


section \<open>Two defects\<close>


text \<open>
  On a device whose initialisation stopped before the TX ring was allocated, sending a
  packet answers \<open>-ENODEV\<close>, while the burst, which does not test for the missing ring,
  writes through a \<^verbatim>\<open>NULL\<close> pointer.
\<close>
theorem burst_writes_through_null:
  assumes direct: "emz_rx_direct_enabled c" and null: "tx_bd_ring (dat s) = None"
    and idle: "tx_bd_inflight (dat s) = 0" and bufs: "tx_bufs_ok c (dat s)"
    and index: "tx_populated_buffer_index (dat s) < tx_count"
    and len: "\<not> bad_tx_len c (length frame)" and count: "0 < count"
  shows "emaczero_profile_send_raw_frame_burst c frame count s = None
    \<and> (\<exists>s'. emz_send c frame s = Some (- ENODEV, s'))"
proof
  let ?s0 = "snd (emz_tx_direct_reclaim c s)"
  have d0: "dat ?s0 = dat s"
    by (simp add: emz_tx_direct_reclaim_def tx_reclaim_loop.simps [of c 0 s] idle emz_dma_write_def)
  have w: "tx_wait_loop c 10000 (\<lambda>d. tx_bd_inflight d \<noteq> 0) 0 ?s0 = (True, ?s0)"
    by (simp add: tx_wait_loop.simps [of c 10000 _ 0 ?s0] d0 idle)
  obtain n where n: "min count tx_count = Suc n"
    using count by (cases "min count tx_count") (auto simp: min_def split: if_splits)
  have "tx_burst_loop c bytes l (Suc n) i s' = None" if "tx_bd_ring (dat s') = None" for bytes l i s'
    using that by simp
  moreover have "tx_bd_ring (dat s') = None" if "note_perf f x = Some s'" "tx_bd_ring (dat x) = None" for f x s'
    using that by (auto simp: note_perf_def)
  ultimately show "emaczero_profile_send_raw_frame_burst c frame count s = None"
    using direct len count w d0 null n
    by (auto simp: emaczero_profile_send_raw_frame_burst_def Let_def put_tx_bytes_def
        simp del: tx_burst_loop.simps split: Option.bind_splits)
  show "\<exists>s'. emz_send c frame s = Some (- ENODEV, s')"
    using len null
    by (simp add: emz_send_def Let_def tx_descriptor_def direct emz_tx_direct_reserve_def)
qed

section \<open>Concrete runs\<close>

text \<open>
  What is left of a burst of 32 when the engine has completed the first descriptor and it
  has been reclaimed: 31 descriptors, all on the buffer of slot 0, which is next.
\<close>

definition burst_left :: emz where
  "burst_left = demo_tx\<lparr>dat := demo_tx_data
     \<lparr>tx_bd_ring := Some (replicate 32 (tx_program 0x9f000000 60 bd_zero)),
      tx_completed_buffer_index := 1, tx_bd_inflight := 31\<rparr>\<rparr>"

lemma reclaim_nothing:
  assumes "tx_bd_ring (dat s) = Some ring" and "\<not> bd_done (bd_status (ring ! tx_completed_buffer_index (dat s)))"
  shows "dat (snd (emz_tx_direct_reclaim c s)) = dat s"
  using assms by (simp add: emz_tx_direct_reclaim_def tx_reclaim_loop.simps [of c 0 s] emz_dma_write_def)

lemma burst_left_ok:
  "tx_inv (dat burst_left)" "tx_bufs_ok quiet_ctx (dat burst_left)" "\<not> tx_full (dat burst_left)"
  "tx_populated_buffer_index (dat burst_left) = 0"
  "tx_items (dat burst_left) = replicate 31 (0x9f000000, tx_control 60)"
  "txb_addr (tx_buffer (dat burst_left) ! 0) = 0x9f000000"
proof -
  show "tx_inv (dat burst_left)" "tx_bufs_ok quiet_ctx (dat burst_left)" "\<not> tx_full (dat burst_left)"
    "tx_populated_buffer_index (dat burst_left) = 0"
    "txb_addr (tx_buffer (dat burst_left) ! 0) = 0x9f000000"
    by (simp_all add: burst_left_def demo_tx_data_def data_zero_def tx_inv_def tx_bufs_ok_def tx_full_def
        del: upt_Suc)
  show "tx_items (dat burst_left) = replicate 31 (0x9f000000, tx_control 60)"
    by (simp add: burst_left_def demo_tx_data_def data_zero_def tx_items_def window_def comp_def
        tx_program_def map_replicate_const del: upt_Suc)
qed

lemma burst_left_send:
  "\<exists>s'. emz_send quiet_ctx [1, 2, 3] burst_left = Some (0, s') \<and> length (tx_items (dat s')) = 32"
proof -
  let ?s1 = "upd_perf (set32 Tx_last_len (of_nat (length [1, 2, 3 :: u8])))
    (upd_perf (inc64 Tx_send_calls) burst_left)"
  let ?s2 = "snd (emz_tx_direct_reclaim quiet_ctx ?s1)"
  have ring: "tx_bd_ring (dat ?s1) = Some (replicate 32 (tx_program 0x9f000000 60 bd_zero))"
    and head: "tx_completed_buffer_index (dat ?s1) = 1"
    by (simp_all add: burst_left_def)
  have "\<not> bd_done (bd_status (replicate 32 (tx_program 0x9f000000 60 bd_zero) !
      tx_completed_buffer_index (dat ?s1)))"
    unfolding head by (simp add: tx_program_def)
  then have d2: "dat ?s2 = dat burst_left" using reclaim_nothing [OF ring] by simp
  have "\<not> tx_full (dat ?s2)" using burst_left_ok(3) d2 by simp
  then have w: "tx_wait_loop quiet_ctx 2000 tx_full 0 ?s2 = (True, ?s2)"
    by (subst tx_wait_loop.simps) simp
  have res: "emz_tx_direct_reserve quiet_ctx ?s1 = (Inr (tx_populated_buffer_index (dat ?s2)), ?s2)"
    unfolding emz_tx_direct_reserve_def w using ring by simp
  have "\<not> bad_tx_len quiet_ctx (length [1, 2, 3 :: u8])" by (simp add: bad_tx_len_def)
  from send_after_reserve [OF demo_tx_ok(1) this _ _ _ res quiet_answers(1), unfolded d2,
      OF burst_left_ok(1-3)]
  obtain s' where run: "emz_send quiet_ctx [1, 2, 3] burst_left = Some (0, s')"
    and "length (tx_items (dat s')) = length (tx_items (dat burst_left)) + 1" by fastforce
  then have "length (tx_items (dat s')) = 32" by (simp only: burst_left_ok(5) length_replicate)
  with run show ?thesis by blast
qed



theorem burst_writes_through_null_witness:
  "emaczero_profile_send_raw_frame_burst quiet_ctx [1, 2, 3] 1 (emz_zero tiny_kconfig) = None"
proof -
  have z: "tx_bd_ring (dat (emz_zero tiny_kconfig)) = None" "tx_bd_inflight (dat (emz_zero tiny_kconfig)) = 0"
    "tx_bufs_ok quiet_ctx (dat (emz_zero tiny_kconfig))"
    "tx_populated_buffer_index (dat (emz_zero tiny_kconfig)) < tx_count"
    by (simp_all add: emz_zero_def data_zero_def tx_bufs_ok_def tx_buffer_zero_def)
  have "\<not> bad_tx_len quiet_ctx (length [1, 2, 3 :: u8])" by (simp add: bad_tx_len_def)
  from burst_writes_through_null [OF demo_tx_ok(1) z this, of 1] show ?thesis by simp
qed

end
