(* ===== verification/TxBench.thy ===== *)
theory TxBench
  imports AppText UdpSink TxBurst
begin

text \<open>
  The transmit benchmark of \<^verbatim>\<open>app/src/main.c\<close>: its command line, the parameters it settles on,
  the UDP frame it builds in a static buffer, and the loop that hands the frame to the
  driver's burst until the time is over. The station's addresses come in as the answers of
  the ARP table, the interface and the provisioning module. An access outside a static buffer
  is \<open>None\<close>.
\<close>

section \<open>Parameters\<close>

definition TX_BENCH_PORT :: u32 where "TX_BENCH_PORT = 5003"
definition TX_BENCH_MAX_PAYLOAD :: u32 where "TX_BENCH_MAX_PAYLOAD = 1472"
definition TX_BENCH_FRAME_MAX :: nat where "TX_BENCH_FRAME_MAX = 14 + 20 + 8 + 1472"
definition TX_BENCH_BURST_COUNT :: nat where "TX_BENCH_BURST_COUNT = 32"
definition TX_BENCH_DEFAULT_DURATION_MS :: u32 where "TX_BENCH_DEFAULT_DURATION_MS = 5000"
definition TX_BENCH_MAX_DURATION_MS :: u32 where "TX_BENCH_MAX_DURATION_MS = 30000"
definition TX_BENCH_MAX_DELAY_US :: u64 where "TX_BENCH_MAX_DELAY_US = 1000000"
definition TX_BENCH_DEFAULT_PAYLOAD :: u32 where "TX_BENCH_DEFAULT_PAYLOAD = 1472"

record bench_args =
  duration_ms :: u32
  payload_len :: u32
  rate_mbps_x1000 :: u32
  bench_port :: u32

definition bench_defaults :: bench_args where
  "bench_defaults = \<lparr>duration_ms = TX_BENCH_DEFAULT_DURATION_MS, payload_len = TX_BENCH_DEFAULT_PAYLOAD,
     rate_mbps_x1000 = 0, bench_port = TX_BENCH_PORT\<rparr>"

text \<open>Four numbers, each read only when those before it could be.\<close>

definition parse_bench_args :: "string option \<Rightarrow> bench_args" where
  "parse_bench_args args =
     (let b = bench_defaults
      in case args of
        None \<Rightarrow> b
      | Some cursor \<Rightarrow>
          case parse_u32_arg cursor of
            None \<Rightarrow> b
          | Some (v, cursor) \<Rightarrow>
              let b = b\<lparr>duration_ms := v\<rparr>
              in case parse_u32_arg cursor of
                None \<Rightarrow> b
              | Some (v, cursor) \<Rightarrow>
                  let b = b\<lparr>payload_len := v\<rparr>
                  in case parse_u32_arg cursor of
                    None \<Rightarrow> b
                  | Some (v, cursor) \<Rightarrow>
                      let b = b\<lparr>rate_mbps_x1000 := v\<rparr>
                      in case parse_u32_arg cursor of
                        None \<Rightarrow> b
                      | Some (v, cursor) \<Rightarrow> b\<lparr>bench_port := v\<rparr>)"

definition clamp_bench_args :: "bench_args \<Rightarrow> bench_args" where
  "clamp_bench_args b =
     (let b = (if duration_ms b = 0 then b\<lparr>duration_ms := TX_BENCH_DEFAULT_DURATION_MS\<rparr>
               else if TX_BENCH_MAX_DURATION_MS < duration_ms b then b\<lparr>duration_ms := TX_BENCH_MAX_DURATION_MS\<rparr>
               else b);
          b = (if payload_len b = 0 \<or> TX_BENCH_MAX_PAYLOAD < payload_len b
               then b\<lparr>payload_len := TX_BENCH_DEFAULT_PAYLOAD\<rparr> else b)
      in if bench_port b = 0 \<or> 65535 < bench_port b then b\<lparr>bench_port := TX_BENCH_PORT\<rparr> else b)"

definition bench_delay_us :: "bench_args \<Rightarrow> u32" where
  "bench_delay_us b =
     (if rate_mbps_x1000 b = 0 then 0
      else
        let bits_per_packet = (ucast (payload_len b) :: u64) * 8;
            bits_per_sec = (ucast (rate_mbps_x1000 b) :: u64) * 1000;
            delay = (bits_per_packet * 1000000) div bits_per_sec;
            delay_us = ucast (min delay TX_BENCH_MAX_DELAY_US) :: u32
        in if delay_us = 0 then 1 else delay_us)"

definition bench_duration_cycles :: "u32 \<Rightarrow> bench_args \<Rightarrow> u32" where
  "bench_duration_cycles hz b = ucast (((ucast (duration_ms b) :: u64) * ucast hz) div 1000)"

text \<open>What the parameters are after the clamping.\<close>

lemma bench_args_bounds:
  "1 \<le> duration_ms (clamp_bench_args b)" "duration_ms (clamp_bench_args b) \<le> 30000"
  "1 \<le> payload_len (clamp_bench_args b)" "payload_len (clamp_bench_args b) \<le> 1472"
  "1 \<le> bench_port (clamp_bench_args b)" "bench_port (clamp_bench_args b) \<le> 65535"
  by (auto simp: clamp_bench_args_def Let_def TX_BENCH_DEFAULT_DURATION_MS_def TX_BENCH_MAX_DURATION_MS_def
      TX_BENCH_MAX_PAYLOAD_def TX_BENCH_DEFAULT_PAYLOAD_def TX_BENCH_PORT_def not_less word_le_nat_alt
      word_less_nat_alt word_unat_eq_iff)

section \<open>The frame\<close>

text \<open>The entries of the ARP table, in the order \<^verbatim>\<open>net_arp_foreach\<close> visits them.\<close>

record arp_lookup_ctx =
  arp_ip :: "u8 list"
  arp_mac :: "u8 list"
  arp_found :: bool

definition arp_lookup_cb :: "u8 list \<times> u8 list \<Rightarrow> arp_lookup_ctx \<Rightarrow> arp_lookup_ctx" where
  "arp_lookup_cb entry ctx =
     (if \<not> arp_found ctx \<and> fst entry = arp_ip ctx then ctx\<lparr>arp_mac := snd entry, arp_found := True\<rparr> else ctx)"

record bench_net =
  arp_table :: "(u8 list \<times> u8 list) list"
  link_addr :: "u8 list option"
  local_ip :: "u8 list option"

record bench_bufs =
  bench_frame :: "u8 list"
  bench_payload :: "u8 list"
  bench_ip_id :: u16

definition put_be16 :: "nat \<Rightarrow> u16 \<Rightarrow> u8 list \<Rightarrow> u8 list" where
  "put_be16 off v dst = (dst[off := ucast (drop_bit 8 v)])[off + 1 := ucast v]"

fun header_sum :: "u8 list \<Rightarrow> nat \<Rightarrow> nat \<Rightarrow> u32 \<Rightarrow> u32 option" where
  "header_sum hdr i 0 acc = Some acc"
| "header_sum hdr i (Suc n) acc = do {
     hi \<leftarrow> rd8 hdr i;
     lo \<leftarrow> rd8 hdr (i + 1);
     header_sum hdr (i + 2) n (acc + ucast (of_be16 hi lo))
   }"

definition ipv4_header_checksum :: "u8 list \<Rightarrow> u16 option" where
  "ipv4_header_checksum hdr = map_option (\<lambda>acc. NOT (ucast (fold_carry acc))) (header_sum hdr 0 10 0)"

definition PROFILE_PORT :: u16 where "PROFILE_PORT = 5002"

text \<open>The answer 0 means that no frame was built. The frame buffer keeps what it held before.\<close>

definition build_tx_bench_frame ::
  "bench_net \<Rightarrow> u8 list \<Rightarrow> u32 \<Rightarrow> u32 \<Rightarrow> bench_bufs \<Rightarrow> (nat \<times> bench_bufs) option" where
  "build_tx_bench_frame net dst_ip plen dst_port b =
     (let ip_len = ucast (20 + 8 + plen) :: u16;
          udp_len = ucast (8 + plen) :: u16;
          arp = foldl (\<lambda>ctx entry. arp_lookup_cb entry ctx)
            \<lparr>arp_ip = dst_ip, arp_mac = replicate 6 0, arp_found = False\<rparr> (arp_table net)
      in case (link_addr net, local_ip net) of
           (Some link, Some local) \<Rightarrow>
             if \<not> arp_found arp \<or> length link \<noteq> 6 then Some (0, b)
             else do {
               let frame = blit (bench_frame b) 0 (arp_mac arp);
               let frame = blit frame 6 link;
               let frame = put_be16 12 0x0800 frame;
               let frame = frame[14 + 0 := 0x45];
               let frame = frame[14 + 1 := 0];
               let frame = put_be16 (14 + 2) ip_len frame;
               let frame = put_be16 (14 + 4) (bench_ip_id b) frame;
               let frame = put_be16 (14 + 6) 0 frame;
               let frame = frame[14 + 8 := 64];
               let frame = frame[14 + 9 := 17];
               let frame = put_be16 (14 + 10) 0 frame;
               let frame = blit frame (14 + 12) local;
               let frame = blit frame (14 + 16) dst_ip;
               checksum \<leftarrow> ipv4_header_checksum (drop 14 frame);
               let frame = put_be16 (14 + 10) checksum frame;
               let frame = put_be16 (34 + 0) PROFILE_PORT frame;
               let frame = put_be16 (34 + 2) (ucast dst_port) frame;
               let frame = put_be16 (34 + 4) udp_len frame;
               let frame = put_be16 (34 + 6) 0 frame;
               if length (bench_payload b) < unat plen \<or> length frame < 42 + unat plen then None
               else Some (14 + unat ip_len,
                 b\<lparr>bench_frame := blit frame (34 + 8) (take (unat plen) (bench_payload b)),
                   bench_ip_id := bench_ip_id b + 1\<rparr>)
             }
         | _ \<Rightarrow> Some (0, b))"

lemma header_sum_eq:
  "i + 2 * n \<le> length hdr \<Longrightarrow> header_sum hdr i n acc = sum_be16 (take (2 * n) (drop i hdr)) acc"
proof (induction n arbitrary: i acc)
  case (Suc n)
  have "drop i hdr = hdr ! i # hdr ! (i + 1) # drop (i + 2) hdr"
    using Suc.prems Cons_nth_drop_Suc [of i hdr] Cons_nth_drop_Suc [of "Suc i" hdr] by simp
  with Suc show ?case by simp
qed simp

lemma header_checksum_eq: "20 \<le> length hdr \<Longrightarrow> ipv4_header_checksum hdr = ipv4_checksum (take 20 hdr)"
  using header_sum_eq [of 0 10 hdr 0] by (simp add: ipv4_header_checksum_def ipv4_checksum_def)

text \<open>A prefix written over an old buffer.\<close>

definition over :: "u8 list \<Rightarrow> u8 list \<Rightarrow> u8 list" where
  "over old xs = xs @ drop (length xs) old"

lemma over_nil: "over old [] = old"
  by (simp add: over_def)

lemma length_over: "length xs \<le> length old \<Longrightarrow> length (over old xs) = length old"
  by (simp add: over_def)

lemma blit_over: "length xs = off \<Longrightarrow> blit (over old xs) off zs = over old (xs @ zs)"
  by (simp add: blit_def over_def add.commute)

lemma update_over: "length xs = off \<Longrightarrow> off < length old \<Longrightarrow> (over old xs)[off := v] = over old (xs @ [v])"
  by (simp add: over_def list_update_append Cons_nth_drop_Suc [symmetric])

lemma put_be16_over: "length xs = off \<Longrightarrow> off + 1 < length old \<Longrightarrow> put_be16 off v (over old xs) = over old (xs @ be16 v)"
  by (simp add: put_be16_def update_over be16_def)

lemma put_be16_blit: "off + 1 < length xs \<Longrightarrow> put_be16 off v xs = blit xs off (be16 v)"
  by (rule nth_equalityI) (auto simp: put_be16_def be16_def nth_blit nth_list_update less_Suc_eq)

lemma put_be16_inside: "off + 1 < length xs \<Longrightarrow> put_be16 off v (over old xs) = over old (put_be16 off v xs)"
  by (simp add: put_be16_def over_def list_update_append)

text \<open>The first matching entry is the one that counts.\<close>

lemma arp_lookup:
  "foldl (\<lambda>ctx entry. arp_lookup_cb entry ctx) \<lparr>arp_ip = ip, arp_mac = m, arp_found = f\<rparr> table =
     (if f then \<lparr>arp_ip = ip, arp_mac = m, arp_found = True\<rparr>
      else case map_of table ip of
        None \<Rightarrow> \<lparr>arp_ip = ip, arp_mac = m, arp_found = False\<rparr>
      | Some m' \<Rightarrow> \<lparr>arp_ip = ip, arp_mac = m', arp_found = True\<rparr>)"
  by (induction table arbitrary: m f) (auto simp: arp_lookup_cb_def)

definition bench_sizes :: "bench_bufs \<Rightarrow> bool" where
  "bench_sizes b \<longleftrightarrow> length (bench_frame b) = TX_BENCH_FRAME_MAX \<and> length (bench_payload b) = 1472"

definition bench_header :: "u8 list \<Rightarrow> u8 list \<Rightarrow> u32 \<Rightarrow> u16 \<Rightarrow> u16 \<Rightarrow> u8 list" where
  "bench_header src dst plen ident ck =
     [0x45, 0] @ be16 (ucast (28 + plen)) @ be16 ident @ [0, 0, 64, 17] @ be16 ck @ src @ dst"

lemma bench_header_sum:
  assumes "length src = 4" and "length dst = 4"
  shows "\<exists>ck. ipv4_checksum (bench_header src dst plen ident 0) = Some ck \<and>
    ipv4_checksum (bench_header src dst plen ident ck) = Some 0"
proof -
  let ?h = "bench_header src dst plen ident"
  have len: "length (?h 0) = 20" "?h 0 ! 10 = 0" "?h 0 ! Suc 10 = 0"
    using assms by (simp_all add: bench_header_def be16_def)
  have "blit (?h 0) 10 (be16 ck) = ?h ck" for ck
    using assms by (simp add: bench_header_def blit_def be16_def)
  then show ?thesis using checksum_verifies [of "?h 0" 10] len by simp
qed

definition bench_bytes :: "u8 list \<Rightarrow> u8 list \<Rightarrow> u8 list \<Rightarrow> u8 list \<Rightarrow> u32 \<Rightarrow> u32 \<Rightarrow> u16 \<Rightarrow> u16 \<Rightarrow> u8 list \<Rightarrow> u8 list" where
  "bench_bytes m link src dst plen port ident ck payload =
     m @ link @ be16 0x0800 @ bench_header src dst plen ident ck @ be16 PROFILE_PORT @ be16 (ucast port) @
     be16 (ucast (8 + plen)) @ [0, 0] @ take (unat plen) payload"

lemma plen_words:
  assumes "unat (plen :: u32) \<le> 1472"
  shows "unat (ucast (28 + plen) :: u16) = 28 + unat plen" "unat (ucast (8 + plen) :: u16) = 8 + unat plen"
  using assms by (simp_all add: unsigned_ucast_eq unat_add_no_wrap take_bit_nat_eq_self)

lemma bench_frame_layout:
  assumes sizes: "bench_sizes b" and plen: "unat plen \<le> 1472"
    and arp: "map_of (arp_table net) dst = Some m" and link: "link_addr net = Some link"
    and src: "local_ip net = Some src"
    and lens: "length m = 6" "length link = 6" "length src = 4" "length dst = 4"
    and ck: "ipv4_checksum (bench_header src dst plen (bench_ip_id b) 0) = Some ck"
  shows "build_tx_bench_frame net dst plen port b = Some (42 + unat plen,
    b\<lparr>bench_frame := over (bench_frame b)
        (bench_bytes m link src dst plen port (bench_ip_id b) ck (bench_payload b)),
      bench_ip_id := bench_ip_id b + 1\<rparr>)"
proof -
  define old where "old = bench_frame b"
  define ip where "ip c = m @ link @ be16 0x0800 @ bench_header src dst plen (bench_ip_id b) c" for c
  have old: "length old = 1514" and pay: "length (bench_payload b) = 1472"
    using sizes by (simp_all add: bench_sizes_def TX_BENCH_FRAME_MAX_def old_def)
  have len: "length (ip c) = 34" for c by (simp add: ip_def bench_header_def lens)
  have hdr: "drop 14 (over old (ip c)) = bench_header src dst plen (bench_ip_id b) c @ drop 34 old" for c
    using lens len [of c] by (simp add: over_def ip_def bench_header_def)
  have "length (bench_header src dst plen (bench_ip_id b) 0) = 20"
    using lens by (simp add: bench_header_def)
  then have sum1: "ipv4_header_checksum (drop 14 (over old (ip 0))) = Some ck"
    using ck by (simp add: hdr header_checksum_eq)
  have patch: "put_be16 24 ck (ip 0) = ip ck"
    by (simp add: put_be16_blit len) (simp add: ip_def bench_header_def blit_def lens be16_def)
  have ipv: "m @ link @ be16 2048 @ [69, 0] @ be16 (ucast (28 + plen)) @ be16 (bench_ip_id b) @ be16 0 @ [64, 17] @
      be16 0 @ src @ dst = ip 0"
    by (simp add: ip_def bench_header_def be16_def)
  note fold_ip = ipv [simplified]
  have end1: "over old (ip ck @ be16 PROFILE_PORT @ be16 (ucast port) @ be16 (ucast (8 + plen)) @ be16 0 @
      take (unat plen) (bench_payload b)) =
      over old (bench_bytes m link src dst plen port (bench_ip_id b) ck (bench_payload b))"
    by (simp add: bench_bytes_def ip_def be16_def)
  have start: "blit old 0 m = over old m" using blit_over [of "[]" 0 old m] by (simp add: over_nil)
  show ?thesis
    unfolding build_tx_bench_frame_def Let_def arp_lookup arp link src old_def [symmetric]
    using plen pay plen_words [OF plen]
    by (simp add: start lens old len blit_over update_over put_be16_over fold_ip sum1 put_be16_inside patch
        length_over end1 add.commute [of plen])
qed

lemma udp_view_bench:
  assumes frame: "frame = bench_bytes m link src dst plen port ident ck payload"
    and plen: "unat plen \<le> 1472" and pay: "length payload = 1472"
    and lens: "length m = 6" "length link = 6" "length src = 4" "length dst = 4"
  shows "length frame = 42 + unat plen" and "take 20 (drop 14 frame) = bench_header src dst plen ident ck"
    and "udp_view frame (42 + unat plen) = Some (ucast port, take (unat plen) payload)"
proof -
  obtain a b c d e f where m: "m = [a, b, c, d, e, f]" using lens(1) by (auto simp: numeral_eq_Suc length_Suc_conv)
  obtain a' b' c' d' e' f' where link: "link = [a', b', c', d', e', f']"
    using lens(2) by (auto simp: numeral_eq_Suc length_Suc_conv)
  obtain s1 s2 s3 s4 where src: "src = [s1, s2, s3, s4]"
    using lens(3) by (auto simp: numeral_eq_Suc length_Suc_conv)
  obtain t1 t2 t3 t4 where dst: "dst = [t1, t2, t3, t4]"
    using lens(4) by (auto simp: numeral_eq_Suc length_Suc_conv)
  note bytes = frame [unfolded bench_bytes_def bench_header_def m link src dst be16_def append_Cons append_Nil]
  show "length frame = 42 + unat plen" using plen pay by (simp add: bytes)
  show "take 20 (drop 14 frame) = bench_header src dst plen ident ck"
    by (simp add: bytes bench_header_def src dst be16_def)
  show "udp_view frame (42 + unat plen) = Some (ucast port, take (unat plen) payload)"
    unfolding udp_view_def Let_def bytes
    using plen_words [OF plen] by (simp add: of_be16_be16) (simp add: of_be16_def)
qed

text \<open>C31: the frame the benchmark builds is what a receiver expects: with the peer in the ARP table,
  a link address and a local address, it is addressed to the peer's MAC address, its IPv4
  header names the two addresses and verifies, and the receive path of this very program reads
  it as one whole UDP datagram to the requested port with the benchmark payload. Building it
  stays inside the static buffers, and the next frame gets the next identification.\<close>

theorem bench_frame_valid:
  assumes sizes: "bench_sizes b" and plen: "unat plen \<le> 1472"
    and arp: "map_of (arp_table net) dst = Some m" and link: "link_addr net = Some link"
    and src: "local_ip net = Some src"
    and lens: "length m = 6" "length link = 6" "length src = 4" "length dst = 4"
  shows "\<exists>b'. build_tx_bench_frame net dst plen port b = Some (42 + unat plen, b') \<and>
    bench_sizes b' \<and> bench_ip_id b' = bench_ip_id b + 1 \<and> bench_payload b' = bench_payload b \<and>
    (let frame = take (42 + unat plen) (bench_frame b')
     in take 12 frame = m @ link \<and> ipv4_header_checksum (drop 14 frame) = Some 0 \<and>
       take 8 (drop 26 frame) = src @ dst \<and>
       udp_view frame (42 + unat plen) = Some (ucast port, take (unat plen) (bench_payload b)))"
proof -
  obtain ck where ck: "ipv4_checksum (bench_header src dst plen (bench_ip_id b) 0) = Some ck"
    "ipv4_checksum (bench_header src dst plen (bench_ip_id b) ck) = Some 0"
    using bench_header_sum [OF lens(3,4)] by blast
  define frame where "frame = bench_bytes m link src dst plen port (bench_ip_id b) ck (bench_payload b)"
  have pay: "length (bench_payload b) = 1472" using sizes by (simp add: bench_sizes_def)
  note view = udp_view_bench [OF frame_def plen pay lens]
  have big: "length frame \<le> length (bench_frame b)"
    using view(1) plen sizes by (simp add: bench_sizes_def TX_BENCH_FRAME_MAX_def)
  have "take (42 + unat plen) (over (bench_frame b) frame) = frame"
    by (simp add: over_def view(1))
  moreover have "ipv4_header_checksum (drop 14 frame) = Some 0"
    using ck(2) view(1,2) by (simp add: header_checksum_eq)
  moreover have "take 12 frame = m @ link" "take 8 (drop 26 frame) = src @ dst"
    using lens by (simp_all add: frame_def bench_bytes_def bench_header_def)
  moreover have "take 12 (over (bench_frame b) frame) = m @ link"
    using lens by (simp add: over_def frame_def bench_bytes_def bench_header_def)
  ultimately show ?thesis
    using bench_frame_layout [OF sizes plen arp link src lens ck(1), of port] view(3) sizes length_over [OF big]
    by (simp add: frame_def [symmetric] bench_sizes_def Let_def)
qed

end
