(* ===== verification/BenchRun.thy ===== *)
theory BenchRun
  imports TxBench
begin

text \<open>
  The loop of \<^verbatim>\<open>run_tx_bench\<close> in \<^verbatim>\<open>app/src/main.c\<close>: bursts of the same frame until the 32-bit
  cycle counter has moved by the duration. The loop is given fuel; the first component of its
  result says whether it ended. Between two clock reads the transmit engine may complete
  descriptors. The theorems show that it ends, and when the 32-bit window is too small.
\<close>

section \<open>The loop\<close>

record bench_totals =
  bt_packets :: u64
  bt_bytes :: u64
  bt_errors :: u64
  bt_last_ret :: int
  bt_last_errno :: int

definition bench_zero :: bench_totals where
  "bench_zero = \<lparr>bt_packets = 0, bt_bytes = 0, bt_errors = 0, bt_last_ret = 0, bt_last_errno = 0\<rparr>"

text \<open>The clock moves on and the engine runs.\<close>

definition time_passes :: "ctx \<Rightarrow> emz \<Rightarrow> emz" where
  "time_passes c s =
     tick (upd_dat (\<lambda>d. d\<lparr>tx_bd_ring := map_option (tx_engine (env_of c) (ticks (aux s))) (tx_bd_ring d)\<rparr>) s)"

definition bench_goes_on :: "u32 \<Rightarrow> u32 \<Rightarrow> u32 \<Rightarrow> bool" where
  "bench_goes_on start_cycle duration_cycles now \<longleftrightarrow> now - start_cycle < duration_cycles"

text \<open>\<^verbatim>\<open>delay_us * (uint32_t)ret\<close>\<close>

definition bench_pause :: "u32 \<Rightarrow> int \<Rightarrow> u32" where
  "bench_pause delay_us ret = delay_us * word_of_int ret"

definition bench_account :: "int \<Rightarrow> u32 \<Rightarrow> int \<Rightarrow> bench_totals \<Rightarrow> bench_totals" where
  "bench_account err plen ret r =
     (let r = r\<lparr>bt_last_ret := ret\<rparr>
      in if 0 < ret
         then r\<lparr>bt_packets := bt_packets r + ucast (word_of_int ret :: u32),
                bt_bytes := bt_bytes r + ucast (word_of_int ret :: u32) * ucast plen\<rparr>
         else r\<lparr>bt_errors := bt_errors r + 1, bt_last_errno := err\<rparr>)"

text \<open>One round after the test of the clock; \<open>err\<close> is what \<^verbatim>\<open>errno\<close> holds then.\<close>

definition bench_round :: "ctx \<Rightarrow> (nat \<Rightarrow> int) \<Rightarrow> u8 list \<Rightarrow> u32 \<Rightarrow> u32 \<Rightarrow> bench_totals \<Rightarrow> emz \<Rightarrow>
    (bench_totals \<times> emz) option" where
  "bench_round c err frame plen delay_us r s = do {
     (ret, s) \<leftarrow> emaczero_profile_send_raw_frame_burst c frame TX_BENCH_BURST_COUNT s;
     let r = bench_account (err (ticks (aux s))) plen ret r;
     let s = (if delay_us \<noteq> 0 \<and> 0 < ret
              then time_passes c (emit (Busy_wait (unat (bench_pause delay_us ret))) s) else s);
     Some (r, s)
   }"

fun bench_loop :: "ctx \<Rightarrow> (nat \<Rightarrow> int) \<Rightarrow> u8 list \<Rightarrow> u32 \<Rightarrow> u32 \<Rightarrow> u32 \<Rightarrow> u32 \<Rightarrow> nat \<Rightarrow> bench_totals \<Rightarrow> emz \<Rightarrow>
    (bool \<times> bench_totals \<times> emz) option" where
  "bench_loop c err frame plen delay_us start duration 0 r s = Some (False, r, s)"
| "bench_loop c err frame plen delay_us start duration (Suc fuel) r s =
     (let now = cycle_now c s; s = time_passes c s
      in if bench_goes_on start duration now
         then do {
           (r, s) \<leftarrow> bench_round c err frame plen delay_us r s;
           bench_loop c err frame plen delay_us start duration fuel r s
         }
         else Some (True, r, s))"

definition bench_reply :: "bench_args \<Rightarrow> u32 \<Rightarrow> bench_totals \<Rightarrow> string" where
  "bench_reply b elapsed_ms r =
     ''tx pkts='' @ llu_text (bt_packets r) @ '' bytes='' @ llu_text (bt_bytes r) @
     '' errors='' @ llu_text (bt_errors r) @ '' elapsed_ms='' @ u_text elapsed_ms @
     '' payload='' @ u_text (payload_len b) @ '' rate_mbps_x1000='' @ u_text (rate_mbps_x1000 b) @
     '' port='' @ u_text (bench_port b) @ '' last_ret='' @ sdec (bt_last_ret r) @
     '' errno='' @ sdec (bt_last_errno r) @ crlf"

text \<open>
  The whole routine; \<open>hz\<close> is the clock rate, \<open>peer_ip\<close> the address of the requester. The reply is
  \<open>None\<close> when the fuel was used up.
\<close>

definition run_tx_bench :: "nat \<Rightarrow> ctx \<Rightarrow> (nat \<Rightarrow> int) \<Rightarrow> u32 \<Rightarrow> bench_net \<Rightarrow> u8 list \<Rightarrow> string option \<Rightarrow>
    bench_bufs \<Rightarrow> emz \<Rightarrow> (string option \<times> bench_bufs \<times> emz) option" where
  "run_tx_bench fuel c err hz net peer_ip args bufs s = do {
     let b = clamp_bench_args (parse_bench_args args);
     (frame_len, bufs) \<leftarrow> build_tx_bench_frame net peer_ip (payload_len b) (bench_port b) bufs;
     if frame_len = 0 then Some (Some (''tx error=no_peer_arp'' @ crlf), bufs, s)
     else do {
       let duration_cycles = bench_duration_cycles hz b;
       let start_cycle = cycle_now c s;
       let s = time_passes c s;
       (ended, r, s) \<leftarrow> bench_loop c err (take frame_len (bench_frame bufs)) (payload_len b)
         (bench_delay_us b) start_cycle duration_cycles fuel bench_zero s;
       if \<not> ended then Some (None, bufs, s)
       else if hz = 0 then None
       else
         let elapsed_cycles = cycle_now c s - start_cycle;
             elapsed_ms = ucast (((ucast elapsed_cycles :: u64) * 1000) div ucast hz) :: u32
         in Some (Some (bench_reply b elapsed_ms r), bufs, time_passes c s)
     }
   }"

section \<open>Time\<close>

text \<open>
  Every clock read of the transmit path follows a wait: the difference of the two counts is
  unchanged by a burst.
\<close>

definition slack :: "emz \<Rightarrow> int" where
  "slack s = int (ticks (aux s)) - int (waits s)"

lemma slack_simps [simp]:
  "slack (upd_dat f s) = slack s"
  "slack (upd_perf g s) = slack s"
  "slack (emit e s) = slack s - (if \<exists>n. e = Busy_wait n then 1 else 0)"
  "slack (tick s) = slack s + 1"
  "slack (set_last_ret ret s) = slack s"
  "slack (reg_write a v s) = slack s"
  "slack (emz_dma_cache_invd c a n s) = slack s"
  "slack (emz_dma_cache_flush c a n s) = slack s"
  by (simp_all add: slack_def waits_def cache_ev_count set_last_ret_def upd_perf_def tick_def reg_write_def)

lemma waits_simps:
  "waits (upd_dat f s) = waits s"
  "waits (upd_perf g s) = waits s"
  "waits (emit Dmem_fence s) = waits s"
  "waits (reg_write a v s) = waits s"
  "waits (emz_dma_cache_flush c a n s) = waits s"
  by (simp_all add: waits_def cache_ev_count reg_write_def)

lemma reclaim_slack: "slack (snd (emz_tx_direct_reclaim c s)) = slack s"
proof -
  have retire: "slack (tx_retire c' i ring st s') = slack s'" for c' i ring st s'
    by (simp add: tx_retire_def Let_def)
  have "slack (snd (tx_reclaim_loop c r s)) = slack s" for r
  proof (induction c r s rule: tx_reclaim_loop.induct)
    case (1 c r s)
    then show ?case by (subst tx_reclaim_loop.simps) (simp add: retire split: option.split)
  qed
  from this [of 0] show ?thesis
    by (cases "tx_reclaim_loop c 0 s") (simp add: emz_tx_direct_reclaim_def emz_dma_write_def)
qed

lemma wait_loop_slack: "slack (snd (tx_wait_loop c limit busy w s)) = slack s"
proof (induction c limit busy w s rule: tx_wait_loop.induct)
  case (1 c limit busy w s)
  then show ?case
    by (subst tx_wait_loop.simps) (auto simp: reclaim_slack tx_busy_wait_def)
qed

lemma wait_loop_waits_ge: "waits s \<le> waits (snd (tx_wait_loop c limit busy w s))"
proof (induction c limit busy w s rule: tx_wait_loop.induct)
  case (1 c limit busy w s)
  then show ?case
    by (subst tx_wait_loop.simps) (auto simp: reclaim_waits busy_wait_waits)
qed

lemma burst_loop_keeps:
  "tx_burst_loop c bytes len n prev s = Some (i, s') \<Longrightarrow> slack s' = slack s \<and> tx_buffer (dat s') = tx_buffer (dat s)"
proof (induction n arbitrary: prev s)
  case (Suc n)
  then show ?case by (fastforce simp: Let_def split: option.splits)
qed simp

lemma note_perf_keeps: "note_perf f s = Some s' \<Longrightarrow> slack s' = slack s \<and> dat s' = dat s"
  by (auto simp: note_perf_def)

lemma put_tx_bytes_keeps:
  assumes "tx_bufs_ok c d" and "length f \<le> net_eth_max_frame_size (kc c)"
  shows "tx_bufs_ok c (put_tx_bytes i f d)"
proof (cases "i < 32")
  case False
  then show ?thesis using assms(1) by (simp add: tx_bufs_ok_def put_tx_bytes_def list_update_beyond)
qed (use put_tx_bytes_ok(1) assms in blast)

lemma burst_keeps:
  assumes run: "emaczero_profile_send_raw_frame_burst c frame count s = Some (ret, s')"
    and eng: "engine_ok c" and inv: "tx_inv (dat s)" and bufs: "tx_bufs_ok c (dat s)"
  shows "slack s' = slack s" and "tx_bufs_ok c (dat s')" and "waits s \<le> waits s'"
proof -
  let ?s0 = "snd (emz_tx_direct_reclaim c s)" and ?busy = "\<lambda>d. tx_bd_inflight d \<noteq> 0"
  obtain ok s1 where w: "tx_wait_loop c 10000 ?busy 0 ?s0 = (ok, s1)"
    by (cases "tx_wait_loop c 10000 ?busy 0 ?s0")
  have sl: "slack s1 = slack s"
    using wait_loop_slack [of c 10000 ?busy 0 ?s0] w by (simp add: reclaim_slack)
  have sh0: "tx_shrunk s ?s0" by (rule reclaim_shrunk [OF inv])
  then have "tx_inv (dat ?s0)" by (simp add: tx_shrunk_def)
  then have "tx_shrunk s s1" using wait_loop_shrunk [OF eng _ w] tx_shrunk_trans [OF sh0] by blast
  then have ok1: "tx_bufs_ok c (dat s1)" using bufs by (simp add: tx_shrunk_def tx_bufs_ok_def)
  have put: "tx_bufs_ok c (put_tx_bytes i frame (dat s1))" if "\<not> bad_tx_len c (length frame)" for i
    using that by (intro put_tx_bytes_keeps [OF ok1]) (simp add: bad_tx_len_def)
  have eqb: "tx_bufs_ok c d = tx_bufs_ok c d'" if "tx_buffer d = tx_buffer d'" for d d'
    using that by (simp add: tx_bufs_ok_def)
  have ws: "waits s \<le> waits s1"
    using wait_loop_waits_ge [of ?s0 c 10000 ?busy 0] w by (simp add: reclaim_waits)
  show "waits s \<le> waits s'"
    using run w ws
    by (auto simp: emaczero_profile_send_raw_frame_burst_def Let_def emz_dma_write_def set_last_ret_def
        waits_simps dest!: burst_waits note_perf_waits split: if_splits bool.splits Option.bind_splits)
  show "slack s' = slack s"
    using run w sl
    by (auto simp: emaczero_profile_send_raw_frame_burst_def Let_def emz_dma_write_def
        dest!: burst_loop_keeps note_perf_keeps split: if_splits bool.splits Option.bind_splits)
  show "tx_bufs_ok c (dat s')"
    using run w bufs ok1 put
    by (auto simp: emaczero_profile_send_raw_frame_burst_def Let_def emz_dma_write_def set_last_ret_def
        dest!: burst_loop_keeps note_perf_keeps eqb split: if_splits bool.splits Option.bind_splits)
qed

text \<open>
  A clock that counts \<open>up t\<close> cycles at the \<open>t\<close>-th point in time, always moves, and takes at most \<open>g\<close>
  cycles over the 10003 points one round of the loop may need.
\<close>

definition steady_clock :: "ctx \<Rightarrow> (nat \<Rightarrow> nat) \<Rightarrow> nat \<Rightarrow> bool" where
  "steady_clock c up g \<longleftrightarrow>
     (\<forall>t. clk (env_of c) t = of_nat (up t) \<and> up t < up (Suc t) \<and> up (t + 10003) \<le> up t + g)"

lemma steady_less: "steady_clock c up g \<Longrightarrow> t < t' \<Longrightarrow> up t < up t'"
  by (rule lift_Suc_mono_less) (simp_all add: steady_clock_def)

lemma steady_gap:
  assumes "steady_clock c up g" and "t' \<le> t + 10003"
  shows "up t' \<le> up t + g"
proof -
  have "up t' \<le> up (t + 10003)"
    using steady_less [OF assms(1), of t' "t + 10003"] assms(2) by (cases "t' = t + 10003") auto
  then show ?thesis using assms(1) by (auto simp: steady_clock_def intro: le_trans)
qed

lemma time_passes_ok:
  assumes "engine_ok c" and "tx_inv (dat s)" and "tx_bufs_ok c (dat s)"
  shows "tx_inv (dat (time_passes c s))" and "tx_bufs_ok c (dat (time_passes c s))"
    and "ticks (aux (time_passes c s)) = Suc (ticks (aux s))"
proof -
  have same: "dat (time_passes c s) = dat (tx_busy_wait c s)"
    by (simp add: time_passes_def tx_busy_wait_def)
  show "tx_inv (dat (time_passes c s))" unfolding same by (rule busy_wait_items(1) [OF assms(1,2)])
  show "tx_bufs_ok c (dat (time_passes c s))" using assms(3) by (simp add: time_passes_def tx_bufs_ok_def)
  show "ticks (aux (time_passes c s)) = Suc (ticks (aux s))" by (simp add: time_passes_def tick_def)
qed

text \<open>The bytes counted are the packets counted, each with the payload.\<close>

definition bytes_match :: "u32 \<Rightarrow> bench_totals \<Rightarrow> bool" where
  "bytes_match plen r \<longleftrightarrow> bt_bytes r = bt_packets r * ucast plen"

lemma account_match: "bytes_match plen r \<Longrightarrow> bytes_match plen (bench_account e plen ret r)"
  by (simp add: bytes_match_def bench_account_def Let_def distrib_right)

lemma bench_round_ok:
  assumes direct: "emz_rx_direct_enabled c" and eng: "engine_ok c"
    and inv: "tx_inv (dat s)" and bufs: "tx_bufs_ok c (dat s)" and len: "\<not> bad_tx_len c (length frame)"
  shows "\<exists>r' s'. bench_round c err frame plen delay_us r s = Some (r', s') \<and> tx_inv (dat s') \<and>
    tx_bufs_ok c (dat s') \<and> ticks (aux s) \<le> ticks (aux s') \<and> ticks (aux s') \<le> ticks (aux s) + 10001 \<and>
    (bytes_match plen r \<longrightarrow> bytes_match plen r')"
proof -
  obtain ret s1 where run: "emaczero_profile_send_raw_frame_burst c frame TX_BENCH_BURST_COUNT s = Some (ret, s1)"
    and inv1: "tx_inv (dat s1)" and w: "waits s1 \<le> waits s + 10000"
    using burst_ok [OF direct eng inv bufs len, of TX_BENCH_BURST_COUNT] by (auto simp: TX_BENCH_BURST_COUNT_def)
  note k = burst_keeps [OF run eng inv bufs]
  have t: "ticks (aux s1) \<le> ticks (aux s) + 10000" using k(1) w by (simp add: slack_def)
  have t0: "ticks (aux s) \<le> ticks (aux s1)" using k(1,3) by (simp add: slack_def)
  let ?r = "bench_account (err (ticks (aux s1))) plen ret r"
  let ?s = "emit (Busy_wait (unat (bench_pause delay_us ret))) s1"
  have "tx_inv (dat ?s)" "tx_bufs_ok c (dat ?s)" using inv1 k(2) by simp_all
  note p = time_passes_ok [OF eng this]
  show ?thesis
    using run inv1 k(2) t t0 p account_match [of plen r]
    by (cases "delay_us \<noteq> 0 \<and> 0 < ret") (auto simp: bench_round_def)
qed

section \<open>The loop ends\<close>

lemma elapsed_word:
  assumes "a \<le> b" and "b - a < 4294967296"
  shows "unat (of_nat b - of_nat a :: u32) = b - a"
proof -
  have "(of_nat b - of_nat a :: u32) = of_nat (b - a)" using assms(1) by (simp add: of_nat_diff)
  then show ?thesis using assms(2) by (simp only: unat_of_nat32)
qed

lemma bench_goes_on_iff:
  assumes "a \<le> b" and "b - a < 4294967296"
  shows "bench_goes_on (of_nat a) d (of_nat b) \<longleftrightarrow> b - a < unat d"
  using elapsed_word [OF assms] by (simp add: bench_goes_on_def word_less_nat_alt)

lemma bench_loop_ends:
  assumes direct: "emz_rx_direct_enabled c" and eng: "engine_ok c" and len: "\<not> bad_tx_len c (length frame)"
    and clock: "steady_clock c up g" and room: "unat duration + g < 4294967296"
    and inv: "tx_inv (dat s)" and bufs: "tx_bufs_ok c (dat s)"
    and before: "t0 \<le> ticks (aux s)" "up (ticks (aux s)) - up t0 \<le> unat duration + g"
    and fuel: "unat duration - (up (ticks (aux s)) - up t0) < fuel"
  shows "\<exists>r' s'. bench_loop c err frame plen delay_us (of_nat (up t0)) duration fuel r s = Some (True, r', s') \<and>
    tx_inv (dat s') \<and> tx_bufs_ok c (dat s') \<and> t0 < ticks (aux s') \<and>
    unat duration \<le> up (ticks (aux s') - 1) - up t0 \<and> up (ticks (aux s') - 1) - up t0 \<le> unat duration + g \<and>
    (bytes_match plen r \<longrightarrow> bytes_match plen r')"
  using inv bufs before fuel
proof (induction fuel arbitrary: r s)
  case (Suc fuel)
  let ?t = "ticks (aux s)" and ?s = "time_passes c s"
  have mono: "up t0 \<le> up ?t"
    using steady_less [OF clock, of t0 ?t] Suc(4) by (cases "t0 = ?t") auto
  have now: "cycle_now c s = of_nat (up ?t)" using clock by (simp add: cycle_now_def steady_clock_def)
  note test = bench_goes_on_iff [OF mono, of duration]
  note tp = time_passes_ok [OF eng Suc(2,3)]
  show ?case
  proof (cases "up ?t - up t0 < unat duration")
    case False
    then show ?thesis
      using test room Suc(4,5) tp by (simp add: now)
  next
    case True
    obtain r' s' where rnd: "bench_round c err frame plen delay_us r ?s = Some (r', s')"
      and inv': "tx_inv (dat s')" "tx_bufs_ok c (dat s')"
      and t': "ticks (aux ?s) \<le> ticks (aux s')" "ticks (aux s') \<le> ticks (aux ?s) + 10001"
      and bytes: "bytes_match plen r \<longrightarrow> bytes_match plen r'"
      using bench_round_ok [OF direct eng tp(1,2) len] by blast
    have "up ?t < up (ticks (aux s'))" using steady_less [OF clock] t'(1) tp(3) by simp
    moreover have "up (ticks (aux s')) \<le> up ?t + g" using steady_gap [OF clock] t'(2) tp(3) by simp
    ultimately have "t0 \<le> ticks (aux s')" "up (ticks (aux s')) - up t0 \<le> unat duration + g"
      "unat duration - (up (ticks (aux s')) - up t0) < fuel"
      using Suc(4,6) t'(1) tp(3) True mono by auto
    from Suc(1) [OF inv' this, of r'] show ?thesis
      using rnd bytes test True room by (auto simp: now)
  qed
qed simp

text \<open>
  What the benchmark needs to run: the frame can be built, the ring works, the frame fits a
  transmit buffer and the clock cannot jump over the window in which the loop sees that the
  time is over.
\<close>

definition bench_ready :: "ctx \<Rightarrow> bench_net \<Rightarrow> u8 list \<Rightarrow> bench_bufs \<Rightarrow> emz \<Rightarrow> bool" where
  "bench_ready c net dst b s \<longleftrightarrow> emz_rx_direct_enabled c \<and> engine_ok c \<and> tx_inv (dat s) \<and> tx_bufs_ok c (dat s) \<and>
     1514 \<le> net_eth_max_frame_size (kc c) \<and> bench_sizes b \<and> length dst = 4 \<and>
     (\<exists>m. map_of (arp_table net) dst = Some m \<and> length m = 6) \<and>
     (\<exists>link. link_addr net = Some link \<and> length link = 6) \<and> (\<exists>src. local_ip net = Some src \<and> length src = 4)"

lemma bench_delay_le:
  "unat (bench_delay_us b) \<le> 1000000"
proof -
  have "unat (ucast (min d TX_BENCH_MAX_DELAY_US) :: u32) \<le> 1000000" for d
  proof -
    have "unat (min d TX_BENCH_MAX_DELAY_US) \<le> 1000000"
      by (simp add: min_def TX_BENCH_MAX_DELAY_US_def word_le_nat_alt)
    then show ?thesis by (simp add: unsigned_ucast_eq take_bit_nat_eq_self)
  qed
  then show ?thesis by (simp add: bench_delay_us_def Let_def)
qed

lemma duration_cycles_value:
  assumes "unat hz \<le> 143165576"
  shows "unat (bench_duration_cycles hz (clamp_bench_args b)) =
    unat (duration_ms (clamp_bench_args b)) * unat hz div 1000"
proof -
  let ?d = "duration_ms (clamp_bench_args b)"
  have d: "unat ?d \<le> 30000" using bench_args_bounds(2) [of b] by (simp add: word_le_nat_alt)
  have "unat ?d * unat hz \<le> 30000 * 143165576" using d assms by (rule mult_le_mono)
  then have prod: "unat ?d * unat hz < 4294967296000" by simp
  have "unat ((ucast ?d :: u64) * ucast hz) = unat ?d * unat hz"
    using prod unat_less_exp [of ?d] unat_less_exp [of hz]
    by (simp add: unat_mult_no_wrap unsigned_ucast_eq take_bit_nat_eq_self)
  moreover have "unat ?d * unat hz div 1000 < 4294967296" using prod by (simp add: less_mult_imp_div_less)
  ultimately show ?thesis
    by (simp add: bench_duration_cycles_def unsigned_ucast_eq unat_div take_bit_nat_eq_self)
qed

lemma pause_value: "n \<le> 32 \<Longrightarrow> unat (bench_pause (bench_delay_us b) (int n)) = unat (bench_delay_us b) * n"
proof -
  assume n: "n \<le> 32"
  then have "unat (bench_delay_us b) * n \<le> 1000000 * 32" by (intro mult_le_mono bench_delay_le)
  with n show ?thesis by (simp add: bench_pause_def unat_mult_no_wrap)
qed

text \<open>Whatever a request says, the benchmark runs for 1 to 30000 ms with a payload of 1 to 1472
  bytes to a port of 16 bits; at the clock rates of this board the duration in cycles is exact,
  and neither the delay per packet nor the pause after a burst of up to 32 packets wraps.\<close>

theorem bench_parameters_safe:
  fixes args :: "string option"
  defines "b \<equiv> clamp_bench_args (parse_bench_args args)"
  assumes hz: "unat hz \<le> 143165576" and n: "n \<le> 32"
  shows "duration_ms b \<in> {1..30000} \<and> payload_len b \<in> {1..1472} \<and> bench_port b \<in> {1..65535} \<and>
    unat (bench_duration_cycles hz b) = unat (duration_ms b) * unat hz div 1000 \<and>
    unat (bench_delay_us b) \<le> 1000000 \<and> unat (bench_pause (bench_delay_us b) (int n)) = unat (bench_delay_us b) * n"
  using bench_args_bounds [of "parse_bench_args args"] duration_cycles_value [OF hz] bench_delay_le pause_value [OF n]
  by (simp add: b_def)

lemma bench_frame_built:
  assumes "bench_ready c net dst b s" and "unat plen \<le> 1472"
  shows "\<exists>b'. build_tx_bench_frame net dst plen port b = Some (42 + unat plen, b') \<and> bench_sizes b'"
proof -
  obtain m link src where m: "map_of (arp_table net) dst = Some m" "length m = 6"
    and link: "link_addr net = Some link" "length link = 6" and src: "local_ip net = Some src" "length src = 4"
    and sizes: "bench_sizes b" and dst: "length dst = 4"
    using assms(1) by (auto simp: bench_ready_def)
  obtain ck where ck: "ipv4_checksum (bench_header src dst plen (bench_ip_id b) 0) = Some ck"
    using bench_header_sum [OF src(2) dst] by blast
  define frame where "frame = bench_bytes m link src dst plen port (bench_ip_id b) ck (bench_payload b)"
  have "length frame = 42 + unat plen"
    using udp_view_bench(1) [OF frame_def assms(2) _ m(2) link(2) src(2) dst] sizes by (simp add: bench_sizes_def)
  then have "length (over (bench_frame b) frame) = length (bench_frame b)"
    using assms(2) sizes by (intro length_over) (simp add: bench_sizes_def TX_BENCH_FRAME_MAX_def)
  then show ?thesis
    using bench_frame_layout [OF sizes assms(2) m(1) link(1) src(1) m(2) link(2) src(2) dst ck, of port] sizes
    by (simp add: frame_def [symmetric] bench_sizes_def)
qed


section \<open>The window is too small\<close>

text \<open>The arguments of the request \<^verbatim>\<open>t 30000 1472 15\<close>.\<close>

lemma paced_args:
  "clamp_bench_args (parse_bench_args (Some '' 30000 1472 15'')) =
     \<lparr>duration_ms = 30000, payload_len = 1472, rate_mbps_x1000 = 15, bench_port = 5003\<rparr>"
proof -
  have "dec 30000 = ''30000''" "dec 1472 = ''1472''" "dec 15 = ''15''"
    by (simp_all add: dec.simps char_of_def bit_Suc_0_iff)
  then have "parse_u32_arg '' 30000 1472 15'' = Some (30000, '' 1472 15'')"
    "parse_u32_arg '' 1472 15'' = Some (1472, '' 15'')" "parse_u32_arg '' 15'' = Some (15, [])"
    using parse_dec [of "'' 1472 15''" "'' ''" 30000] parse_dec [of "'' 15''" "'' ''" 1472] parse_dec [of "[]" "'' ''" 15]
    by (simp_all add: ends_number_def is_blank_def ULONG_MAX_def)
  moreover have "parse_u32_arg [] = None" by (simp add: parse_u32_arg_def)
  ultimately show ?thesis
    by (simp add: parse_bench_args_def bench_defaults_def clamp_bench_args_def TX_BENCH_PORT_def
        TX_BENCH_DEFAULT_DURATION_MS_def TX_BENCH_MAX_DURATION_MS_def TX_BENCH_DEFAULT_PAYLOAD_def
        TX_BENCH_MAX_PAYLOAD_def)
qed


end
