(* ===== verification/Uart.thy ===== *)
theory Uart
  imports AppText ProvCodec
begin

text \<open>
  The UART Lite output of \<^verbatim>\<open>app/src/main.c\<close> (\<^verbatim>\<open>raw_uart_*\<close>), which gives up on a full transmit FIFO
  after a million polls. \<open>status n\<close> is what the \<open>n\<close>-th read of the status register returns.
\<close>

section \<open>Bounded output\<close>

record uart =
  u_reads :: nat
  u_sent :: "u32 list"

definition UARTLITE_STATUS_TX_FULL :: u32 where "UARTLITE_STATUS_TX_FULL = BIT 3"

definition tx_fifo_full :: "(nat \<Rightarrow> u32) \<Rightarrow> uart \<Rightarrow> bool" where
  "tx_fifo_full status u \<longleftrightarrow> status (u_reads u) AND UARTLITE_STATUS_TX_FULL \<noteq> 0"

text \<open>The wait of both routines: \<^verbatim>\<open>timeout-- == 0\<close> is tested after each read that found the FIFO full.\<close>

fun raw_uart_wait :: "(nat \<Rightarrow> u32) \<Rightarrow> nat \<Rightarrow> uart \<Rightarrow> bool \<times> uart" where
  "raw_uart_wait status 0 u = (\<not> tx_fifo_full status u, u\<lparr>u_reads := u_reads u + 1\<rparr>)"
| "raw_uart_wait status (Suc timeout) u =
     (if tx_fifo_full status u then raw_uart_wait status timeout (u\<lparr>u_reads := u_reads u + 1\<rparr>)
      else (True, u\<lparr>u_reads := u_reads u + 1\<rparr>))"

definition raw_uart_send :: "(nat \<Rightarrow> u32) \<Rightarrow> u32 \<Rightarrow> uart \<Rightarrow> bool \<times> uart" where
  "raw_uart_send status v u =
     (case raw_uart_wait status 1000000 u of
        (True, u) \<Rightarrow> (True, u\<lparr>u_sent := u_sent u @ [v]\<rparr>)
      | (False, u) \<Rightarrow> (False, u))"

fun raw_uart_puts :: "bool \<Rightarrow> (nat \<Rightarrow> u32) \<Rightarrow> string \<Rightarrow> uart \<Rightarrow> uart" where
  "raw_uart_puts raw status [] u = u"
| "raw_uart_puts raw status (ch # str) u =
     (if raw then
        (case raw_uart_send status (of_char ch) u of
           (True, u) \<Rightarrow> raw_uart_puts raw status str u
         | (False, u) \<Rightarrow> u)
      else u)"

definition hex_digit :: "u32 \<Rightarrow> u32" where
  "hex_digit nibble = (if nibble < 10 then 48 + nibble else 65 + nibble - 10)"

text \<open>\<open>n\<close> is the number of nibbles still to print: \<^verbatim>\<open>shift\<close> is \<open>4 * (n - 1)\<close>.\<close>

fun raw_uart_hex_loop :: "(nat \<Rightarrow> u32) \<Rightarrow> u32 \<Rightarrow> nat \<Rightarrow> uart \<Rightarrow> uart" where
  "raw_uart_hex_loop status v 0 u = u"
| "raw_uart_hex_loop status v (Suc n) u =
     (case raw_uart_send status (hex_digit (drop_bit (4 * n) v AND 0xf)) u of
        (True, u) \<Rightarrow> raw_uart_hex_loop status v n u
      | (False, u) \<Rightarrow> u)"

definition raw_uart_hex32 :: "bool \<Rightarrow> (nat \<Rightarrow> u32) \<Rightarrow> u32 \<Rightarrow> uart \<Rightarrow> uart" where
  "raw_uart_hex32 raw status v u = (if raw then raw_uart_hex_loop status v 8 u else u)"

definition raw_uart_hex64 :: "bool \<Rightarrow> (nat \<Rightarrow> u32) \<Rightarrow> u64 \<Rightarrow> uart \<Rightarrow> uart" where
  "raw_uart_hex64 raw status v u =
     raw_uart_hex32 raw status (ucast v) (raw_uart_hex32 raw status (ucast (drop_bit 32 v)) u)"

definition raw_uart_kv32 :: "bool \<Rightarrow> (nat \<Rightarrow> u32) \<Rightarrow> string \<Rightarrow> u32 \<Rightarrow> uart \<Rightarrow> uart" where
  "raw_uart_kv32 raw status name v u =
     raw_uart_puts raw status '' '' (raw_uart_hex32 raw status v
       (raw_uart_puts raw status ''=0x'' (raw_uart_puts raw status name u)))"

definition raw_uart_kv64 :: "bool \<Rightarrow> (nat \<Rightarrow> u32) \<Rightarrow> string \<Rightarrow> u64 \<Rightarrow> uart \<Rightarrow> uart" where
  "raw_uart_kv64 raw status name v u =
     raw_uart_puts raw status '' '' (raw_uart_hex64 raw status v
       (raw_uart_puts raw status ''=0x'' (raw_uart_puts raw status name u)))"

text \<open>A register of the MAC, whose value is \<open>v\<close> when it is read.\<close>

definition raw_uart_reg :: "bool \<Rightarrow> (nat \<Rightarrow> u32) \<Rightarrow> string \<Rightarrow> u32 \<Rightarrow> uart \<Rightarrow> uart" where
  "raw_uart_reg raw status name v u =
     raw_uart_puts raw status crlf (raw_uart_hex32 raw status v
       (raw_uart_puts raw status ''=0x'' (raw_uart_puts raw status name u)))"

section \<open>What is sent\<close>

text \<open>
  An attempt to send the values \<open>vs\<close>: what went out is an initial part of them, all of them
  unless the FIFO stayed full, and each cost at most 1000001 reads of the status register.
\<close>

definition sends :: "u32 list \<Rightarrow> uart \<Rightarrow> uart \<Rightarrow> bool" where
  "sends vs u u' \<longleftrightarrow> (\<exists>n \<le> length vs. u_sent u' = u_sent u @ take n vs \<and>
     u_reads u' \<le> u_reads u + 1000001 * length vs)"

text \<open>A UART that accepts a character within a million polls.\<close>

definition responsive :: "(nat \<Rightarrow> u32) \<Rightarrow> bool" where
  "responsive status \<longleftrightarrow> (\<forall>n. \<exists>k \<le> 1000000. status (n + k) AND UARTLITE_STATUS_TX_FULL = 0)"

lemma wait_reads:
  "raw_uart_wait status t u = (ok, u') \<Longrightarrow> u_sent u' = u_sent u \<and> u_reads u' \<le> u_reads u + t + 1"
  by (induction status t u rule: raw_uart_wait.induct) (fastforce split: if_splits)+

lemma wait_succeeds:
  "k \<le> t \<Longrightarrow> status (u_reads u + k) AND UARTLITE_STATUS_TX_FULL = 0 \<Longrightarrow> fst (raw_uart_wait status t u)"
proof (induction t arbitrary: k u)
  case (Suc t)
  show ?case
  proof (cases k)
    case (Suc j)
    with Suc.prems show ?thesis using Suc.IH [of j "u\<lparr>u_reads := u_reads u + 1\<rparr>"] by auto
  qed (use Suc.prems in \<open>simp add: tx_fifo_full_def\<close>)
qed (simp add: tx_fifo_full_def)

lemma send_result:
  assumes "raw_uart_send status v u = (ok, u')"
  shows "u_sent u' = u_sent u @ (if ok then [v] else [])" and "u_reads u' \<le> u_reads u + 1000001"
    and "responsive status \<Longrightarrow> ok"
proof -
  obtain ok1 u1 where w: "raw_uart_wait status 1000000 u = (ok1, u1)"
    by (cases "raw_uart_wait status 1000000 u")
  note r = wait_reads [OF w]
  show "u_sent u' = u_sent u @ (if ok then [v] else [])" "u_reads u' \<le> u_reads u + 1000001"
    using assms w r by (auto simp: raw_uart_send_def split: bool.splits)
  assume "responsive status"
  then obtain k where "k \<le> 1000000" "status (u_reads u + k) AND UARTLITE_STATUS_TX_FULL = 0"
    by (auto simp: responsive_def)
  then have "fst (raw_uart_wait status 1000000 u)" by (rule wait_succeeds)
  then show ok using assms w by (auto simp: raw_uart_send_def split: bool.splits)
qed

lemma sends_Cons:
  assumes "raw_uart_send status v u = (ok, u1)" and "if ok then sends vs u1 u' else u' = u1"
  shows "sends (v # vs) u u'"
proof (cases ok)
  case True
  then obtain n where "n \<le> length vs" "u_sent u' = u_sent u1 @ take n vs"
    "u_reads u' \<le> u_reads u1 + 1000001 * length vs"
    using assms(2) by (auto simp: sends_def)
  then show ?thesis
    using send_result [OF assms(1)] True unfolding sends_def by (intro exI [of _ "Suc n"]) simp
next
  case False
  then show ?thesis
    using assms(2) send_result [OF assms(1)] unfolding sends_def by (intro exI [of _ 0]) simp
qed

lemma puts_sends: "raw = True \<Longrightarrow> sends (map of_char str) u (raw_uart_puts raw status str u)"
proof (induction raw status str u rule: raw_uart_puts.induct)
  case (2 raw status ch str u)
  obtain ok u1 where s: "raw_uart_send status (of_char ch) u = (ok, u1)"
    by (cases "raw_uart_send status (of_char ch) u")
  then have "sends (of_char ch # map of_char str) u (raw_uart_puts raw status (ch # str) u)"
    using 2 by (intro sends_Cons [OF s]) auto
  then show ?case by simp
qed (simp add: sends_def)

definition hex_values :: "u32 \<Rightarrow> nat \<Rightarrow> u32 list" where
  "hex_values v n = map (\<lambda>i. hex_digit (drop_bit (4 * i) v AND 0xf)) (rev [0..<n])"

lemma hex_loop_sends: "sends (hex_values v n) u (raw_uart_hex_loop status v n u)"
proof (induction n arbitrary: u)
  case (Suc n)
  obtain ok u1 where s: "raw_uart_send status (hex_digit (drop_bit (4 * n) v AND 0xf)) u = (ok, u1)"
    by (cases "raw_uart_send status (hex_digit (drop_bit (4 * n) v AND 0xf)) u")
  have "sends (hex_digit (drop_bit (4 * n) v AND 0xf) # hex_values v n) u (raw_uart_hex_loop status v (Suc n) u)"
    using Suc s by (intro sends_Cons [OF s]) auto
  then show ?case by (simp add: hex_values_def)
qed (simp add: sends_def hex_values_def)

lemma puts_responsive:
  "responsive status \<Longrightarrow> u_sent (raw_uart_puts True status str u) = u_sent u @ map of_char str"
proof (induction str arbitrary: u)
  case (Cons ch str)
  obtain ok u1 where s: "raw_uart_send status (of_char ch) u = (ok, u1)"
    by (cases "raw_uart_send status (of_char ch) u")
  then show ?case using Cons send_result [OF s] by simp
qed simp

lemma hex_loop_responsive:
  "responsive status \<Longrightarrow> u_sent (raw_uart_hex_loop status v n u) = u_sent u @ hex_values v n"
proof (induction n arbitrary: u)
  case (Suc n)
  obtain ok u1 where s: "raw_uart_send status (hex_digit (drop_bit (4 * n) v AND 0xf)) u = (ok, u1)"
    by (cases "raw_uart_send status (hex_digit (drop_bit (4 * n) v AND 0xf)) u")
  then show ?case using Suc send_result [OF s] by (simp add: hex_values_def)
qed (simp add: hex_values_def)

section \<open>Numbers read back\<close>

definition hex_text :: "u32 \<Rightarrow> string" where
  "hex_text v = map (\<lambda>w. char_of (unat w)) (hex_values v 8)"

lemma small_nibble:
  assumes "(d :: u32) < 16"
  shows "d \<in> set (map of_nat [0..<16])"
proof -
  have "unat d \<in> set [0..<16]"
    using assms by (simp add: word_less_nat_alt)
  then have "of_nat (unat d) \<in> set (map (of_nat :: nat \<Rightarrow> u32) [0..<16])"
    by (simp only: set_map) (rule imageI)
  then show ?thesis by simp
qed

lemma hex_digit_char:
  assumes "d < 16"
  shows "digit_value (char_of (unat (hex_digit d))) = unat d" and "unat (hex_digit d) < 256"
  using small_nibble [OF assms] by (auto simp: hex_digit_def upt_rec)

lemma nibble_less: "(w :: u32) AND 0xf < 16"
proof -
  have "unat (w AND 0xf) \<le> unat (0xf :: u32)" using word_and_mask_le [of w 15] by (simp only: word_le_nat_alt)
  then show ?thesis by (simp add: word_less_nat_alt)
qed

lemma hex_char_back: "of_char (char_of (unat (hex_digit (w AND 0xf)))) = hex_digit (w AND 0xf)"
proof -
  have "(of_char ch :: u32) = of_nat (of_char ch :: nat)" for ch by (simp add: of_nat_of_char)
  then show ?thesis using hex_digit_char(2) [OF nibble_less, of w] by simp
qed

lemma unat_nibble: "unat (drop_bit (4 * n) (v :: u32) AND 0xf) = unat v div 16 ^ n mod 16"
proof -
  have "unat (drop_bit (4 * n) v AND mask 4) = take_bit 4 (unat (drop_bit (4 * n) v))"
    by (simp only: take_bit_eq_mask [symmetric] unsigned_take_bit_eq)
  also have "\<dots> = unat (drop_bit (4 * n) v) mod 2 ^ 4" by (rule take_bit_eq_mod)
  finally show ?thesis by (simp add: mask_numeral unat_drop_bit32 power_mult)
qed

lemma number_of_Cons: "number_of b (ch # ds) = digit_value ch * b ^ length ds + number_of b ds"
proof -
  have "foldl (\<lambda>n ch. n * b + digit_value ch) a ds = a * b ^ length ds + foldl (\<lambda>n ch. n * b + digit_value ch) 0 ds" for a
  proof (induction ds arbitrary: a)
    case (Cons x ds)
    show ?case
      unfolding foldl_Cons Cons [of "a * b + digit_value x"] Cons [of "0 * b + digit_value x"]
      by (simp add: distrib_right del: digit_value.simps)
  qed simp
  from this [of "digit_value ch"] show ?thesis by (simp add: number_of_def del: digit_value.simps)
qed

lemma number_of_hex: "number_of 16 (map (\<lambda>w. char_of (unat w)) (hex_values v n)) = unat v mod 16 ^ n"
proof (induction n)
  case (Suc n)
  have "unat v mod 16 ^ Suc n = 16 ^ n * (unat v div 16 ^ n mod 16) + unat v mod 16 ^ n"
    by (simp only: power_Suc2 mod_mult2_eq)
  then show ?case
    using Suc hex_digit_char(1) [OF nibble_less, of "drop_bit (4 * n) v"]
    by (simp add: hex_values_def number_of_Cons unat_nibble del: digit_value.simps)
qed (simp add: hex_values_def number_of_def)

lemma hex_text_digits: "\<forall>ch \<in> set (hex_text v). digit_value ch < 16" "length (hex_text v) = 8"
proof -
  show "\<forall>ch \<in> set (hex_text v). digit_value ch < 16"
    using hex_digit_char(1) [OF nibble_less] nibble_less
    by (auto simp: hex_text_def hex_values_def word_less_nat_alt simp del: digit_value.simps)
  show "length (hex_text v) = 8" by (simp add: hex_text_def hex_values_def)
qed

lemma hex_text_values: "map of_char (hex_text v) = hex_values v 8"
  using hex_char_back by (simp add: hex_text_def hex_values_def comp_def)

lemma parse_hex_text: "parse_u32_arg (''0x'' @ hex_text v) = Some (v, [])"
proof -
  have "number_of 16 (hex_text v) = unat v"
    using number_of_hex [of v 8] unat_less_exp [of v] by (simp add: hex_text_def)
  moreover have "digits_of 16 (hex_text v) = hex_text v"
    using hex_text_digits(1) by (simp add: digits_of_def)
  moreover obtain h ds where "hex_text v = h # ds" "digit_value h < 16"
    using hex_text_digits [of v] by (cases "hex_text v") auto
  ultimately have "strtoul0 (''0x'' @ hex_text v) = (unat v, [])"
    using unat_less_exp [of v] by (simp add: strtoul0_def ULONG_MAX_def Let_def del: digit_value.simps)
  then show ?thesis
    using unat_less_exp [of v] by (simp add: parse_u32_arg_def is_blank_def)
qed

text \<open>Printing never hangs and never invents text: on any UART a register line costs at most
  1000001 polls for each of its characters, and what a value's eight digits say is the value:
  on a UART that accepts a character within a million polls, the line is the name, \<^verbatim>\<open>=0x\<close>,
  eight digits and the line end, and \<^verbatim>\<open>parse_u32_arg\<close> reads the digits back.\<close>

theorem uart_register_line:
  "u_reads (raw_uart_reg True status name v u) \<le> u_reads u + 1000001 * (length name + 13) \<and>
   parse_u32_arg (''0x'' @ hex_text v) = Some (v, []) \<and>
   (responsive status \<longrightarrow> u_sent (raw_uart_reg True status name v u) =
      u_sent u @ map of_char (name @ ''=0x'' @ hex_text v @ crlf))"
proof (intro conjI impI)
  define u1 where "u1 = raw_uart_puts True status name u"
  define u2 where "u2 = raw_uart_puts True status ''=0x'' u1"
  define u3 where "u3 = raw_uart_hex32 True status v u2"
  have u4: "raw_uart_reg True status name v u = raw_uart_puts True status crlf u3"
    by (simp add: raw_uart_reg_def u1_def u2_def u3_def)
  have reads: "u_reads u1 \<le> u_reads u + 1000001 * length name" "u_reads u2 \<le> u_reads u1 + 1000001 * 3"
    "u_reads u3 \<le> u_reads u2 + 1000001 * 8" "u_reads (raw_uart_puts True status crlf u3) \<le> u_reads u3 + 1000001 * 2"
    using puts_sends [of True name u status] puts_sends [of True "''=0x''" u1 status]
      hex_loop_sends [of v 8 u2 status] puts_sends [of True crlf u3 status]
    by (auto simp: sends_def u1_def u2_def u3_def raw_uart_hex32_def hex_values_def crlf_def)
  then show "u_reads (raw_uart_reg True status name v u) \<le> u_reads u + 1000001 * (length name + 13)"
    unfolding u4 by simp
  show "parse_u32_arg (''0x'' @ hex_text v) = Some (v, [])" by (rule parse_hex_text)
  assume r: "responsive status"
  show "u_sent (raw_uart_reg True status name v u) = u_sent u @ map of_char (name @ ''=0x'' @ hex_text v @ crlf)"
    unfolding u4 u3_def u2_def u1_def raw_uart_hex32_def
    by (simp add: puts_responsive [OF r] hex_loop_responsive [OF r] hex_text_values del: raw_uart_puts.simps)
qed

end
