(* ===== verification/ProvSafety.thy ===== *)
theory ProvSafety
  imports Provision
begin

text \<open>
  What the provisioning code guarantees. \<open>attached\<close> reads off the network calls which
  addresses the interface holds; \<open>prov_inv\<close> says that the current address is usable and how
  it relates to them. Every operation keeps it, whatever the network interface and the host
  answer, and no operation is undefined.
\<close>

section \<open>The response frame\<close>

lemma usable_prefix:
  assumes "addr_is_usable a p g"
  shows "p \<noteq> 0" and "p \<le> 30"
  using assms by (auto simp: addr_is_usable_def Let_def linorder_not_less split: if_splits)

lemma mask_defined:
  assumes "p \<le> 30"
  shows "\<exists>m. prefix_to_mask p = Some m"
proof (cases "p = 0")
  case False
  have "unat (32 - ucast p :: u32) = 32 - unat p"
    using unat_shift_amount [OF assms] by (simp add: host_bits_def)
  moreover have "unat p \<noteq> 0" using False by (simp add: unat_eq_zero)
  ultimately have "(32 - ucast p :: u32) < 32" by (simp add: word_less_nat_alt)
  then show ?thesis by (simp add: prefix_to_mask_def shl_ones_def)
qed (simp add: prefix_to_mask_def)

definition prov_sizes :: "prov_data \<Rightarrow> bool" where
  "prov_sizes d \<longleftrightarrow> length (prov_mac d) = 6 \<and> length (prov_addr d) = 4 \<and> length (prov_gateway d) = 4"

lemma response_message_ok:
  assumes "prov_sizes d"
  shows "msg_ok (response_message d op status xid)"
    and "m_version (response_message d op status xid) = PROV_VERSION"
  using assms by (simp_all add: prov_sizes_def msg_ok_def response_message_def)

text \<open>The header of a response, with \<open>ck\<close> in the checksum field.\<close>

definition response_header :: "prov_data \<Rightarrow> u32 \<Rightarrow> u16 \<Rightarrow> u8 list" where
  "response_header d xid ck = [0x45, 0] @ be16 64 @ be16 (ucast xid) @ [0, 0, 1, 17] @ be16 ck @ prov_addr d @
     be32 PROV_MULTICAST_ADDR"

lemma response_header_sum:
  assumes "prov_sizes d"
  shows "\<exists>ck. ipv4_checksum (response_header d xid 0) = Some ck \<and>
    ipv4_checksum (response_header d xid ck) = Some 0"
proof -
  have len: "length (response_header d xid 0) = 20" and zero: "response_header d xid 0 ! 10 = 0"
    "response_header d xid 0 ! Suc 10 = 0"
    using assms by (simp_all add: response_header_def prov_sizes_def be16_def)
  have "response_header d xid 0 = ([0x45, 0] @ be16 64 @ be16 (ucast xid) @ [0, 0, 1, 17]) @ be16 0 @
      (prov_addr d @ be32 PROV_MULTICAST_ADDR)"
    by (simp add: response_header_def)
  then have "blit (response_header d xid 0) 10 (be16 ck) =
      ([0x45, 0] @ be16 64 @ be16 (ucast xid) @ [0, 0, 1, 17]) @ be16 ck @ (prov_addr d @ be32 PROV_MULTICAST_ADDR)"
    for ck
    by (simp only:) (rule blit_mid; simp)
  then have "blit (response_header d xid 0) 10 (be16 ck) = response_header d xid ck" for ck
    by (simp add: response_header_def)
  then show ?thesis
    using checksum_verifies [of "response_header d xid 0" 10] len zero by simp
qed

lemma response_frame_layout:
  assumes "prov_sizes d" and "ipv4_checksum (response_header d xid 0) = Some ck"
  shows "response_frame crc d op status xid = Some
      ([0x01, 0x00, 0x5e, 0x7f, 0x4d, 0x5a] @ prov_mac d @ be16 0x0800 @ response_header d xid ck @
       be16 EMACZ_PROVISION_PORT @ be16 EMACZ_PROVISION_PORT @ be16 44 @ [0, 0] @
       encode_message crc (response_message d op status xid))"
proof -
  let ?enc = "encode_message crc (response_message d op status xid)"
  have enc: "length ?enc = 36"
    using message_length [OF response_message_ok(1) [OF assms(1)]] by (simp add: PROV_PACKET_SIZE_def)
  have len: "length (prov_mac d) = 6" "length (prov_addr d) = 4" using assms(1) by (simp_all add: prov_sizes_def)
  have start: "blit (replicate 78 0) 42 ?enc = pad 42 [] @ ?enc"
    using enc by (simp add: pad_nil [of 78] blit_pad pad_full) (simp add: pad_def)
  have two: "replicate 2 0 = [0, 0 :: u8]" by (simp add: numeral_2_eq_2)
  define ip where "ip ck = [0x01, 0x00, 0x5e, 0x7f, 0x4d, 0x5a] @ prov_mac d @ be16 0x0800 @
    response_header d xid ck" for ck
  have ip: "length (ip ck) = 34" "take 20 (drop 14 (pad 42 (ip ck))) = response_header d xid ck"
    "blit (ip 0) 24 (be16 ck) = ip ck" for ck
    using len by (simp_all add: ip_def response_header_def pad_def blit_def)
  have "[1, 0, 94, 127, 77, 90] @ prov_mac d @ be16 2048 @ [69, 0] @ be16 64 @ be16 (ucast xid) @
      [0, 0, 1, 17, 0, 0] @ prov_addr d @ be32 PROV_MULTICAST_ADDR = ip 0"
    by (simp add: ip_def response_header_def be16_def)
  note fold_ip = this [simplified]
  have tail: "pad 42 (ip ck @ be16 EMACZ_PROVISION_PORT @ be16 EMACZ_PROVISION_PORT @ be16 44) =
      ip ck @ be16 EMACZ_PROVISION_PORT @ be16 EMACZ_PROVISION_PORT @ be16 44 @ [0, 0]"
    using ip(1) by (simp add: pad_def two)
  have "response_frame crc d op status xid = Some
      (ip ck @ be16 EMACZ_PROVISION_PORT @ be16 EMACZ_PROVISION_PORT @ be16 44 @ [0, 0] @ ?enc)"
    using enc len assms(2) ip
    by (simp add: response_frame_def PROV_PACKET_SIZE_def start blit_front update_front blit_pad update_pad
        length_pad two fold_ip blit_inside_pad tail)
  then show ?thesis by (simp add: ip_def)
qed

text \<open>C30: every response is one well-formed frame of 78 bytes: to the multicast MAC address of
  239.255.77.90, from the station's MAC and current IPv4 address, with an IPv4 header that
  verifies and announces 64 bytes, a UDP header from and to port 5004 that announces 44, and
  a payload that decodes to the response.\<close>

theorem response_frame_valid:
  assumes "prov_sizes d"
  shows "\<exists>frame. response_frame crc d op status xid = Some frame \<and> length frame = 78 \<and>
    take 6 frame = [0x01, 0x00, 0x5e, 0x7f, 0x4d, 0x5a] \<and> take 6 (drop 6 frame) = prov_mac d \<and>
    ipv4_checksum (take 20 (drop 14 frame)) = Some 0 \<and>
    rd16 frame 16 = Some 64 \<and> take 4 (drop 26 frame) = prov_addr d \<and>
    take 4 (drop 30 frame) = [239, 255, 77, 90] \<and>
    rd16 frame 34 = Some 5004 \<and> rd16 frame 36 = Some 5004 \<and> rd16 frame 38 = Some 44 \<and>
    decode_message crc (drop 42 frame) = Some (response_message d op status xid)"
proof -
  let ?m = "response_message d op status xid" and ?port = "be16 EMACZ_PROVISION_PORT"
  obtain ck where ck: "ipv4_checksum (response_header d xid 0) = Some ck"
    "ipv4_checksum (response_header d xid ck) = Some 0"
    using response_header_sum [OF assms] by blast
  obtain a b c' e f g where mac: "prov_mac d = [a, b, c', e, f, g]"
    using assms by (auto simp: prov_sizes_def numeral_eq_Suc length_Suc_conv)
  have addr: "length (prov_addr d) = 4" using assms by (simp add: prov_sizes_def)
  have enc: "length (encode_message crc ?m) = 36" "decode_message crc (encode_message crc ?m) = Some ?m"
    using message_length decode_encode response_message_ok [OF assms] by (auto simp: PROV_PACKET_SIZE_def)
  have hdr: "length (response_header d xid ck) = 20"
    using addr by (simp add: response_header_def)
  define frame where "frame = [0x01, 0x00, 0x5e, 0x7f, 0x4d, 0x5a] @ prov_mac d @ be16 0x0800 @
    response_header d xid ck @ ?port @ ?port @ be16 44 @ [0, 0] @ encode_message crc ?m"
  have run: "response_frame crc d op status xid = Some frame"
    using response_frame_layout [OF assms ck(1)] by (simp add: frame_def)
  have len: "length frame = 78" using hdr enc(1) by (simp add: frame_def mac)
  have macs: "take 6 frame = [0x01, 0x00, 0x5e, 0x7f, 0x4d, 0x5a]" "take 6 (drop 6 frame) = prov_mac d"
    by (simp_all add: frame_def mac)
  have d14: "drop 14 frame = response_header d xid ck @ ?port @ ?port @ be16 44 @ [0, 0] @ encode_message crc ?m"
    by (simp add: frame_def mac)
  have d34: "drop 34 frame = ?port @ ?port @ be16 44 @ [0, 0] @ encode_message crc ?m"
    using arg_cong [OF d14, of "drop 20"] by (simp add: hdr)
  have d42: "drop 42 frame = encode_message crc ?m"
    using arg_cong [OF d34, of "drop 8"] by simp
  have d26: "drop 26 frame = prov_addr d @ be32 PROV_MULTICAST_ADDR @ drop 34 frame"
    using arg_cong [OF d14, of "drop 12"] by (simp add: response_header_def d34)
  have multicast_bytes: "be32 PROV_MULTICAST_ADDR = [239, 255, 77, 90]" by code_simp
  have d30: "drop 30 frame = be32 PROV_MULTICAST_ADDR @ drop 34 frame"
    using arg_cong [OF d26, of "drop 4"] addr by simp
  have ips: "take 20 (drop 14 frame) = response_header d xid ck" "take 4 (drop 26 frame) = prov_addr d"
    "take 4 (drop 30 frame) = [239, 255, 77, 90]"
    by (simp_all add: d14 d26 d30 hdr addr multicast_bytes)
  have word: "rd16 frame (n + k) = rd16 (drop n frame) k" if "n + k + 1 < 78" for n k
    using that len by simp
  have words: "rd16 frame (14 + 2) = Some 64" "rd16 frame (34 + 0) = Some 5004"
    "rd16 frame (34 + 2) = Some 5004" "rd16 frame (34 + 4) = Some 44"
    using word [of 14 2] word [of 34 0] word [of 34 2] word [of 34 4] len
    by (simp_all add: d14 d34 response_header_def be16_def of_be16_def EMACZ_PROVISION_PORT_def)
  show ?thesis
    using run len macs ips ck(2) words enc(2) by (simp add: d42)
qed

section \<open>Which addresses the interface holds\<close>

fun attached :: "(net_call \<times> bool) list \<Rightarrow> u8 list set" where
  "attached [] = {}"
| "attached ((Net_addr_add a, True) # h) = insert a (attached h)"
| "attached ((Net_addr_rm a, True) # h) = attached h - {a}"
| "attached (_ # h) = attached h"

text \<open>No removal was ever refused.\<close>

definition removals_ok :: "(net_call \<times> bool) list \<Rightarrow> bool" where
  "removals_ok h \<longleftrightarrow> (\<forall>a. (Net_addr_rm a, False) \<notin> set h)"

text \<open>
  The current address is usable with its prefix and gateway; when it is installed the
  interface holds it; and unless a removal was refused the interface holds nothing else.
\<close>

definition prov_inv :: "psys \<Rightarrow> bool" where
  "prov_inv s \<longleftrightarrow> prov_sizes (pv s) \<and>
     addr_is_usable (prov_addr (pv s)) (prov_prefix (pv s)) (prov_gateway (pv s)) \<and>
     (prov_addr_installed (pv s) \<longrightarrow> prov_addr (pv s) \<in> attached (net_tr s)) \<and>
     (removals_ok (net_tr s) \<longrightarrow>
        attached (net_tr s) = (if prov_addr_installed (pv s) then {prov_addr (pv s)} else {}))"

text \<open>Only what \<open>prov_inv\<close> reads matters to it.\<close>

lemma prov_inv_cong:
  assumes "net_tr s' = net_tr s" and "prov_addr (pv s') = prov_addr (pv s)"
    and "prov_prefix (pv s') = prov_prefix (pv s)" and "prov_gateway (pv s') = prov_gateway (pv s)"
    and "prov_addr_installed (pv s') = prov_addr_installed (pv s)" and "prov_mac (pv s') = prov_mac (pv s)"
  shows "prov_inv s' \<longleftrightarrow> prov_inv s"
  using assms by (simp add: prov_inv_def prov_sizes_def)

lemma removals_ok_Cons [simp]:
  "removals_ok ((x, r) # h) \<longleftrightarrow> removals_ok h \<and> \<not> (\<not> r \<and> (\<exists>a. x = Net_addr_rm a))"
  by (auto simp: removals_ok_def)

lemma net_do_simps [simp]:
  "pv (snd (net_do c x s)) = pv s" "drv (snd (net_do c x s)) = drv s"
  "mailbox (snd (net_do c x s)) = mailbox s" "mb_accesses (snd (net_do c x s)) = mb_accesses s"
  "net_tr (snd (net_do c x s)) = (x, fst (net_do c x s)) # net_tr s"
  by (simp_all add: net_do_def Let_def)

lemma upd_pv_simps [simp]:
  "pv (upd_pv f s) = f (pv s)" "drv (upd_pv f s) = drv s" "mailbox (upd_pv f s) = mailbox s"
  "mb_accesses (upd_pv f s) = mb_accesses s" "net_tr (upd_pv f s) = net_tr s"
  by (simp_all add: upd_pv_def)

text \<open>What an unsuccessful operation leaves of the configuration.\<close>

definition same_config :: "psys \<Rightarrow> psys \<Rightarrow> bool" where
  "same_config s s' \<longleftrightarrow> drv s' = drv s \<and> mailbox s' = mailbox s \<and> mb_accesses s' = mb_accesses s \<and>
     (\<exists>i. pv s' = (pv s)\<lparr>prov_addr_installed := i\<rparr>)"

lemma restore_old_ok:
  assumes "prov_sizes (pv s)" and u: "addr_is_usable (prov_addr (pv s)) (prov_prefix (pv s)) (prov_gateway (pv s))"
    and off: "\<not> prov_addr_installed (pv s)" and empty: "removals_ok (net_tr s) \<Longrightarrow> attached (net_tr s) = {}"
  shows "\<exists>s'. restore_old c (prov_addr (pv s)) s = Some s' \<and> prov_inv s' \<and> same_config s s'"
proof (cases "net_do c (Net_addr_add (prov_addr (pv s))) s")
  case (Pair r s1)
  then have s1: "pv s1 = pv s" "drv s1 = drv s" "mailbox s1 = mailbox s" "mb_accesses s1 = mb_accesses s"
    "net_tr s1 = (Net_addr_add (prov_addr (pv s)), r) # net_tr s"
    using net_do_simps [of c "Net_addr_add (prov_addr (pv s))" s] by auto
  obtain m where m: "prefix_to_mask (prov_prefix (pv s)) = Some m"
    using mask_defined [OF usable_prefix(2) [OF u]] by blast
  obtain q s2 where s2: "net_do c (Net_set_netmask (prov_addr (pv s)) m) s1 = (q, s2)"
    by (cases "net_do c (Net_set_netmask (prov_addr (pv s)) m) s1")
  then have "pv s2 = pv s" "drv s2 = drv s" "mailbox s2 = mailbox s" "mb_accesses s2 = mb_accesses s"
    "net_tr s2 = (Net_set_netmask (prov_addr (pv s)) m, q) # net_tr s1"
    using net_do_simps [of c "Net_set_netmask (prov_addr (pv s)) m" s1] s1 by auto
  then show ?thesis
    using Pair s1 s2 m assms
    by (cases r) (auto simp: restore_old_def prov_inv_def same_config_def prov_sizes_def
        intro: exI [of _ "prov_addr_installed (pv s)"])
qed

text \<open>
  What \<open>apply_config\<close> achieves: all of the new configuration, with the netmask and the gateway
  set behind it, or none of it.
\<close>

definition config_outcome :: "prov_message \<Rightarrow> psys \<Rightarrow> int \<Rightarrow> psys \<Rightarrow> bool" where
  "config_outcome request s ret s' \<longleftrightarrow>
     drv s' = drv s \<and> mailbox s' = mailbox s \<and> mb_accesses s' = mb_accesses s \<and>
     (if ret = 0 then
        pv s' = (pv s)\<lparr>prov_addr_installed := True, prov_addr := m_ip request,
          prov_gateway := m_gateway request, prov_prefix := m_prefix request\<rparr> \<and>
        (\<exists>nm q h. prefix_to_mask (m_prefix request) = Some nm \<and>
          net_tr s' = (Net_set_gw (m_gateway request), q) # (Net_set_netmask (m_ip request) nm, True) #
            (Net_addr_add (m_ip request), True) # h)
      else
        (\<exists>i. pv s' = (pv s)\<lparr>prov_addr_installed := i\<rparr>) \<and> ret \<in> {- EINVAL, - EIO, - ENOMEM})"

lemma restored_outcome:
  assumes "same_config s s'" and "drv s = drv s0" and "mailbox s = mailbox s0"
    and "mb_accesses s = mb_accesses s0" and "pv s = pv s0"
    and "ret \<in> {- EINVAL, - EIO, - ENOMEM}"
  shows "config_outcome request s0 ret s'"
  using assms by (auto simp: same_config_def config_outcome_def)

lemma new_address_ok:
  assumes inv: "prov_inv s" and msg: "msg_ok request"
    and u: "addr_is_usable (m_ip request) (m_prefix request) (m_gateway request)"
    and off: "\<not> prov_addr_installed (pv s)"
    and empty: "removals_ok (net_tr s) \<Longrightarrow> attached (net_tr s) = {}"
    and nm: "prefix_to_mask (m_prefix request) = Some nm"
    and tr: "net_tr s' = (Net_set_gw (m_gateway request), q) # (Net_set_netmask (m_ip request) nm, True) #
      (Net_addr_add (m_ip request), True) # net_tr s"
    and "drv s' = drv s" and "mailbox s' = mailbox s" and "mb_accesses s' = mb_accesses s"
    and "pv s' = (pv s)\<lparr>prov_addr_installed := True, prov_addr := m_ip request,
      prov_gateway := m_gateway request, prov_prefix := m_prefix request\<rparr>"
  shows "prov_inv s' \<and> config_outcome request s 0 s'"
  using assms by (auto simp: prov_inv_def config_outcome_def prov_sizes_def msg_ok_def)

text \<open>The part of \<open>apply_config\<close> behind the removal of the old address.\<close>

lemma net_do_eq:
  "net_do c x s = (r, s1) \<longleftrightarrow> r = net_ok c (net_tr s) x \<and> s1 = s\<lparr>net_tr := (x, r) # net_tr s\<rparr>"
  by (auto simp: net_do_def Let_def)

lemma install_address_ok:
  assumes inv: "prov_inv s" and msg: "msg_ok request"
    and u: "addr_is_usable (m_ip request) (m_prefix request) (m_gateway request)"
    and off: "\<not> prov_addr_installed (pv s)"
  shows "\<exists>ret s'. install_address c request (prov_addr (pv s)) s = Some (ret, s') \<and> prov_inv s' \<and>
    config_outcome request s ret s' \<and> ret \<noteq> - EINVAL"
proof -
  obtain nm where nm: "prefix_to_mask (m_prefix request) = Some nm"
    using mask_defined [OF usable_prefix(2) [OF u]] by blast
  have sz: "prov_sizes (pv s)"
    and uo: "addr_is_usable (prov_addr (pv s)) (prov_prefix (pv s)) (prov_gateway (pv s))"
    and empty: "removals_ok (net_tr s) \<Longrightarrow> attached (net_tr s) = {}"
    using inv off by (simp_all add: prov_inv_def)
  obtain r s1 where s1: "net_do c (Net_addr_add (m_ip request)) s = (r, s1)"
    by (cases "net_do c (Net_addr_add (m_ip request)) s")
  obtain q s2 where s2: "net_do c (Net_set_netmask (m_ip request) nm) s1 = (q, s2)"
    by (cases "net_do c (Net_set_netmask (m_ip request) nm) s1")
  obtain g s3 where s3: "net_do c (Net_set_gw (m_gateway request)) s2 = (g, s3)"
    by (cases "net_do c (Net_set_gw (m_gateway request)) s2")
  obtain v s4 where s4: "net_do c (Net_addr_rm (m_ip request)) s2 = (v, s4)"
    by (cases "net_do c (Net_addr_rm (m_ip request)) s2")
  note def = install_address_def [of c request "prov_addr (pv s)" s]
  have e1: "s1 = s\<lparr>net_tr := (Net_addr_add (m_ip request), r) # net_tr s\<rparr>" using s1 by (simp add: net_do_eq)
  have e2: "s2 = s1\<lparr>net_tr := (Net_set_netmask (m_ip request) nm, q) # net_tr s1\<rparr>" using s2 by (simp add: net_do_eq)
  have e3: "s3 = s2\<lparr>net_tr := (Net_set_gw (m_gateway request), g) # net_tr s2\<rparr>" using s3 by (simp add: net_do_eq)
  have e4: "s4 = s2\<lparr>net_tr := (Net_addr_rm (m_ip request), v) # net_tr s2\<rparr>" using s4 by (simp add: net_do_eq)
  have p1: "pv s1 = pv s" and p4: "pv s4 = pv s" by (simp_all add: e1 e2 e4)
  consider (add) "\<not> r" | (netmask) "r" "\<not> q" | (ok) "r" "q" by blast
  then show ?thesis
  proof cases
    case add
    have "removals_ok (net_tr s1) \<Longrightarrow> attached (net_tr s1) = {}"
      using empty add by (simp add: e1)
    then obtain s' where r': "restore_old c (prov_addr (pv s)) s1 = Some s'" "prov_inv s'" "same_config s1 s'"
      using restore_old_ok [of s1 c] sz uo off by (auto simp: p1)
    have "config_outcome request s (- ENOMEM) s'"
      by (rule restored_outcome [OF r'(3)]) (simp_all add: e1)
    then show ?thesis using s1 add r' by (simp add: def)
  next
    case netmask
    have "removals_ok (net_tr s4) \<Longrightarrow> attached (net_tr s4) = {}"
      using empty netmask by (cases v) (auto simp: e1 e2 e4)
    then obtain s' where r': "restore_old c (prov_addr (pv s)) s4 = Some s'" "prov_inv s'" "same_config s4 s'"
      using restore_old_ok [of s4 c] sz uo off by (auto simp: p4)
    have "config_outcome request s (- EIO) s'"
      by (rule restored_outcome [OF r'(3)]) (simp_all add: e1 e2 e4)
    then show ?thesis using s1 s2 s4 netmask nm r' by (simp add: def)
  next
    case ok
    then show ?thesis
      using s1 s2 s3 nm
        new_address_ok [OF inv msg u off empty nm, of "upd_pv (\<lambda>d. d\<lparr>prov_addr_installed := True,
          prov_addr := m_ip request, prov_gateway := m_gateway request,
          prov_prefix := m_prefix request\<rparr>) s3" g]
      by (simp add: def e1 e2 e3)
  qed
qed

lemma outcome_from:
  assumes "config_outcome request s ret s'" and "drv s = drv s0" and "mailbox s = mailbox s0"
    and "mb_accesses s = mb_accesses s0" and "pv s = (pv s0)\<lparr>prov_addr_installed := i\<rparr>"
  shows "config_outcome request s0 ret s'"
  using assms by (auto simp: config_outcome_def split: if_splits)

lemma apply_config_ok:
  assumes inv: "prov_inv s" and msg: "msg_ok request"
  shows "\<exists>ret s'. apply_config c request s = Some (ret, s') \<and> prov_inv s' \<and> config_outcome request s ret s' \<and>
    (ret = - EINVAL \<longleftrightarrow> \<not> addr_is_usable (m_ip request) (m_prefix request) (m_gateway request))"
proof (cases "addr_is_usable (m_ip request) (m_prefix request) (m_gateway request)")
  case False
  moreover have "config_outcome request s (- EINVAL) s"
    by (cases "pv s") (auto simp: config_outcome_def)
  ultimately show ?thesis using inv by (simp add: apply_config_def)
next
  case u: True
  define old where "old = prov_addr (pv s)"
  obtain k s1 where k: "(if prov_addr_installed (pv s) then net_do c (Net_addr_rm old) s else (True, s)) = (k, s1)"
    by fastforce
  then have s1: "pv s1 = pv s" "drv s1 = drv s" "mailbox s1 = mailbox s" "mb_accesses s1 = mb_accesses s"
    "net_tr s1 = (if prov_addr_installed (pv s) then (Net_addr_rm old, k) # net_tr s else net_tr s)"
    "prov_addr_installed (pv s) \<or> k"
    by (auto simp: net_do_eq split: if_splits)
  show ?thesis
  proof (cases k)
    case False
    then have "prov_inv s1" using inv s1 by (auto simp: prov_inv_def)
    moreover have "config_outcome request s (- EIO) s1"
      using s1 by (cases "pv s") (auto simp: config_outcome_def)
    ultimately show ?thesis using u k [unfolded old_def] False by (simp add: apply_config_def Let_def)
  next
    case True
    define s2 where "s2 = upd_pv (\<lambda>d. d\<lparr>prov_addr_installed := False\<rparr>) s1"
    have inv2: "prov_inv s2"
      using inv s1 True by (auto simp: prov_inv_def s2_def old_def prov_sizes_def)
    obtain ret s' where r: "install_address c request (prov_addr (pv s2)) s2 = Some (ret, s')" "prov_inv s'"
      "config_outcome request s2 ret s'" "ret \<noteq> - EINVAL"
      using install_address_ok [OF inv2 msg u, of c] by (auto simp: s2_def)
    have "config_outcome request s ret s'"
      by (rule outcome_from [OF r(3)]) (simp_all add: s2_def s1)
    then show ?thesis
      using u k [unfolded old_def] True r by (simp add: apply_config_def Let_def s2_def s1)
  qed
qed


end
