(* ===== verification/ProvThread.thy ===== *)
theory ProvThread
  imports ProvSafety RingQueue
begin

text \<open>
  The provisioning thread as a whole: the mailbox protocol, the authorisation of a request
  that came over the network, the message queue, and the invariant that holds from start-up
  on whatever host, network and received messages do.
\<close>

section \<open>Accesses to the mailbox\<close>

lemma mb_access_simps [simp]:
  "pv (mb_access c f s) = pv s" "drv (mb_access c f s) = drv s" "net_tr (mb_access c f s) = net_tr s"
  by (simp_all add: mb_access_def)

lemma mb_read_eq: "mb_read c f s = (f (mailbox (mb_access c (\<lambda>m. m) s)), mb_access c (\<lambda>m. m) s)"
  by (simp add: mb_read_def Let_def)

lemma mb_inv [simp]: "prov_inv (mb_access c f s) \<longleftrightarrow> prov_inv s"
  by (rule prov_inv_cong) simp_all

text \<open>What a poll or a request may do to the stored state: the driver is not part of it.\<close>

lemma mailbox_done_simps [simp]:
  "pv (mailbox_done c e st s) = (pv s)\<lparr>last_applied_epoch := e\<rparr>"
  "drv (mailbox_done c e st s) = drv s" "net_tr (mailbox_done c e st s) = net_tr s"
  by (simp_all add: mailbox_done_def Let_def)

lemma mailbox_done_inv [simp]: "prov_inv (mailbox_done c e st s) \<longleftrightarrow> prov_inv s"
  by (rule prov_inv_cong) simp_all

definition mailbox_request :: "u32 \<Rightarrow> u32 \<Rightarrow> u32 \<Rightarrow> u8 list \<Rightarrow> prov_message" where
  "mailbox_request ip gateway prefix hw =
     \<lparr>m_version = 0, m_op = 0, m_status = 0, m_prefix = ucast prefix, m_xid = 0, m_mac = hw,
      m_ip = be32 ip, m_gateway = be32 gateway, m_token = 0\<rparr>"

lemma mailbox_serve_ok:
  assumes inv: "prov_inv s"
  shows "\<exists>s'. mailbox_serve c epoch s = Some s' \<and> prov_inv s' \<and> drv s' = drv s"
proof -
  define s1 s2 s3 where "s1 = mb_access c (\<lambda>m. m) s" and "s2 = mb_access c (\<lambda>m. m) s1"
    and "s3 = mb_access c (\<lambda>m. m) s2"
  define r where "r = mailbox_request (jm_ip (mailbox s1)) (jm_gateway (mailbox s2)) (jm_prefix (mailbox s3))
    (prov_mac (pv s3))"
  have inv3: "prov_inv s3" using inv by (simp add: s1_def s2_def s3_def)
  have "msg_ok r" using inv3 by (simp add: r_def mailbox_request_def msg_ok_def prov_inv_def prov_sizes_def)
  then obtain ret s4 where a: "apply_config c r s3 = Some (ret, s4)" "prov_inv s4" "config_outcome r s3 ret s4"
    using apply_config_ok [OF inv3, of r c] by blast
  have run: "mailbox_serve c epoch s =
      (if \<not> addr_is_usable (m_ip r) (m_prefix r) (m_gateway r) then Some (mailbox_done c epoch (- EINVAL) s3)
       else Some (mailbox_done c epoch ret s4))"
    using a(1) by (simp add: mailbox_serve_def mb_read_eq Let_def r_def mailbox_request_def s1_def s2_def s3_def)
  have "drv s4 = drv s3" using a(3) by (simp add: config_outcome_def)
  then show ?thesis using a(2) inv3 by (auto simp: run s1_def s2_def s3_def)
qed

lemma poll_mailbox_ok:
  assumes "prov_inv s"
  shows "\<exists>s'. poll_jtag_mailbox c s = Some s' \<and> prov_inv s' \<and> drv s' = drv s"
proof -
  have keep: "prov_inv (upd_pv (\<lambda>d. d\<lparr>armed := b\<rparr>) t) = prov_inv t"
    "prov_inv (upd_pv (\<lambda>d. d\<lparr>last_applied_epoch := e\<rparr>) t) = prov_inv t" for b e t
    by (rule prov_inv_cong; simp)+
  have serve: "\<exists>s'. mailbox_serve c e t = Some s' \<and> prov_inv s' \<and> drv s' = drv s"
    if "prov_inv t" "drv t = drv s" for e t
    using mailbox_serve_ok [OF that(1), of c e] that(2) by simp
  show ?thesis
    using assms by (auto simp: poll_jtag_mailbox_def mb_read_eq Let_def keep intro!: serve)
qed

section \<open>The mailbox protocol\<close>

definition host_quiet :: "pctx \<Rightarrow> bool" where
  "host_quiet c \<longleftrightarrow> (\<forall>n m. host c n m = m)"

lemma quiet_access:
  "host_quiet c \<Longrightarrow> mb_access c f s = s\<lparr>mailbox := f (mailbox s), mb_accesses := mb_accesses s + 1\<rparr>"
  by (simp add: host_quiet_def mb_access_def)

text \<open>A request waits: its epoch is new to the board, or, right after arming, not yet answered.\<close>

definition mailbox_pending :: "psys \<Rightarrow> bool" where
  "mailbox_pending s \<longleftrightarrow> jm_magic (mailbox s) = EMACZ_JTAG_MAILBOX_MAGIC \<and>
     (if armed (pv s) then jm_epoch (mailbox s) \<noteq> last_applied_epoch (pv s)
      else jm_ack_epoch (mailbox s) \<noteq> jm_epoch (mailbox s))"

definition pending_request :: "psys \<Rightarrow> prov_message" where
  "pending_request s = mailbox_request (jm_ip (mailbox s)) (jm_gateway (mailbox s)) (jm_prefix (mailbox s))
     (prov_mac (pv s))"

text \<open>How the stored configuration relates to a request that was answered with \<open>ret\<close>.\<close>

definition config_after :: "prov_message \<Rightarrow> psys \<Rightarrow> int \<Rightarrow> psys \<Rightarrow> bool" where
  "config_after request s ret s' \<longleftrightarrow>
     (if ret = 0 then prov_addr_installed (pv s') \<and> prov_addr (pv s') = m_ip request \<and>
        prov_gateway (pv s') = m_gateway request \<and> prov_prefix (pv s') = m_prefix request
      else prov_addr (pv s') = prov_addr (pv s) \<and> prov_gateway (pv s') = prov_gateway (pv s) \<and>
        prov_prefix (pv s') = prov_prefix (pv s)) \<and>
     (ret = - EINVAL \<longleftrightarrow> \<not> addr_is_usable (m_ip request) (m_prefix request) (m_gateway request)) \<and>
     ret \<in> {0, - EINVAL, - EIO, - ENOMEM}"

lemma mailbox_done_quiet:
  "host_quiet c \<Longrightarrow> mailbox (mailbox_done c e st s) = (mailbox s)\<lparr>jm_status := st, jm_ack_epoch := e\<rparr>"
  by (simp add: mailbox_done_def Let_def quiet_access)

lemma config_after_outcome:
  assumes "config_outcome r s ret s'"
    and "ret = - EINVAL \<longleftrightarrow> \<not> addr_is_usable (m_ip r) (m_prefix r) (m_gateway r)"
  shows "config_after r s ret s'" and "armed (pv s') = armed (pv s)" and "prov_mac (pv s') = prov_mac (pv s)"
    and "prov_iface (pv s') = prov_iface (pv s)" and "prov_xid (pv s') = prov_xid (pv s)"
    and "prov_token (pv s') = prov_token (pv s)"
  using assms by (cases "ret = 0"; auto simp: config_after_def config_outcome_def)+

lemma config_after_cong:
  assumes "config_after r s ret s'" and "pv t = pv s"
    and "prov_addr (pv t') = prov_addr (pv s')" and "prov_gateway (pv t') = prov_gateway (pv s')"
    and "prov_prefix (pv t') = prov_prefix (pv s')"
    and "prov_addr_installed (pv t') = prov_addr_installed (pv s')"
  shows "config_after r t ret t'"
  using assms(1) unfolding config_after_def assms(2-6) .

text \<open>A network interface that accepts every call.\<close>

definition net_accepts :: "pctx \<Rightarrow> bool" where
  "net_accepts c \<longleftrightarrow> (\<forall>h x. net_ok c h x)"

lemma apply_accepted:
  assumes "net_accepts c" and "apply_config c r s = Some (ret, s')"
    and "addr_is_usable (m_ip r) (m_prefix r) (m_gateway r)"
  shows "ret = 0"
  using assms by (auto simp: net_accepts_def apply_config_def install_address_def net_do_def Let_def
      split: if_splits option.splits Option.bind_splits)

lemma mailbox_serve_quiet:
  assumes quiet: "host_quiet c" and inv: "prov_inv s"
  shows "\<exists>ret s'. mailbox_serve c e s = Some s' \<and> prov_inv s' \<and> config_after (pending_request s) s ret s' \<and>
    armed (pv s') = armed (pv s) \<and> last_applied_epoch (pv s') = e \<and>
    mailbox s' = (mailbox s)\<lparr>jm_status := ret, jm_ack_epoch := e\<rparr> \<and>
    (net_accepts c \<longrightarrow> ret \<in> {0, - EINVAL})"
proof -
  let ?r = "pending_request s"
  define t where "t = s\<lparr>mb_accesses := mb_accesses s + 1 + 1 + 1\<rparr>"
  have t: "pv t = pv s" "mailbox t = mailbox s" by (simp_all add: t_def)
  have inv_t: "prov_inv t" using inv by (subst prov_inv_cong) (simp_all add: t_def)
  have "msg_ok ?r"
    using inv by (simp add: pending_request_def mailbox_request_def msg_ok_def prov_inv_def prov_sizes_def)
  then obtain ret s4 where a: "apply_config c ?r t = Some (ret, s4)" "prov_inv s4" "config_outcome ?r t ret s4"
    "ret = - EINVAL \<longleftrightarrow> \<not> addr_is_usable (m_ip ?r) (m_prefix ?r) (m_gateway ?r)"
    using apply_config_ok [OF inv_t, of ?r c] by blast
  have run: "mailbox_serve c e s =
      (if \<not> addr_is_usable (m_ip ?r) (m_prefix ?r) (m_gateway ?r) then Some (mailbox_done c e (- EINVAL) t)
       else Some (mailbox_done c e ret s4))"
    using a(1) by (simp add: mailbox_serve_def mb_read_eq Let_def pending_request_def mailbox_request_def
        quiet_access [OF quiet] t_def)
  note after = config_after_outcome [OF a(3,4)]
  have mb4: "mailbox s4 = mailbox s" using a(3) t by (simp add: config_outcome_def)
  show ?thesis
  proof (cases "addr_is_usable (m_ip ?r) (m_prefix ?r) (m_gateway ?r)")
    case True
    have "config_after ?r s ret (mailbox_done c e ret s4)"
      by (rule config_after_cong [OF after(1)]) (simp_all add: t)
    then show ?thesis
      using run True a(2) after(2) t mb4 apply_accepted [OF _ a(1)]
      by (auto simp: mailbox_done_quiet [OF quiet])
  next
    case False
    have "config_after ?r s (- EINVAL) (mailbox_done c e (- EINVAL) t)"
      using False by (simp add: config_after_def t)
    then show ?thesis
      using run False inv_t t by (auto simp: mailbox_done_quiet [OF quiet])
  qed
qed

lemma poll_serves_pending:
  assumes quiet: "host_quiet c" and inv: "prov_inv s" and pending: "mailbox_pending s"
  shows "\<exists>ret s' s''. poll_jtag_mailbox c s = Some s' \<and> config_after (pending_request s) s ret s' \<and>
    mailbox s' = (mailbox s)\<lparr>jm_status := ret, jm_ack_epoch := jm_epoch (mailbox s)\<rparr> \<and>
    poll_jtag_mailbox c s' = Some s'' \<and> pv s'' = pv s' \<and> mailbox s'' = mailbox s' \<and> net_tr s'' = net_tr s' \<and>
    (net_accepts c \<longrightarrow> ret \<in> {0, - EINVAL})"
proof -
  let ?e = "jm_epoch (mailbox s)"
  define t where "t = (if armed (pv s) then s\<lparr>mb_accesses := mb_accesses s + 1 + 1\<rparr>
    else (upd_pv (\<lambda>d. d\<lparr>armed := True\<rparr>) s)\<lparr>mb_accesses := mb_accesses s + 1 + 1 + 1\<rparr>)"
  have poll: "poll_jtag_mailbox c s = mailbox_serve c ?e t"
    using pending by (simp add: poll_jtag_mailbox_def mailbox_pending_def mb_read_eq Let_def
        quiet_access [OF quiet] t_def upd_pv_def)
  have t: "mailbox t = mailbox s" "armed (pv t)" "prov_mac (pv t) = prov_mac (pv s)" "prov_inv t = prov_inv s"
    "prov_addr (pv t) = prov_addr (pv s)" "prov_gateway (pv t) = prov_gateway (pv s)"
    "prov_prefix (pv t) = prov_prefix (pv s)"
    by (simp_all add: t_def prov_inv_def prov_sizes_def)
  obtain ret s' where s': "mailbox_serve c ?e t = Some s'" "config_after (pending_request t) t ret s'"
    "armed (pv s')" "last_applied_epoch (pv s') = ?e"
    "mailbox s' = (mailbox s)\<lparr>jm_status := ret, jm_ack_epoch := ?e\<rparr>"
    "net_accepts c \<longrightarrow> ret \<in> {0, - EINVAL}"
    using mailbox_serve_quiet [OF quiet, of t ?e] t inv by auto
  have same: "pending_request t = pending_request s" by (simp add: pending_request_def t)
  have "config_after (pending_request s) s ret s'"
    using s'(2) unfolding config_after_def same t(5-7) .
  moreover have "\<exists>s''. poll_jtag_mailbox c s' = Some s'' \<and> pv s'' = pv s' \<and> mailbox s'' = mailbox s' \<and>
      net_tr s'' = net_tr s'"
    using s'(3-5) pending
    by (simp add: poll_jtag_mailbox_def mailbox_pending_def mb_read_eq Let_def quiet_access [OF quiet])
  ultimately show ?thesis using poll s' by auto
qed

text \<open>C29: a request waiting in the mailbox is served once. With the host waiting for the answer,
  the next poll applies it (or refuses it with \<open>-EINVAL\<close> when it is not usable, the only
  refusal when the network interface accepts its calls), writes the
  result into the status word and the epoch into the acknowledge word, and touches nothing
  else of the mailbox; the poll after that does nothing.\<close>

theorem mailbox_request_served_once:
  assumes quiet: "host_quiet c" and inv: "prov_inv s" and pending: "mailbox_pending s"
  shows "\<exists>ret s' s''. poll_jtag_mailbox c s = Some s' \<and> config_after (pending_request s) s ret s' \<and>
    mailbox s' = (mailbox s)\<lparr>jm_status := ret, jm_ack_epoch := jm_epoch (mailbox s)\<rparr> \<and>
    poll_jtag_mailbox c s' = Some s'' \<and> pv s'' = pv s' \<and> mailbox s'' = mailbox s' \<and> net_tr s'' = net_tr s' \<and>
    (net_accepts c \<longrightarrow> ret \<in> {0, - EINVAL})"
  by (rule poll_serves_pending [OF assms])

text \<open>The prefix of a mailbox request is cut to eight bits before it is tested, so a word
  far outside 1..30 can be accepted: what is stored is its last byte.\<close>

theorem mailbox_prefix_truncated:
  assumes quiet: "host_quiet c" and inv: "prov_inv s" and pending: "mailbox_pending s"
    and net: "net_accepts c"
    and big: "30 < jm_prefix (mailbox s)"
    and usable: "addr_is_usable (be32 (jm_ip (mailbox s))) (ucast (jm_prefix (mailbox s)))
      (be32 (jm_gateway (mailbox s)))"
  shows "\<exists>s'. poll_jtag_mailbox c s = Some s' \<and> jm_status (mailbox s') = 0 \<and>
    prov_prefix (pv s') = ucast (jm_prefix (mailbox s)) \<and> prov_prefix (pv s') \<le> 30"
proof -
  obtain ret s' where p: "poll_jtag_mailbox c s = Some s'" "config_after (pending_request s) s ret s'"
    "mailbox s' = (mailbox s)\<lparr>jm_status := ret, jm_ack_epoch := jm_epoch (mailbox s)\<rparr>" "ret \<in> {0, - EINVAL}"
    using poll_serves_pending [OF quiet inv pending] net by blast
  have r: "addr_is_usable (m_ip (pending_request s)) (m_prefix (pending_request s)) (m_gateway (pending_request s))"
    "m_prefix (pending_request s) = ucast (jm_prefix (mailbox s))"
    using usable by (simp_all add: pending_request_def mailbox_request_def)
  then have "ret = 0" using p(2,4) by (auto simp: config_after_def)
  then show ?thesis
    using p r usable_prefix(2) [OF usable] by (simp add: config_after_def)
qed

section \<open>Requests over the network\<close>

lemma send_response_keeps:
  assumes "send_response c op st xid s = Some (r, s')"
  shows "pv s' = pv s" and "net_tr s' = net_tr s" and "mailbox s' = mailbox s"
  using assms by (auto simp: send_response_def split: Option.bind_splits)

text \<open>The driver side: a working TX ring whose frames may be 78 bytes long.\<close>

definition tx_ready :: "pctx \<Rightarrow> bool" where
  "tx_ready c \<longleftrightarrow> emz_rx_direct_enabled (pc c) \<and> engine_ok (pc c) \<and> 78 \<le> net_eth_max_frame_size (kc (pc c))"

definition drv_ok :: "pctx \<Rightarrow> emz \<Rightarrow> bool" where
  "drv_ok c d \<longleftrightarrow> tx_inv (dat d) \<and> tx_bufs_ok (pc c) (dat d)"

lemma send_response_ok:
  assumes ready: "tx_ready c" and inv: "prov_inv s" and d: "drv_ok c (drv s)"
  shows "\<exists>ret s'. send_response c op st xid s = Some (ret, s') \<and> prov_inv s' \<and> drv_ok c (drv s')"
proof -
  have sz: "prov_sizes (pv s)" using inv by (simp add: prov_inv_def)
  obtain ck where ck: "ipv4_checksum (response_header (pv s) xid 0) = Some ck"
    using response_header_sum [OF sz] by blast
  obtain f where f: "response_frame (crc32_ieee c) (pv s) op st xid = Some f" "length f = 78"
    using response_frame_layout [OF sz ck] message_length [OF response_message_ok(1) [OF sz]] sz
    by (simp add: response_header_def prov_sizes_def PROV_PACKET_SIZE_def)
  have "\<not> bad_tx_len (pc c) (length f)" using ready f(2) by (simp add: tx_ready_def bad_tx_len_def)
  then obtain ret d' where r: "emaczero_send_raw_frame (pc c) f (drv s) = Some (ret, d')"
    and ok: "send_ok (pc c) f (drv s) ret d'"
    using raw_frame_ok [of "pc c" "drv s" f] ready d by (auto simp: tx_ready_def drv_ok_def)
  have run: "send_response c op st xid s = Some (ret, s\<lparr>drv := d'\<rparr>)"
    using f(1) r by (simp add: send_response_def)
  have "prov_inv (s\<lparr>drv := d'\<rparr>)" using inv by (subst prov_inv_cong) simp_all
  moreover have "drv_ok c d'" using ok by (simp add: send_ok_def drv_ok_def Let_def)
  ultimately show ?thesis using run by simp
qed

lemma prov_inv_token [simp]:
  "prov_inv (upd_pv (\<lambda>d. d\<lparr>prov_token := f d\<rparr>) s) \<longleftrightarrow> prov_inv s"
  "prov_inv (upd_pv (\<lambda>d. d\<lparr>prov_xid := x\<rparr>) s) \<longleftrightarrow> prov_inv s"
  "prov_inv (s\<lparr>drv := d\<rparr>) \<longleftrightarrow> prov_inv s"
  by (rule prov_inv_cong; simp)+

lemma drv_ok_tick [simp]: "drv_ok c (tick d) = drv_ok c d" "drv_ok c (d\<lparr>aux := a\<rparr>) = drv_ok c d"
  by (simp_all add: drv_ok_def)

lemma serve_request_ok:
  assumes ready: "tx_ready c" and inv: "prov_inv s" and d: "drv_ok c (drv s)" and msg: "msg_ok request"
  shows "\<exists>s'. serve_request c request s = Some s' \<and> prov_inv s' \<and> drv_ok c (drv s')"
proof -
  have send: "\<exists>s'. (\<exists>a. send_response c op st xid t = Some (a, s')) \<and> prov_inv s' \<and> drv_ok c (drv s')"
    if "prov_inv t" "drv_ok c (drv t)" for op st xid t
    using send_response_ok [OF ready that] by force
  obtain ret s1 where a: "apply_config c request s = Some (ret, s1)" "prov_inv s1"
    "config_outcome request s ret s1"
    using apply_config_ok [OF inv msg] by blast
  have d1: "drv_ok c (drv s1)" using a(3) d by (simp add: config_outcome_def)
  show ?thesis
    unfolding serve_request_def a(1) Let_def
    using inv d a(2) d1 by (auto intro!: send)
qed

text \<open>C14: nobody changes the board's address over the network without the token of the last
  discovery. A request that changes the stored configuration or calls the network interface
  is a CONFIG for this station's MAC address that quotes the last discovery's transaction and
  its token, a token other than 0; and once the configuration has changed the token is 0, so
  that no request quoting it is accepted again before the next discovery.\<close>

theorem config_needs_token:
  assumes inv: "prov_inv s" and msg: "msg_ok request" and run: "serve_request c request s = Some s'"
    and change: "net_tr s' \<noteq> net_tr s \<or> prov_addr (pv s') \<noteq> prov_addr (pv s) \<or>
      prov_prefix (pv s') \<noteq> prov_prefix (pv s) \<or> prov_gateway (pv s') \<noteq> prov_gateway (pv s)"
  shows "m_op request = op_code PROV_CONFIG \<and> m_mac request = prov_mac (pv s) \<and>
    m_xid request = prov_xid (pv s) \<and> m_token request = prov_token (pv s) \<and> prov_token (pv s) \<noteq> 0 \<and>
    addr_is_usable (m_ip request) (m_prefix request) (m_gateway request) \<and>
    (prov_addr (pv s') \<noteq> prov_addr (pv s) \<or> prov_prefix (pv s') \<noteq> prov_prefix (pv s) \<or>
      prov_gateway (pv s') \<noteq> prov_gateway (pv s) \<longrightarrow> prov_token (pv s') = 0)"
proof -
  obtain ret s1 where a: "apply_config c request s = Some (ret, s1)" "config_outcome request s ret s1"
    "ret = - EINVAL \<longleftrightarrow> \<not> addr_is_usable (m_ip request) (m_prefix request) (m_gateway request)"
    using apply_config_ok [OF inv msg] by blast
  have keep: "pv s' = pv t \<and> net_tr s' = net_tr t" if "send_response c op st xid t = Some (r, s')"
    for op st xid t r using send_response_keeps [OF that] by simp
  have same: "prov_addr (pv s1) = prov_addr (pv s) \<and> prov_prefix (pv s1) = prov_prefix (pv s) \<and>
      prov_gateway (pv s1) = prov_gateway (pv s)" if "ret \<noteq> 0"
    using a(2) that by (auto simp: config_outcome_def)
  show ?thesis
    using run change same unfolding serve_request_def a(1) Let_def
    by (auto split: if_splits dest!: keep)
qed

lemma authorised_config_installs:
  assumes ready: "tx_ready c" and inv: "prov_inv s" and d: "drv_ok c (drv s)" and net: "net_accepts c"
    and conf: "m_op request = op_code PROV_CONFIG" "m_mac request = prov_mac (pv s)"
    and quote: "m_xid request = prov_xid (pv s)" "m_token request = prov_token (pv s)" "prov_token (pv s) \<noteq> 0"
    and msg: "msg_ok request" and usable: "addr_is_usable (m_ip request) (m_prefix request) (m_gateway request)"
  shows "\<exists>s2. serve_request c request s = Some s2 \<and> prov_addr_installed (pv s2) \<and>
    prov_addr (pv s2) = m_ip request \<and> prov_prefix (pv s2) = m_prefix request \<and>
    prov_gateway (pv s2) = m_gateway request \<and> prov_token (pv s2) = 0"
proof -
  obtain ret s2 where a: "apply_config c request s = Some (ret, s2)" "prov_inv s2" "config_outcome request s ret s2"
    using apply_config_ok [OF inv msg, of c] by blast
  have ret: "ret = 0" using apply_accepted [OF net a(1) usable] .
  let ?u = "upd_pv (\<lambda>d. d\<lparr>prov_token := 0\<rparr>) s2"
  have "drv_ok c (drv ?u)" using a(3) d by (simp add: config_outcome_def)
  then obtain q s3 where s3: "send_response c PROV_ACK PROV_OK (m_xid request) ?u = Some (q, s3)"
    using send_response_ok [OF ready, of ?u PROV_ACK PROV_OK "m_xid request"] a(2) by auto
  have "serve_request c request s = Some s3"
    using conf quote usable a(1) ret s3 by (simp add: serve_request_def)
  then show ?thesis
    using send_response_keeps(1) [OF s3] a(3) ret by (simp add: config_outcome_def)
qed

text \<open>C15: the handshake works. After a DISCOVER was answered, a CONFIG for this station that quotes
  its transaction and the token of the offer, with a usable address, is applied when the
  network interface accepts it: address, prefix and gateway are the requested ones, the
  address is installed, and the token is spent.\<close>

theorem handshake_installs:
  assumes ready: "tx_ready c" and inv: "prov_inv s" and d: "drv_ok c (drv s)" and net: "net_accepts c"
    and disc: "m_op discover = op_code PROV_DISCOVER" and offered: "serve_request c discover s = Some s1"
    and conf: "m_op request = op_code PROV_CONFIG" "m_mac request = prov_mac (pv s)"
    and quote: "m_xid request = m_xid discover" "m_token request = prov_token (pv s1)"
    and msg: "msg_ok request" and usable: "addr_is_usable (m_ip request) (m_prefix request) (m_gateway request)"
  shows "\<exists>s2. serve_request c request s1 = Some s2 \<and> prov_addr_installed (pv s2) \<and>
    prov_addr (pv s2) = m_ip request \<and> prov_prefix (pv s2) = m_prefix request \<and>
    prov_gateway (pv s2) = m_gateway request \<and> prov_token (pv s2) = 0"
proof -
  let ?t = "upd_pv (\<lambda>d. d\<lparr>prov_token := new_token (cycle_now (pc c) (drv s)) (m_xid discover) (prov_mac d)\<rparr>)
    ((upd_pv (\<lambda>d. d\<lparr>prov_xid := m_xid discover\<rparr>) s)\<lparr>drv := tick (drv s)\<rparr>)"
  obtain r s1' where send: "send_response c PROV_OFFER PROV_OK (m_xid discover) ?t = Some (r, s1')"
    "prov_inv s1'" "drv_ok c (drv s1')"
    using send_response_ok [OF ready, of ?t PROV_OFFER PROV_OK "m_xid discover"] inv d by auto
  then have s1: "s1' = s1" using offered disc by (simp add: serve_request_def)
  have p1: "pv s1 = pv ?t" using send_response_keeps(1) [OF send(1)] s1 by simp
  have tok: "prov_token (pv s1) \<noteq> 0" by (simp add: p1 new_token_def Let_def)
  have same: "prov_mac (pv s1) = prov_mac (pv s)" "prov_xid (pv s1) = m_xid discover" by (simp_all add: p1)
  show ?thesis
    using authorised_config_installs [OF ready send(2,3) net, unfolded s1, of request] conf quote same tok msg usable
    by simp
qed

text \<open>A message that decodes has fields of the right size.\<close>

lemma decode_msg_ok: "decode_message crc buf = Some m \<Longrightarrow> msg_ok m"
  by (auto simp: decode_message_def msg_ok_def PROV_PACKET_SIZE_def split: if_splits)

section \<open>The message queue\<close>

definition msgq_inv :: "aux_state \<Rightarrow> bool" where
  "msgq_inv a \<longleftrightarrow> length (prov_rx_queue a) \<le> prov_queue_len"

interpretation prov_msgq: bounded_fifo msgq_inv prov_rx_queue prov_queue_len msgq_put msgq_get
  by unfold_locales (auto simp: msgq_inv_def msgq_put_def msgq_get_def)


section \<open>From start-up on\<close>

definition prov_sys_inv :: "pctx \<Rightarrow> psys \<Rightarrow> bool" where
  "prov_sys_inv c s \<longleftrightarrow> prov_inv s \<and> drv_ok c (drv s)"

lemma thread_step_ok:
  assumes ready: "tx_ready c" and inv: "prov_sys_inv c s"
  shows "\<exists>s'. provision_thread_step c s = Some s' \<and> prov_sys_inv c s'"
proof (cases "prov_rx_queue (aux (drv s))")
  case Nil
  then show ?thesis
    using poll_mailbox_ok [of s c] inv by (auto simp: provision_thread_step_def prov_sys_inv_def)
next
  case (Cons buf rest)
  define t where "t = s\<lparr>drv := (drv s)\<lparr>aux := msgq_get (aux (drv s))\<rparr>\<rparr>"
  have t: "prov_inv t" "drv_ok c (drv t)" using inv by (simp_all add: t_def prov_sys_inv_def)
  obtain u where u: "poll_jtag_mailbox c t = Some u" "prov_inv u" "drv u = drv t"
    using poll_mailbox_ok [OF t(1)] by blast
  show ?thesis
  proof (cases "decode_message (crc32_ieee c) buf")
    case None
    then show ?thesis
      using Cons u t by (simp add: provision_thread_step_def prov_sys_inv_def t_def)
  next
    case (Some m)
    then show ?thesis
      using serve_request_ok [OF ready u(2) _ decode_msg_ok [OF Some]] Cons u t
      by (simp add: provision_thread_step_def prov_sys_inv_def t_def)
  qed
qed

text \<open>The bootstrap address is usable whatever the station address.\<close>

lemma not_end_range: "1 \<le> unat (not_end b) \<and> unat (not_end b) \<le> 254"
proof -
  have "unat b < 256" using unat_less_exp [of b] by simp
  moreover have "b \<noteq> 255 \<Longrightarrow> unat b \<noteq> 255" "b \<noteq> 0 \<Longrightarrow> unat b \<noteq> 0" by (auto simp: word_unat_eq_iff)
  ultimately show ?thesis by (auto simp: not_end_def)
qed

lemma bootstrap_usable: "addr_is_usable (bootstrap_addr hw) 16 [0, 0, 0, 0]"
proof -
  define x y where "x = unat (not_end (hw ! 4 XOR 0x80))" and "y = unat (not_end (hw ! 5))"
  have xy: "1 \<le> x" "x \<le> 254" "1 \<le> y" "y \<le> 254"
    using not_end_range by (simp_all add: x_def y_def)
  have ip: "unat (get_be32 (bootstrap_addr hw)) = 65536 * 43518 + (256 * x + y)"
    by (simp add: bootstrap_addr_def unat_of_be32 x_def y_def)
  have gw: "get_be32 [0, 0, 0, 0] = 0" by (simp add: of_be32_def)
  have "256 * x + y < 65535" using xy by linarith
  moreover from this have "(65536 * 43518 + (256 * x + y)) mod 65536 = 256 * x + y"
    by (simp only: mod_mult_self4) simp
  ultimately have "(65536 * 43518 + (256 * x + y)) div 2 ^ 28 = 10"
    "(65536 * 43518 + (256 * x + y)) div 2 ^ 24 = 169"
    "(65536 * 43518 + (256 * x + y)) mod 2 ^ 16 = 256 * x + y"
    by simp_all
  then show ?thesis
    using xy unfolding addr_is_usable_iff usable_spec_def Let_def ip gw
    by (simp add: host_bits_def inside_subnet_def)
qed

lemma provision_start_ok:
  assumes "length hw = 6" and "drv_ok c d"
  shows "\<exists>ret s. emacz_provision_start c True (Some hw) \<lparr>pv = prov_zero, mailbox = m, mb_accesses = 0,
      net_tr = [], drv = d\<rparr> = Some (ret, s) \<and> prov_sys_inv c s \<and>
    emacz_provision_get_ipv4 True s = Some (bootstrap_addr hw) \<and>
    (ret = 0 \<longrightarrow> prov_addr_installed (pv s) \<and> (\<forall>x. (x, False) \<notin> set (net_tr s)))"
proof -
  define s0 where "s0 = \<lparr>pv = prov_zero, mailbox = m, mb_accesses = 0, net_tr = [], drv = d\<rparr>"
  define s1 where "s1 = upd_pv (\<lambda>d. d\<lparr>prov_iface := True, prov_mac := hw, prov_addr := bootstrap_addr hw,
    prov_gateway := [0, 0, 0, 0], prov_prefix := 16\<rparr>) s0"
  have p1: "prov_addr (pv s1) = bootstrap_addr hw" "prov_prefix (pv s1) = 16" "prov_gateway (pv s1) = [0, 0, 0, 0]"
    "prov_mac (pv s1) = hw" "prov_iface (pv s1)" "\<not> prov_addr_installed (pv s1)" "net_tr s1 = []" "drv s1 = d"
    by (simp_all add: s1_def s0_def prov_zero_def)
  obtain nm where nm: "prefix_to_mask 16 = Some nm" using mask_defined [of 16] by auto
  obtain r s2 where s2: "net_do c (Net_addr_add (bootstrap_addr hw)) s1 = (r, s2)"
    by (cases "net_do c (Net_addr_add (bootstrap_addr hw)) s1")
  define s3 where "s3 = upd_pv (\<lambda>d. d\<lparr>prov_addr_installed := True\<rparr>) s2"
  obtain q s4 where s4: "net_do c (Net_set_netmask (bootstrap_addr hw) nm) s3 = (q, s4)"
    by (cases "net_do c (Net_set_netmask (bootstrap_addr hw) nm) s3")
  have e2: "s2 = s1\<lparr>net_tr := [(Net_addr_add (bootstrap_addr hw), r)]\<rparr>" using s2 p1 by (simp add: net_do_eq)
  have e4: "s4 = s3\<lparr>net_tr := (Net_set_netmask (bootstrap_addr hw) nm, q) # net_tr s3\<rparr>"
    using s4 by (simp add: net_do_eq)
  have sz: "length (bootstrap_addr hw) = 4" by (simp add: bootstrap_addr_def)
  define res where "res = (if r then (if q then 0 else - EIO) else - ENOMEM)"
  define s' where "s' = (if r then s4 else s2)"
  define ret where "ret = (if net_up c \<noteq> 0 \<and> net_up c \<noteq> - EALREADY \<and> res = 0 then net_up c else res)"
  have "prov_addr (pv s2) = bootstrap_addr hw" "prov_prefix (pv s2) = 16"
    using p1 by (simp_all add: e2)
  then have run: "emacz_provision_start c True (Some hw) s0 = Some (ret, s')"
    using assms(1) s2 s4 nm p1(1)
    by (cases r) (simp_all add: emacz_provision_start_def s1_def [symmetric] s3_def [symmetric]
        ret_def res_def s'_def Let_def)
  have "prov_inv s'"
    using p1 sz assms(1) bootstrap_usable [of hw]
    by (auto simp: s'_def e2 e4 s3_def prov_inv_def prov_sizes_def)
  moreover have "drv s' = d" using p1 by (simp add: s'_def e2 e4 s3_def)
  moreover have "emacz_provision_get_ipv4 True s' = Some (bootstrap_addr hw)"
    using p1 by (simp add: emacz_provision_get_ipv4_def s'_def e2 e4 s3_def)
  moreover have "ret = 0 \<longrightarrow> prov_addr_installed (pv s') \<and> (\<forall>x. (x, False) \<notin> set (net_tr s'))"
    using p1 by (auto simp: ret_def res_def s'_def e2 e4 s3_def)
  ultimately show ?thesis
    using run assms(2) by (simp add: s0_def prov_sys_inv_def)
qed

text \<open>Starting always returns and sets the invariant up: the board has a usable link-local
  address derived from its MAC address and answers for it, installed unless the interface
  refused it, and the answer to the caller is 0 only if the interface accepted the address
  and its netmask.\<close>

theorem provision_start_establishes:
  assumes "length hw = 6" and "drv_ok c d"
  shows "\<exists>ret s. emacz_provision_start c True (Some hw) \<lparr>pv = prov_zero, mailbox = m, mb_accesses = 0,
      net_tr = [], drv = d\<rparr> = Some (ret, s) \<and> prov_sys_inv c s \<and>
    emacz_provision_get_ipv4 True s = Some (bootstrap_addr hw) \<and>
    (ret = 0 \<longrightarrow> prov_addr_installed (pv s) \<and> (\<forall>x. (x, False) \<notin> set (net_tr s)))"
  using provision_start_ok [OF assms] .

text \<open>
  What can happen after the start: a turn of the thread, or anything in the driver that
  leaves its TX ring working (sending, receiving, a message put on the queue). The host
  acts within the turns.
\<close>

inductive prov_reach :: "pctx \<Rightarrow> psys \<Rightarrow> bool" for c where
  start: "length hw = 6 \<Longrightarrow> drv_ok c d \<Longrightarrow>
    emacz_provision_start c True (Some hw) \<lparr>pv = prov_zero, mailbox = m, mb_accesses = 0, net_tr = [],
      drv = d\<rparr> = Some (ret, s) \<Longrightarrow> prov_reach c s"
| thread: "prov_reach c s \<Longrightarrow> provision_thread_step c s = Some s' \<Longrightarrow> prov_reach c s'"
| driver: "prov_reach c s \<Longrightarrow> drv_ok c d \<Longrightarrow> prov_reach c (s\<lparr>drv := d\<rparr>)"

lemma prov_reach_inv: "prov_reach c s \<Longrightarrow> tx_ready c \<Longrightarrow> prov_sys_inv c s"
proof (induction rule: prov_reach.induct)
  case (start hw d m ret s)
  then show ?case using provision_start_ok [of hw c d m] by auto
next
  case (thread s s')
  then show ?case using thread_step_ok [of c s] by auto
next
  case (driver s d)
  then show ?case by (simp add: prov_sys_inv_def)
qed

text \<open>C11: from start-up on, whatever the host writes, whatever messages arrive and whatever the
  network interface answers, the board's address is a usable one for its prefix and gateway,
  the interface holds it when the code says so, it holds no other unless it refused a
  removal, and the thread's next turn is defined.\<close>

theorem prov_reach_safe:
  assumes "tx_ready c" and "prov_reach c s"
  shows "addr_is_usable (prov_addr (pv s)) (prov_prefix (pv s)) (prov_gateway (pv s)) \<and>
    (prov_addr_installed (pv s) \<longrightarrow> prov_addr (pv s) \<in> attached (net_tr s)) \<and>
    (removals_ok (net_tr s) \<longrightarrow> attached (net_tr s) \<subseteq> {prov_addr (pv s)}) \<and>
    (\<exists>s'. provision_thread_step c s = Some s')"
proof -
  have inv: "prov_sys_inv c s" by (rule prov_reach_inv [OF assms(2,1)])
  then have "\<exists>s'. provision_thread_step c s = Some s'" using thread_step_ok [OF assms(1)] by blast
  with inv show ?thesis by (auto simp: prov_sys_inv_def prov_inv_def split: if_splits)
qed

end
