(* ===== verification/AppMain.thy ===== *)
theory AppMain
  imports BenchRun Uart ProvThread MacRegs RxPoll
begin

text \<open>
  \<^verbatim>\<open>app/src/main.c\<close>: what \<^verbatim>\<open>main\<close> does at start-up, its heartbeat, the profile dump and the UDP
  control socket. The state is that of the provisioning service, with the driver in it, and
  what the application keeps. The network interface, the sockets and the kernel statistics are
  parameters. Starting a thread is recorded; what its body does is a definition of its own.
\<close>

section \<open>State\<close>

datatype app_thread = Udp_sink_thread | Profile_thread

record app_state =
  sys :: psys
  bufs :: bench_bufs
  out :: uart
  boot_marker :: u32
  heartbeat0 :: u32
  heartbeat1 :: u32
  threads :: "app_thread list"
  prev_profile :: emaczero_profile_snapshot
  prev_irq :: u64

record app_ctx =
  px :: pctx
  raw_uart :: bool
  uart_status :: "nat \<Rightarrow> u32"
  uptime :: "nat \<Rightarrow> int"

abbreviation drv_ctx :: "app_ctx \<Rightarrow> ctx" where "drv_ctx c \<equiv> pc (px c)"

definition upd_drv :: "(emz \<Rightarrow> emz) \<Rightarrow> app_state \<Rightarrow> app_state" where
  "upd_drv f s = s\<lparr>sys := (sys s)\<lparr>drv := f (drv (sys s))\<rparr>\<rparr>"

definition app_perf :: "app_state \<Rightarrow> perf_stats" where
  "app_perf s = perf (aux (drv (sys s)))"

definition print :: "app_ctx \<Rightarrow> string \<Rightarrow> app_state \<Rightarrow> app_state" where
  "print c text s = s\<lparr>out := raw_uart_puts (raw_uart c) (uart_status c) text (out s)\<rparr>"

definition print_hex32 :: "app_ctx \<Rightarrow> u32 \<Rightarrow> app_state \<Rightarrow> app_state" where
  "print_hex32 c v s = s\<lparr>out := raw_uart_hex32 (raw_uart c) (uart_status c) v (out s)\<rparr>"

definition print_kv32 :: "app_ctx \<Rightarrow> string \<Rightarrow> u32 \<Rightarrow> app_state \<Rightarrow> app_state" where
  "print_kv32 c name v s = s\<lparr>out := raw_uart_kv32 (raw_uart c) (uart_status c) name v (out s)\<rparr>"

definition print_kv64 :: "app_ctx \<Rightarrow> string \<Rightarrow> u64 \<Rightarrow> app_state \<Rightarrow> app_state" where
  "print_kv64 c name v s = s\<lparr>out := raw_uart_kv64 (raw_uart c) (uart_status c) name v (out s)\<rparr>"

definition EMACZERO_BASE :: u32 where "EMACZERO_BASE = 0x44a00000"
definition UARTLITE_BASE :: u32 where "UARTLITE_BASE = 0x40600000"

definition app_read :: "app_ctx \<Rightarrow> u32 \<Rightarrow> app_state \<Rightarrow> u32 \<times> app_state" where
  "app_read c reg s =
     (let a = EMACZERO_BASE + reg
      in (reg_value (drv_ctx c) a (drv (sys s)), upd_drv (reg_read a) s))"

definition print_reg :: "app_ctx \<Rightarrow> string \<Rightarrow> u32 \<Rightarrow> app_state \<Rightarrow> app_state" where
  "print_reg c name reg s =
     (let (v, s) = app_read c reg s
      in s\<lparr>out := raw_uart_reg (raw_uart c) (uart_status c) name v (out s)\<rparr>)"

lemma print_frame [simp]:
  "sys (print c text s) = sys s" "sys (print_hex32 c v s) = sys s"
  "sys (print_kv32 c name v s) = sys s" "sys (print_kv64 c name w s) = sys s"
  "drv (sys (upd_drv f s)) = f (drv (sys s))" "pv (sys (upd_drv f s)) = pv (sys s)"
  "net_tr (sys (upd_drv f s)) = net_tr (sys s)"
  "bufs (print c text s) = bufs s" "bufs (print_hex32 c v s) = bufs s" "bufs (upd_drv f s) = bufs s"
  "threads (print c text s) = threads s" "threads (print_hex32 c v s) = threads s" "threads (upd_drv f s) = threads s"
  "boot_marker (print c text s) = boot_marker s" "boot_marker (print_hex32 c v s) = boot_marker s"
  "boot_marker (upd_drv f s) = boot_marker s"
  "heartbeat0 (print c text s) = heartbeat0 s" "heartbeat0 (print_hex32 c v s) = heartbeat0 s"
  "heartbeat0 (upd_drv f s) = heartbeat0 s"
  by (simp_all add: print_def print_hex32_def print_kv32_def print_kv64_def upd_drv_def)

section \<open>The statistics block at start-up\<close>

definition EMACZERO_PERF_STATS_MAGIC :: u32 where "EMACZERO_PERF_STATS_MAGIC = 0x45505a53"
definition EMACZERO_PERF_STATS_VERSION :: u32 where "EMACZERO_PERF_STATS_VERSION = 17"

definition perf_metadata :: "kconfig \<Rightarrow> perf_stats \<Rightarrow> perf_stats" where
  "perf_metadata k p =
     (let p = perf_zero;
          p = set32 Magic EMACZERO_PERF_STATS_MAGIC p;
          p = set32 Version EMACZERO_PERF_STATS_VERSION p;
          p = set32 Cycles_per_sec (sys_clock_hz k) p;
          p = (if cfg_r7_instrumentation k
               then set32 R7_hz (sys_clock_hz k) (set32 R7_magic 0x50524632 p) else p);
          p = set32 Rx_pool_size (of_nat (rx_buffer_count k)) p;
          p = set32 Rx_min_free 0xffffffff p;
          p = set32 Rx_ext_magic 0x52584542 p
      in set32 Tx_ext_magic 0x54584542 p)"

definition init_perf_stats_metadata :: "app_ctx \<Rightarrow> app_state \<Rightarrow> app_state" where
  "init_perf_stats_metadata c s =
     (let s = upd_drv (upd_perf (perf_metadata (kc (drv_ctx c)))) s
      in if cfg_profile (kc (drv_ctx c))
         then s\<lparr>bufs := (bufs s)\<lparr>bench_payload := map (\<lambda>i. ucast ((of_nat i :: u32) XOR 0xa5)) [0..<length (bench_payload (bufs s))]\<rparr>\<rparr>
         else s)"

section \<open>The heartbeat\<close>

text \<open>The registers the loop copies into the statistics block, in the order it reads them.\<close>

definition heartbeat_regs :: "(stat32 \<times> u32) list" where
  "heartbeat_regs = [(Mac_rx_frames, 0x30), (Mac_rx_bytes, 0x34), (Mac_rx_err, 0x38),
     (Mac_rx_err_align, 0x4c), (Mac_rx_err_overflow, 0x50), (Mac_rx_err_oversize, 0x54),
     (Mac_rx_bcast, 0x58), (Mac_rx_mcast, 0x5c), (Mac_rx_size_1024_1518, 0x74),
     (Gate_magic, 0x100), (Gate_good_frames, 0x104), (Gate_dropped_bad_frames, 0x108),
     (Gate_dropped_overflow_frames, 0x10c), (Gate_drain_samples, 0x110), (Gate_drain_cycles_total, 0x114),
     (Gate_drain_cycles_max, 0x118), (Gate_drain_lt_50us, 0x11c), (Gate_drain_50_100us, 0x120),
     (Gate_drain_100_200us, 0x124), (Gate_drain_200_500us, 0x128), (Gate_drain_ge_500us, 0x12c),
     (Gate_drain_tready_low_cycles, 0x130), (Gate_drain_tready_low_cycles_max, 0x134), (Gate_drain_tready_low_samples, 0x138)]"

definition copy_reg :: "app_ctx \<Rightarrow> stat32 \<times> u32 \<Rightarrow> app_state \<Rightarrow> app_state" where
  "copy_reg c fr s = (let (v, s) = app_read c (snd fr) s in upd_drv (upd_perf (set32 (fst fr) v)) s)"

text \<open>The kernel statistics: which of their groups are configured, and their values now.\<close>

record net_config =
  has_stats :: bool
  has_udp :: bool
  has_icmp :: bool
  has_ipv4 :: bool
  has_filter :: bool
  has_ipv4_hook :: bool
  has_local_hook :: bool

definition net_fields :: "net_config \<Rightarrow> stat32 list" where
  "net_fields n =
     (if has_stats n then
        [Net_ip_vhlerr, Net_ip_hblenerr, Net_ip_lblenerr, Net_ip_fragerr, Net_ip_chkerr, Net_ip_protoerr] @
        (if has_udp n then [Net_udp_recv, Net_udp_drop, Net_udp_chkerr] else []) @
        (if has_icmp n then [Net_icmp_recv, Net_icmp_sent, Net_icmp_drop, Net_icmp_typeerr] else []) @
        (if has_ipv4 n then [Net_ipv4_recv, Net_ipv4_drop] else []) @
        [Net_processing_error] @
        (if has_filter n then
           [Net_pkt_filter_rx_drop] @
           (if has_ipv4_hook n then [Net_pkt_filter_rx_ipv4_drop] else []) @
           (if has_local_hook n then [Net_pkt_filter_rx_local_drop] else [])
         else [])
      else [])"

text \<open>The variables of \<^verbatim>\<open>main\<close> that live across turns.\<close>

record main_locals =
  ml_count :: u32
  ml_start_cycle :: u32
  ml_last_cycle :: u32
  ml_last_uptime :: int

definition note_cycles :: "u32 \<Rightarrow> int \<Rightarrow> main_locals \<times> perf_stats \<Rightarrow> main_locals \<times> perf_stats" where
  "note_cycles now_cycle now_uptime lp =
     (let (l, p) = lp;
          (l, p) = (if 1000 \<le> now_uptime - ml_last_uptime l
             then (l\<lparr>ml_last_cycle := now_cycle, ml_last_uptime := now_uptime\<rparr>,
                   set32 Cycle_delta_1s (now_cycle - ml_last_cycle l) p)
             else (l, p))
      in (l, if 30000 \<le> now_uptime then set32 Cycle_delta_30s (now_cycle - ml_start_cycle l) p else p))"

section \<open>The profile dump\<close>

definition dump_profile_delta :: "app_ctx \<Rightarrow> app_state \<Rightarrow> app_state" where
  "dump_profile_delta c s =
     (let now = emaczero_profile_take_snapshot (sys_clock_hz (kc (drv_ctx c))) (prof (aux (drv (sys s))));
          prev = prev_profile s;
          irq_now = p64 (app_perf s) Rx_irq_count;
          irq_count = u64_delta irq_now (prev_irq s);
          s = s\<lparr>prev_irq := irq_now\<rparr>;
          delta = (\<lambda>id. u64_delta (ps_counter now id) (ps_counter prev id));
          cycles = (\<lambda>id. u64_delta (ps_cycles_total now id) (ps_cycles_total prev id));
          dma_count = delta COUNTER_DMA_CALLBACKS;
          worker_count = delta COUNTER_RX_WORKER_PACKETS;
          recvd = (\<lambda>p. ps_counter p COUNTER_RX_ZERO_COPY_SUBMIT + ps_counter p COUNTER_RX_COPY_SUBMIT +
                   ps_counter p COUNTER_RX_NET_RECV_FAIL);
          net_recv_count = u64_delta (recvd now) (recvd prev);
          lifetime_count = u64_delta (ps_buffer_lifetime_samples now) (ps_buffer_lifetime_samples prev);
          s = print c ''PROF '' s;
          s = print_kv32 c ''mode'' (ps_mode now) s;
          s = print_kv64 c ''irq'' irq_count s;
          s = print_kv64 c ''dma'' dma_count s;
          s = print_kv64 c ''work'' worker_count s;
          s = print_kv64 c ''zc'' (delta COUNTER_RX_ZERO_COPY_SUBMIT) s;
          s = print_kv64 c ''copy'' (delta COUNTER_RX_COPY_SUBMIT) s;
          s = print_kv64 c ''drop_dma'' (delta COUNTER_DMA_DROP_AFTER_DMA) s;
          s = print_kv64 c ''drop_pkt'' (delta COUNTER_RX_DROP_AFTER_PKT) s;
          s = print_kv64 c ''fail'' (delta COUNTER_RX_NET_RECV_FAIL) s;
          s = print_kv64 c ''nofree'' (delta COUNTER_RX_REFILL_NO_FREE) s;
          s = print c crlf s;
          s = print c ''PROFcyc '' s;
          s = print_kv64 c ''dma_avg'' (u64_avg (cycles CYCLES_DMA_CB) dma_count) s;
          s = print_kv32 c ''dma_max'' (u32_delta (ps_cycles_max now CYCLES_DMA_CB) 0) s;
          s = print_kv64 c ''build_avg'' (u64_avg (cycles CYCLES_RX_BUILD) worker_count) s;
          s = print_kv32 c ''build_max'' (u32_delta (ps_cycles_max now CYCLES_RX_BUILD) 0) s;
          s = print_kv64 c ''net_avg'' (u64_avg (cycles CYCLES_NET_RECV) net_recv_count) s;
          s = print_kv32 c ''net_max'' (u32_delta (ps_cycles_max now CYCLES_NET_RECV) 0) s;
          s = print_kv64 c ''life_avg'' (u64_avg (u64_delta (ps_buffer_lifetime_cycles_total now)
                (ps_buffer_lifetime_cycles_total prev)) lifetime_count) s;
          s = print_kv32 c ''life_max'' (u32_delta (ps_buffer_lifetime_cycles_max now) 0) s;
          s = print_kv32 c ''max_inflight'' (ps_rx_max_dma_inflight now) s;
          s = print_kv32 c ''max_stack'' (ps_rx_max_stack_owned now) s;
          s = print_kv32 c ''min_free'' (if ps_rx_min_free now = - 1 then 0 else ps_rx_min_free now) s;
          s = print_kv32 c ''hz'' (ps_cycles_per_sec now) s;
          s = print c crlf s
      in s\<lparr>prev_profile := now\<rparr>)"

text \<open>What a turn prints in a build with profiling.\<close>

definition heartbeat_log :: "app_ctx \<Rightarrow> main_locals \<Rightarrow> app_state \<Rightarrow> main_locals \<times> app_state" where
  "heartbeat_log c l s =
     (if cfg_profile (kc (drv_ctx c))
      then
        let s = print c ''MBV emacZero alive '' s;
            s = print_hex32 c (ml_count l) s;
            s = print c crlf s;
            s = print_reg c ''RXF'' 0x30 s;
            s = print_reg c ''RXB'' 0x34 s
        in (l, dump_profile_delta c s)
      else (l, s))"

text \<open>One turn of the loop of \<^verbatim>\<open>main\<close>; the sleep is the tick before the clocks are read.\<close>

definition heartbeat_turn :: "app_ctx \<Rightarrow> net_config \<Rightarrow> (stat32 \<Rightarrow> u32) \<Rightarrow> main_locals \<times> app_state \<Rightarrow>
    main_locals \<times> app_state" where
  "heartbeat_turn c n stats ls =
     (let (l, s) = ls;
          s = s\<lparr>heartbeat1 := ml_count l\<rparr>;
          l = l\<lparr>ml_count := ml_count l + 1\<rparr>;
          s = upd_drv tick s;
          now_cycle = cycle_now (drv_ctx c) (drv (sys s));
          s = upd_drv tick s;
          now_uptime = uptime c (ticks (aux (drv (sys s))));
          s = upd_drv (upd_perf (set32 Uptime_ms (of_int now_uptime))) s;
          s = fold (copy_reg c) heartbeat_regs s;
          s = fold (\<lambda>f. upd_drv (upd_perf (set32 f (stats f)))) (net_fields n) s;
          (l, p) = note_cycles now_cycle now_uptime (l, app_perf s);
          s = upd_drv (upd_perf (\<lambda>_. p)) s
      in heartbeat_log c l s)"

section \<open>The control socket\<close>

text \<open>The start of the thread: without a socket on port 5002 it ends.\<close>

definition profile_open :: "app_ctx \<Rightarrow> int \<Rightarrow> int \<Rightarrow> app_state \<Rightarrow> bool \<times> app_state" where
  "profile_open c sock bind_ret s =
     (if sock < 0 then (False, print c (''PROFILE socket failed'' @ crlf) s)
      else if bind_ret < 0 then (False, print c (''PROFILE bind failed'' @ crlf) s)
      else (True, print c (''PROFILE udp port 5002'' @ crlf) s))"

definition log_reply :: "app_ctx \<Rightarrow> string \<Rightarrow> u32 \<Rightarrow> u32 \<Rightarrow> app_state \<Rightarrow> app_state" where
  "log_reply c what sent err s =
     print c crlf (print_hex32 c err (print c '' errno=0x'' (print_hex32 c sent
       (print c (''PROFILE '' @ what @ '' ret=0x'') s))))"

definition upd_profile :: "app_ctx \<Rightarrow> (emaczero_profile_state \<Rightarrow> emaczero_profile_state) \<Rightarrow> app_state \<Rightarrow> app_state" where
  "upd_profile c f s = upd_drv (upd_prof (drv_ctx c) f) s"

definition read_accept_regs :: "app_ctx \<Rightarrow> app_state \<Rightarrow> accept_regs \<times> app_state" where
  "read_accept_regs c s =
     (let (a, s) = app_read c 0x30 s;
          (b, s) = app_read c 0x38 s;
          (d, s) = app_read c 0x108 s;
          (e, s) = app_read c 0x10c s;
          (f, s) = app_read c 0x130 s
      in (\<lparr>ar_rx_frame_cnt = a, ar_rx_err_cnt = b, ar_gate_bad = d, ar_gate_ovf = e, ar_tready_low = f\<rparr>, s))"

text \<open>
  One received request, the bytes of the datagram. The reply is the datagram sent; it is \<open>None\<close>
  when the benchmark used up its fuel, and the whole result is \<open>None\<close> when C leaves it
  undefined. \<open>sent\<close> and \<open>err\<close> are the answer of \<^verbatim>\<open>zsock_sendto\<close> and \<^verbatim>\<open>errno\<close>, which are printed.
\<close>

definition profile_request :: "nat \<Rightarrow> app_ctx \<Rightarrow> bench_net \<Rightarrow> u8 list \<Rightarrow> (nat \<Rightarrow> int) \<Rightarrow> u32 \<Rightarrow> u32 \<Rightarrow> string \<Rightarrow>
    app_state \<Rightarrow> (string option \<times> app_state) option" where
  "profile_request fuel c net peer_ip errno_at sent err request s =
     (if request = [] then Some (None, s)
      else
        let cmd = hd request;
            mode_reply = (\<lambda>s. Some (Some [char_of (48 + unat (mode_num (emaczero_profile_get_mode
              (prof (aux (drv (sys s)))))))], log_reply c ''cmd reply'' sent err s))
        in if cmd \<in> {CHR ''0'', CHR ''1'', CHR ''2''} then
             mode_reply (upd_profile c (emaczero_profile_set_mode (of_char cmd - 48)) s)
           else if cmd = CHR ''r'' \<or> cmd = CHR ''R'' then mode_reply (upd_profile c emaczero_profile_reset s)
           else if cmd = CHR ''s'' \<or> cmd = CHR ''S'' then do {
             let snap = emaczero_profile_take_snapshot (sys_clock_hz (kc (drv_ctx c))) (prof (aux (drv (sys s))));
             let (frames, s) = app_read c 0x30 s;
             let (byte_cnt, s) = app_read c 0x34 s;
             reply \<leftarrow> reply_datagram 512 (format_profile_snapshot snap frames byte_cnt);
             Some (Some reply, log_reply c ''send'' sent err s)
           }
           else if cmd = CHR ''a'' \<or> cmd = CHR ''A'' then do {
             let (regs, s) = read_accept_regs c s;
             reply \<leftarrow> reply_datagram 384 (format_acceptance_snapshot (app_perf s) regs);
             Some (Some reply, s)
           }
           else if cmd = CHR ''t'' \<or> cmd = CHR ''T'' then do {
             (text, b, d) \<leftarrow> run_tx_bench fuel (drv_ctx c) errno_at (sys_clock_hz (kc (drv_ctx c))) net peer_ip
               (Some (takeWhile (\<lambda>ch. ch \<noteq> CHR 0x00) (tl request))) (bufs s) (drv (sys s));
             let s = upd_drv (\<lambda>_. d) (s\<lparr>bufs := b\<rparr>);
             case text of
               None \<Rightarrow> Some (None, s)
             | Some t \<Rightarrow> do {
                 reply \<leftarrow> reply_datagram 160 t;
                 Some (Some reply, log_reply c ''txbench reply'' sent err s)
               }
           }
           else mode_reply s)"

lemma log_reply_sys [simp]: "sys (log_reply c what sent err s) = sys s"
  "app_perf (log_reply c what sent err s) = app_perf s"
  by (simp_all add: log_reply_def app_perf_def)

lemma upd_profile_prof:
  "cfg_profile (kc (drv_ctx c)) \<Longrightarrow> prof (aux (drv (sys (upd_profile c f s)))) = f (prof (aux (drv (sys s))))"
  by (simp add: upd_profile_def upd_prof_def)

lemma upd_profile_rest [simp]:
  "dat (drv (sys (upd_profile c f s))) = dat (drv (sys s))" "app_perf (upd_profile c f s) = app_perf s"
  by (simp_all add: upd_profile_def app_perf_def upd_prof_def)

lemma digit_mode:
  "cmd \<in> {CHR ''0'', CHR ''1'', CHR ''2''} \<Longrightarrow>
    char_of (48 + unat (mode_num (prof_mode (emaczero_profile_set_mode (of_char cmd - 48) st)))) = cmd"
  by (auto simp: emaczero_profile_set_mode_def Let_def word_less_nat_alt char_of_def bit_Suc_0_iff)

text \<open>C32: the control socket in a build with profiling: a digit switches the drop mode to it and is
  echoed; \<open>r\<close> clears the counters and keeps the mode; \<open>s\<close> answers with the whole snapshot of
  the counters and changes nothing; every other command that is not \<open>a\<close> or \<open>t\<close> changes nothing and
  answers the current mode. None of them touches the driver's data or its statistics.\<close>

theorem control_commands:
  fixes s :: app_state
  assumes prof: "cfg_profile (kc (drv_ctx c))" and cmd: "cmd \<notin> {CHR ''a'', CHR ''A'', CHR ''t'', CHR ''T''}"
  defines "st \<equiv> prof (aux (drv (sys s)))"
  shows "\<exists>reply s'. profile_request fuel c net ip errno_at sent err (cmd # rest) s = Some (Some reply, s') \<and>
    dat (drv (sys s')) = dat (drv (sys s)) \<and> app_perf s' = app_perf s \<and>
    (let st' = prof (aux (drv (sys s'))); mode_char = char_of (48 + unat (mode_num (prof_mode st')))
     in if cmd \<in> {CHR ''0'', CHR ''1'', CHR ''2''} then reply = [cmd] \<and> mode_char = cmd \<and> prof_stats st' = prof_stats st
        else if cmd \<in> {CHR ''r'', CHR ''R''} then reply = [mode_char] \<and> prof_mode st' = prof_mode st \<and>
          prof_stats st' = snapshot_zero\<lparr>ps_rx_min_free := - 1\<rparr>
        else if cmd \<in> {CHR ''s'', CHR ''S''} then st' = st \<and> (\<exists>frames byte_cnt. reply = format_profile_snapshot
          (emaczero_profile_take_snapshot (sys_clock_hz (kc (drv_ctx c))) st) frames byte_cnt)
        else reply = [mode_char] \<and> st' = st)"
proof -
  note d = profile_request_def Let_def st_def emaczero_profile_get_mode_def
  consider (mode) "cmd \<in> {CHR ''0'', CHR ''1'', CHR ''2''}" | (reset) "cmd \<in> {CHR ''r'', CHR ''R''}"
    | (snap) "cmd \<in> {CHR ''s'', CHR ''S''}"
    | (other) "cmd \<notin> {CHR ''0'', CHR ''1'', CHR ''2'', CHR ''r'', CHR ''R'', CHR ''s'', CHR ''S''}" by blast
  then show ?thesis
  proof cases
    case mode
    then show ?thesis
      using digit_mode [OF mode] by (simp add: d upd_profile_prof [OF prof]) (simp add: emaczero_profile_set_mode_def Let_def)
  next
    case reset
    then show ?thesis
      by (auto simp: d upd_profile_prof [OF prof] emaczero_profile_reset_def)
  next
    case snap
    then show ?thesis
      by (auto simp: d reply_fits app_read_def app_perf_def)
  next
    case other
    then show ?thesis using cmd by (simp add: d)
  qed
qed

section \<open>Start-up\<close>

text \<open>
  The interceptor \<^verbatim>\<open>main\<close> registers. A read outside the frame would make \<open>udp_sink_intercept\<close>
  \<open>None\<close>; \<open>app_interceptor_spec\<close> shows that it does not happen on a received frame.
\<close>

definition app_interceptor :: "app_ctx \<Rightarrow> u8 list \<Rightarrow> rx_interceptor_fn" where
  "app_interceptor c sink_mac frame len a =
     (case udp_sink_intercept (clk (env_of (drv_ctx c))) (Some sink_mac) frame len a of
        Some r \<Rightarrow> r
      | None \<Rightarrow> (False, a))"

definition SCRATCH_MAGIC :: u32 where "SCRATCH_MAGIC = 0x5a455048"

definition start_udp_sink :: "app_ctx \<Rightarrow> app_state \<Rightarrow> app_state" where
  "start_udp_sink c s = print c (''MBV udp sink port 5001'' @ crlf) (s\<lparr>threads := Udp_sink_thread # threads s\<rparr>)"

definition start_profile_control :: "app_ctx \<Rightarrow> app_state \<Rightarrow> app_state" where
  "start_profile_control c s =
     (if cfg_profile (kc (drv_ctx c)) then s\<lparr>threads := Profile_thread # threads s\<rparr> else s)"

definition print_flag :: "app_ctx \<Rightarrow> string \<Rightarrow> bool \<Rightarrow> app_state \<Rightarrow> app_state" where
  "print_flag c name b s = print_hex32 c (if b then 1 else 0) (print c (name @ ''=0x'') s)"

text \<open>The first part of \<^verbatim>\<open>main\<close>: the statistics block, the boot markers and the banner.\<close>

definition main_banner :: "app_ctx \<Rightarrow> app_state \<Rightarrow> main_locals \<times> app_state" where
  "main_banner c s =
     (let s = s\<lparr>boot_marker := 0xB0071111\<rparr>;
          s = init_perf_stats_metadata c s;
          s = s\<lparr>boot_marker := 0xB0072222\<rparr>;
          start_cycle = cycle_now (drv_ctx c) (drv (sys s));
          s = upd_drv tick s;
          s = s\<lparr>boot_marker := 0xB0073333\<rparr>;
          l = \<lparr>ml_count = 0, ml_start_cycle = start_cycle, ml_last_cycle = start_cycle,
               ml_last_uptime = uptime c (ticks (aux (drv (sys s))))\<rparr>;
          s = s\<lparr>boot_marker := 0xB0074444, heartbeat0 := SCRATCH_MAGIC\<rparr>;
          s = upd_drv (reg_write (UARTLITE_BASE + 0x0c) (BIT 1 OR BIT 0)) s;
          s = print c (''MBV Zephyr emacZero main'' @ crlf) s;
          s = print_reg c ''EMZ VER'' 0x00 s;
          s = print_reg c ''EMZ CTRL'' 0x04 s;
          s = print_reg c ''EMZ STAT'' 0x08 s;
          s = print_reg c ''EMZ MACLO'' 0x0c s;
          s = print_reg c ''EMZ MACHI'' 0x10 s
      in (l, s))"

text \<open>The receive interceptor, for a link address of six bytes.\<close>

definition register_sink :: "app_ctx \<Rightarrow> u8 list option \<Rightarrow> app_state \<Rightarrow> app_state" where
  "register_sink c addr s =
     (case addr of
        None \<Rightarrow> s
      | Some hw \<Rightarrow>
          if length hw \<noteq> 6 then s
          else
            case emaczero_set_rx_interceptor True (Some (app_interceptor c hw)) (drv (sys s)) of
              (ret, d) \<Rightarrow> print c crlf (print_hex32 c (word_of_int ret)
                (print c ''MBV UDP fast endpoint ret=0x'' (upd_drv (\<lambda>_. d) s))))"

text \<open>
  \<^verbatim>\<open>main\<close> up to its loop: \<open>dflt\<close> is what \<^verbatim>\<open>net_if_get_default\<close> answers, with the link address, and
  the three flags are the states of the interface that are printed.
\<close>

definition main_start :: "app_ctx \<Rightarrow> u8 list option option \<Rightarrow> bool \<times> bool \<times> bool \<Rightarrow> app_state \<Rightarrow>
    (main_locals \<times> app_state) option" where
  "main_start c dflt flags s =
     (case main_banner c s of
        (l, s) \<Rightarrow>
          case dflt of
            None \<Rightarrow> Some (l, print c (''MBV no default iface'' @ crlf) s)
          | Some addr \<Rightarrow> do {
              let s = print c (''MBV default iface ok'' @ crlf) s;
              (ret, p) \<leftarrow> emacz_provision_start (px c) True addr (sys s);
              let s = s\<lparr>sys := p\<rparr>;
              let s = print c crlf (print_hex32 c (word_of_int ret) (print c ''MBV provision start ret=0x'' s));
              let s = print_flag c ''MBV iface up'' (fst flags) s;
              let s = print_flag c '' admin'' (fst (snd flags)) s;
              let s = print c crlf (print_flag c '' carrier'' (snd (snd flags)) s);
              Some (l, start_profile_control c (start_udp_sink c (register_sink c addr s)))
            })"

lemma app_interceptor_spec:
  assumes "len \<le> length frame" and "length hw = 6"
  shows "app_interceptor c hw frame len a = intercept_spec (clk (env_of (drv_ctx c))) hw frame len a"
  using intercept_in_bounds [OF assms] by (simp add: app_interceptor_def)

lemma provision_start_drv:
  "emacz_provision_start c b l s = Some (ret, s') \<Longrightarrow> drv s' = drv s"
  by (auto simp: emacz_provision_start_def Let_def net_do_def upd_pv_def
      split: if_splits option.splits prod.splits bool.splits Option.bind_splits)

lemma print_reg_frame [simp]:
  "drv (sys (print_reg c n r s)) = reg_read (EMACZERO_BASE + r) (drv (sys s))"
  "sys (print_reg c n r s) = (sys s)\<lparr>drv := reg_read (EMACZERO_BASE + r) (drv (sys s))\<rparr>"
  "bufs (print_reg c n r s) = bufs s" "threads (print_reg c n r s) = threads s"
  "boot_marker (print_reg c n r s) = boot_marker s" "heartbeat0 (print_reg c n r s) = heartbeat0 s"
  by (simp_all add: print_reg_def app_read_def Let_def upd_drv_def)

lemma print_flag_frame [simp]:
  "sys (print_flag c n b s) = sys s" "threads (print_flag c n b s) = threads s"
  "boot_marker (print_flag c n b s) = boot_marker s" "heartbeat0 (print_flag c n b s) = heartbeat0 s"
  by (simp_all add: print_flag_def)

text \<open>What holds of the driver's part once the banner is out.\<close>

lemma banner_drv:
  assumes "main_banner c s = (l, s')"
  shows "dat (drv (sys s')) = dat (drv (sys s))"
    and "app_perf s' = perf_metadata (kc (drv_ctx c)) (app_perf s)"
    and "sys s' = (sys s)\<lparr>drv := drv (sys s')\<rparr>" and "threads s' = threads s"
    and "boot_marker s' = 0xB0074444" and "heartbeat0 s' = SCRATCH_MAGIC"
  using assms
  by (auto simp: main_banner_def Let_def init_perf_stats_metadata_def app_perf_def upd_perf_def tick_def upd_drv_def
      split: if_splits)

lemma registered:
  assumes "length hw = 6"
  shows "rx_interceptor (dat (drv (sys (register_sink c (Some hw) s)))) = Some (app_interceptor c hw)"
    and "sys (register_sink c (Some hw) s) = (sys s)\<lparr>drv := upd_dat (\<lambda>d. d\<lparr>rx_interceptor := Some (app_interceptor c hw)\<rparr>)
      (emit Dmem_fence (drv (sys s)))\<rparr>"
    and "threads (register_sink c (Some hw) s) = threads s" "boot_marker (register_sink c (Some hw) s) = boot_marker s"
    and "heartbeat0 (register_sink c (Some hw) s) = heartbeat0 s"
  using assms by (simp_all add: register_sink_def emaczero_set_rx_interceptor_def upd_drv_def)

lemma thread_frame [simp]:
  "sys (start_udp_sink c s) = sys s" "sys (start_profile_control c s) = sys s"
  "boot_marker (start_udp_sink c s) = boot_marker s" "boot_marker (start_profile_control c s) = boot_marker s"
  "heartbeat0 (start_udp_sink c s) = heartbeat0 s" "heartbeat0 (start_profile_control c s) = heartbeat0 s"
  by (simp_all add: start_udp_sink_def start_profile_control_def print_def)

text \<open>C20: after \<^verbatim>\<open>main\<close> has started up on an interface with a MAC address, the provisioning service
  satisfies its invariant and answers for its bootstrap address, both threads are started,
  the statistics block holds its metadata and nothing else, and the driver hands every
  received frame to the interceptor for this MAC address, which does what its specification
  says.\<close>

theorem main_start_wires:
  assumes sys: "sys s = \<lparr>pv = prov_zero, mailbox = m, mb_accesses = 0, net_tr = [], drv = d\<rparr>"
    and d: "drv_ok (px c) d" and hw: "length hw = 6"
  shows "\<exists>l s'. main_start c (Some (Some hw)) flags s = Some (l, s') \<and> prov_sys_inv (px c) (sys s') \<and>
    emacz_provision_get_ipv4 True (sys s') = Some (bootstrap_addr hw) \<and>
    Udp_sink_thread \<in> set (threads s') \<and> (cfg_profile (kc (drv_ctx c)) \<longrightarrow> Profile_thread \<in> set (threads s')) \<and>
    app_perf s' = perf_metadata (kc (drv_ctx c)) (perf (aux d)) \<and> heartbeat0 s' = SCRATCH_MAGIC \<and>
    (\<forall>b t. unat (rxb_len b) \<le> length (rxb_bytes b) \<longrightarrow>
       run_interceptor (rx_interceptor (dat (drv (sys s')))) b t =
         (case intercept_spec (clk (env_of (drv_ctx c))) hw (rxb_bytes b) (unat (rxb_len b)) (aux t) of
            (eaten, a) \<Rightarrow> (eaten, t\<lparr>aux := a\<rparr>)))"
proof -
  obtain l s1 where b: "main_banner c s = (l, s1)" by (cases "main_banner c s")
  note bd = banner_drv [OF b]
  have s1: "sys s1 = \<lparr>pv = prov_zero, mailbox = m, mb_accesses = 0, net_tr = [], drv = drv (sys s1)\<rparr>"
    using bd(3) sys by simp
  have "drv_ok (px c) (drv (sys s1))" using d bd(1) sys by (simp add: drv_ok_def)
  then obtain ret p where start: "emacz_provision_start (px c) True (Some hw) (sys s1) = Some (ret, p)"
    and inv: "prov_sys_inv (px c) p" and ip: "emacz_provision_get_ipv4 True p = Some (bootstrap_addr hw)"
    using provision_start_ok [OF hw, of "px c" "drv (sys s1)" m, folded s1] by blast
  have drv: "drv p = drv (sys s1)" by (rule provision_start_drv [OF start])
  let ?print = "\<lambda>s. print c crlf (print_flag c '' carrier'' (snd (snd flags)) (print_flag c '' admin'' (fst (snd flags))
    (print_flag c ''MBV iface up'' (fst flags) (print c crlf (print_hex32 c (word_of_int ret)
      (print c ''MBV provision start ret=0x'' s))))))"
  define s2 where "s2 = ?print (print c (''MBV default iface ok'' @ crlf) s1\<lparr>sys := p\<rparr>)"
  define s3 where "s3 = start_profile_control c (start_udp_sink c (register_sink c (Some hw) s2))"
  have run: "main_start c (Some (Some hw)) flags s = Some (l, s3)"
    using start by (simp add: main_start_def b s3_def s2_def)
  have sys2: "sys s2 = p" "heartbeat0 s2 = SCRATCH_MAGIC" using bd(6) by (simp_all add: s2_def)
  have sys3: "sys s3 = p\<lparr>drv := upd_dat (\<lambda>d. d\<lparr>rx_interceptor := Some (app_interceptor c hw)\<rparr>) (emit Dmem_fence (drv p))\<rparr>"
    using registered(2) [OF hw, of c s2] by (simp add: s3_def sys2)
  have "prov_sys_inv (px c) (sys s3)"
    using inv prov_inv_cong [of "sys s3" p] unfolding sys3
    by (simp add: prov_sys_inv_def drv_ok_def tx_inv_def tx_bufs_ok_def)
  moreover have "emacz_provision_get_ipv4 True (sys s3) = Some (bootstrap_addr hw)"
    using ip by (simp add: sys3 emacz_provision_get_ipv4_def split: if_splits)
  moreover have "Udp_sink_thread \<in> set (threads s3)" "cfg_profile (kc (drv_ctx c)) \<longrightarrow> Profile_thread \<in> set (threads s3)"
    by (simp_all add: s3_def start_profile_control_def start_udp_sink_def)
  moreover have "app_perf s3 = perf_metadata (kc (drv_ctx c)) (perf (aux d))"
    using bd(2) drv sys by (simp add: app_perf_def sys3)
  moreover have "heartbeat0 s3 = SCRATCH_MAGIC" by (simp add: s3_def registered [OF hw] sys2)
  moreover have "run_interceptor (rx_interceptor (dat (drv (sys s3)))) b t =
      (case intercept_spec (clk (env_of (drv_ctx c))) hw (rxb_bytes b) (unat (rxb_len b)) (aux t) of
         (eaten, a) \<Rightarrow> (eaten, t\<lparr>aux := a\<rparr>))" if "unat (rxb_len b) \<le> length (rxb_bytes b)" for b t
    using app_interceptor_spec [OF that hw] by (simp add: sys3 run_interceptor_def)
  ultimately show ?thesis using run by blast
qed

section \<open>What the heartbeat writes\<close>

definition heartbeat_fields :: "net_config \<Rightarrow> stat32 set" where
  "heartbeat_fields n = {Uptime_ms, Cycle_delta_1s, Cycle_delta_30s} \<union> fst ` set heartbeat_regs \<union> set (net_fields n)"

text \<open>Statistics that agree outside a set of fields.\<close>

definition only_in :: "stat32 set \<Rightarrow> perf_stats \<Rightarrow> perf_stats \<Rightarrow> bool" where
  "only_in A p q \<longleftrightarrow> p64 q = p64 p \<and> (\<forall>f. f \<notin> A \<longrightarrow> p32 q f = p32 p f)"

lemma only_in_trans: "only_in A p q \<Longrightarrow> only_in A q r \<Longrightarrow> only_in A p r"
  by (simp add: only_in_def)

lemma only_in_set32: "f \<in> A \<Longrightarrow> only_in A p (set32 f v p)"
  by (simp add: only_in_def)

lemma app_perf_simps [simp]:
  "app_perf (upd_drv (upd_perf g) s) = g (app_perf s)"
  "app_perf (upd_drv tick s) = app_perf s"
  "app_perf (upd_drv (reg_read a) s) = app_perf s"
  "app_perf (print c text s) = app_perf s"
  "app_perf (print_hex32 c v s) = app_perf s"
  "app_perf (print_kv32 c name v s) = app_perf s"
  "app_perf (print_kv64 c name w s) = app_perf s"
  "app_perf (print_reg c name r s) = app_perf s"
  "app_perf (s\<lparr>heartbeat1 := x\<rparr>) = app_perf s"
  "app_perf (s\<lparr>prev_irq := w\<rparr>) = app_perf s"
  "app_perf (s\<lparr>prev_profile := now\<rparr>) = app_perf s"
  by (simp_all add: app_perf_def upd_perf_def tick_def)

lemma copy_reg_sys:
  "app_perf (copy_reg c fr s) = set32 (fst fr) (reg_value (drv_ctx c) (EMACZERO_BASE + snd fr) (drv (sys s))) (app_perf s)"
  "dat (drv (sys (copy_reg c fr s))) = dat (drv (sys s))"
  by (simp_all add: copy_reg_def app_read_def Let_def)

lemma copy_regs_only:
  "fst ` set frs \<subseteq> A \<Longrightarrow> only_in A (app_perf s) (app_perf (fold (copy_reg c) frs s)) \<and>
     dat (drv (sys (fold (copy_reg c) frs s))) = dat (drv (sys s))"
proof (induction frs arbitrary: s)
  case (Cons fr frs)
  have "only_in A (app_perf s) (app_perf (copy_reg c fr s))"
    unfolding copy_reg_sys using Cons(2) by (intro only_in_set32) auto
  then show ?case using Cons(1) [of "copy_reg c fr s"] Cons(2) only_in_trans by (auto simp: copy_reg_sys)
qed (simp add: only_in_def)

lemma net_fields_only:
  "set fs \<subseteq> A \<Longrightarrow> only_in A (app_perf s) (app_perf (fold (\<lambda>f. upd_drv (upd_perf (set32 f (v f)))) fs s)) \<and>
     dat (drv (sys (fold (\<lambda>f. upd_drv (upd_perf (set32 f (v f)))) fs s))) = dat (drv (sys s))"
proof (induction fs arbitrary: s)
  case (Cons f fs)
  have "only_in A (app_perf s) (app_perf (upd_drv (upd_perf (set32 f (v f))) s))"
    using Cons(2) by (simp add: only_in_set32)
  then show ?case
    using Cons(1) [of "upd_drv (upd_perf (set32 f (v f))) s"] Cons(2) only_in_trans by auto
qed (simp add: only_in_def)

lemma note_cycles_only:
  "{Cycle_delta_1s, Cycle_delta_30s} \<subseteq> A \<Longrightarrow> only_in A p (snd (note_cycles cyc up (l, p)))"
  by (auto simp: note_cycles_def only_in_def Let_def)

lemma dump_perf [simp]: "app_perf (dump_profile_delta c s) = app_perf s" "sys (dump_profile_delta c s) = sys s"
  unfolding dump_profile_delta_def Let_def by simp_all

lemma heartbeat_log_keeps:
  "fst (heartbeat_log c l s) = l" "app_perf (snd (heartbeat_log c l s)) = app_perf s"
  "dat (drv (sys (snd (heartbeat_log c l s)))) = dat (drv (sys s))"
  by (simp_all add: heartbeat_log_def Let_def)


text \<open>The low-water mark of the free receive descriptors is lost: the driver starts it at
  \<^verbatim>\<open>UINT32_MAX\<close> before \<^verbatim>\<open>main\<close> clears the block, \<^verbatim>\<open>main\<close> restores that start value for
  \<^verbatim>\<open>rx_min_free\<close> only, and from then on the mark is 0 whatever the driver reports.\<close>

theorem low_water_mark_lost:
  "p32 (perf (aux (fold (\<lambda>d t. emz_perf_set_bd_available (drv_ctx c) (t\<lparr>dat := d\<rparr>)) ds
     (drv (sys (init_perf_stats_metadata c s)))))) Rx_bd_available_min = 0"
proof -
  have init: "p32 (perf (aux (drv (sys (init_perf_stats_metadata c s))))) Rx_bd_available_min = 0"
    by (simp add: init_perf_stats_metadata_def perf_metadata_def perf_zero_def Let_def upd_perf_def)
  have "p32 (perf (aux (fold (\<lambda>d t. emz_perf_set_bd_available (drv_ctx c) (t\<lparr>dat := d\<rparr>)) ds t))) Rx_bd_available_min = 0"
    if "p32 (perf (aux t)) Rx_bd_available_min = 0" for t
    using that
  proof (induction ds arbitrary: t)
    case (Cons d ds)
    then show ?case
      by (simp add: emz_perf_set_bd_available_def emz_perf_set_min_u32_def Let_def upd_perf_def)
  qed simp
  with init show ?thesis by blast
qed

end
