(* ===== verification/SinkSeqlock.thy ===== *)
theory SinkSeqlock
  imports UdpSink
begin

text \<open>
  The sequence word over the sink counters, \<^verbatim>\<open>sink_stats_begin\<close> and \<^verbatim>\<open>sink_stats_end\<close> of
  \<^verbatim>\<open>app/src/main.c\<close>. The host reads the counters over JTAG while the CPU writes them with single
  32-bit stores. \<open>seqlock\<close> is the interface: sections that add 1 to the sequence word before and
  after a body that does not store to it. What a reader may conclude from two equal even
  values is proved once; the sink's updates are an instance, and their stores have the effect
  of the updates of \<open>UdpSink\<close>.
\<close>

section \<open>Stores to a word memory\<close>

type_synonym word_mem = "nat \<Rightarrow> u32"

definition store :: "nat \<times> u32 \<Rightarrow> word_mem \<Rightarrow> word_mem" where
  "store w m = m(fst w := snd w)"

definition run_stores :: "(nat \<times> u32) list \<Rightarrow> word_mem \<Rightarrow> word_mem" where
  "run_stores ws m = fold store ws m"

lemma run_stores_simps [simp]:
  "run_stores [] m = m" "run_stores (w # ws) m = run_stores ws (store w m)"
  "run_stores (ws @ vs) m = run_stores vs (run_stores ws m)"
  by (simp_all add: run_stores_def)

text \<open>How many of the stores go to a word.\<close>

definition hits :: "nat \<Rightarrow> (nat \<times> u32) list \<Rightarrow> nat" where
  "hits i ws = length (filter (\<lambda>w. fst w = i) ws)"

lemma hits_simps [simp]:
  "hits i [] = 0" "hits i (w # ws) = (if fst w = i then 1 else 0) + hits i ws"
  "hits i (ws @ vs) = hits i ws + hits i vs"
  by (simp_all add: hits_def)

lemma hits_le: "hits i ws \<le> length ws"
  by (simp add: hits_def)

lemma run_stores_other: "hits i ws = 0 \<Longrightarrow> run_stores ws m i = m i"
  by (induction ws arbitrary: m) (auto simp: store_def split: if_splits)

section \<open>Sections under a sequence word\<close>

locale seqlock =
  fixes seq :: nat and body :: "'op \<Rightarrow> word_mem \<Rightarrow> (nat \<times> u32) list"
  assumes body_off: "hits seq (body op m) = 0"
begin

definition part :: "'op \<Rightarrow> word_mem \<Rightarrow> (nat \<times> u32) list" where
  "part op m =
     (let begin_store = (seq, m seq + 1); m1 = store begin_store m; ws = body op m1
      in begin_store # ws @ [(seq, run_stores ws m1 seq + 1)])"

fun trace :: "'op list \<Rightarrow> word_mem \<Rightarrow> (nat \<times> u32) list" where
  "trace [] m = []"
| "trace (op # ops) m = part op m @ trace ops (run_stores (part op m) m)"

definition at :: "'op list \<Rightarrow> word_mem \<Rightarrow> nat \<Rightarrow> word_mem" where
  "at ops m t = run_stores (take t (trace ops m)) m"

definition after :: "'op list \<Rightarrow> word_mem \<Rightarrow> nat \<Rightarrow> word_mem" where
  "after ops m k = run_stores (trace (take k ops) m) m"

lemma part_shape: "\<exists>v w ws. part op m = (seq, v) # ws @ [(seq, w)] \<and> hits seq ws = 0 \<and>
    v = m seq + 1 \<and> w = m seq + 2"
  using body_off run_stores_other [OF body_off] by (simp add: part_def Let_def store_def)

text \<open>At every time the sequence word counts the stores made to it.\<close>

lemma seq_counts: "at ops m t seq = m seq + of_nat (hits seq (take t (trace ops m)))"
proof (induction ops arbitrary: m t)
  case Nil
  then show ?case by (simp add: at_def)
next
  case (Cons op ops)
  obtain ws where p: "part op m = (seq, m seq + 1) # ws @ [(seq, m seq + 2)]" and off: "hits seq ws = 0"
    using part_shape [of op m] by blast
  let ?m = "run_stores (part op m) m"
  have m': "?m seq = m seq + 2" by (simp add: p store_def)
  show ?case
  proof (cases "length (part op m) \<le> t")
    case True
    have "at (op # ops) m t = at ops ?m (t - length (part op m))"
      using True by (simp add: at_def)
    then show ?thesis
      using Cons.IH [of ?m "t - length (part op m)"] True by (simp add: m') (simp add: p off)
  next
    case False
    then have t: "t \<le> length ws + 1" by (simp add: p)
    show ?thesis
    proof (cases t)
      case (Suc u)
      with t have "take t (trace (op # ops) m) = (seq, m seq + 1) # take u ws" by (simp add: p)
      moreover have "hits seq (take u ws) = 0"
        using off by (metis append_take_drop_id hits_simps(3) add_is_0)
      ultimately show ?thesis by (simp add: at_def run_stores_other) (simp add: store_def)
    qed (simp add: at_def)
  qed
qed

text \<open>An even count is the end of a section, and then the next store counts.\<close>

lemma even_boundary:
  assumes "even (hits seq (take t (trace ops m)))" and "t \<le> length (trace ops m)"
  shows "\<exists>k \<le> length ops. t = length (trace (take k ops) m)"
  using assms
proof (induction ops arbitrary: m t)
  case Nil
  then show ?case by simp
next
  case (Cons op ops)
  obtain ws where p: "part op m = (seq, m seq + 1) # ws @ [(seq, m seq + 2)]" and off: "hits seq ws = 0"
    using part_shape [of op m] by blast
  let ?m = "run_stores (part op m) m" and ?n = "length (part op m)"
  show ?case
  proof (cases "?n \<le> t")
    case True
    have "hits seq (part op m) = 2" using off by (simp add: p)
    then have "even (hits seq (take (t - ?n) (trace ops ?m)))" "t - ?n \<le> length (trace ops ?m)"
      using Cons.prems True by auto
    from Cons.IH [OF this] obtain k where "k \<le> length ops" "t - ?n = length (trace (take k ops) ?m)" by blast
    with True show ?thesis by (intro exI [of _ "Suc k"]) simp
  next
    case False
    have "t = 0"
    proof (rule ccontr)
      assume "t \<noteq> 0"
      then obtain u where u: "t = Suc u" by (cases t) auto
      have "take t (trace (op # ops) m) = (seq, m seq + 1) # take u ws" using False by (simp add: p u)
      moreover have "hits seq (take u ws) = 0"
        using off by (metis append_take_drop_id hits_simps(3) add_is_0)
      ultimately show False using Cons.prems by simp
    qed
    then show ?thesis by (intro exI [of _ 0]) simp
  qed
qed

lemma trace_split: "k \<le> length ops \<Longrightarrow> trace ops m = trace (take k ops) m @ trace (drop k ops) (after ops m k)"
proof (induction ops arbitrary: m k)
  case (Cons op ops)
  then show ?case by (cases k) (simp_all add: after_def)
qed (simp add: after_def)

lemma next_store_counts:
  assumes "k \<le> length ops" and "a = length (trace (take k ops) m)" and "a < b" and "b \<le> length (trace ops m)"
  shows "hits seq (take a (trace ops m)) < hits seq (take b (trace ops m))"
proof -
  let ?rest = "trace (drop k ops) (after ops m k)"
  have "length (trace ops m) = a + length ?rest"
    using assms(2) arg_cong [OF trace_split [OF assms(1), of m], of length] by simp
  then have rest: "0 < length ?rest" using assms(3,4) by linarith
  then obtain op r where d: "drop k ops = op # r" by (cases "drop k ops") auto
  then obtain v tail where "?rest = (seq, v) # tail"
    using part_shape [of op "after ops m k"] by auto
  moreover obtain n where "b - a = Suc n" using assms(3) by (cases "b - a") simp_all
  ultimately have "0 < hits seq (take (b - a) ?rest)" by simp
  then show ?thesis using assms(2,3) trace_split [OF assms(1), of m] by simp
qed

text \<open>
  A reader that saw the same even value of the sequence word before and after reading, with
  fewer than \<open>2 ^ 32\<close> stores in between, saw one state: the one after some number of whole
  sections.
\<close>

lemma reader_consistent:
  assumes even0: "even (m seq)" and ab: "a \<le> b" "b \<le> length (trace ops m)" "b - a < 2 ^ 32"
    and same: "at ops m a seq = at ops m b seq" and ev: "even (at ops m a seq)"
  shows "\<exists>k \<le> length ops. \<forall>t. a \<le> t \<longrightarrow> t \<le> b \<longrightarrow> at ops m t = after ops m k"
proof -
  let ?h = "\<lambda>t. hits seq (take t (trace ops m))"
  have split: "take b (trace ops m) = take a (trace ops m) @ take (b - a) (drop a (trace ops m))"
    using ab(1) by (metis le_add_diff_inverse take_add)
  have mono: "?h a \<le> ?h b" and small: "?h b - ?h a < 2 ^ 32"
    using split hits_le [of seq "take (b - a) (drop a (trace ops m))"] ab(3) by simp_all
  have "(of_nat (?h a) :: u32) = of_nat (?h b)" using same by (simp add: seq_counts)
  then have "unat (of_nat (?h b - ?h a) :: u32) = 0" using mono by (simp add: of_nat_diff)
  then have eq: "?h a = ?h b"
    using small mono unat_of_nat32 [of "?h b - ?h a"] by (simp del: unat_of_nat32)
  have "even (?h a)" using ev even0 by (simp add: seq_counts even_of_nat)
  from even_boundary [OF this] ab obtain k where k: "k \<le> length ops" "a = length (trace (take k ops) m)"
    by auto
  have "a = b" using next_store_counts [OF k _ ab(2)] eq ab(1) by (metis le_neq_implies_less less_irrefl)
  then show ?thesis
    using k trace_split [OF k(1), of m] by (intro exI [of _ k]) (auto simp: at_def after_def)
qed

end

section \<open>The sink's updates, store by store\<close>

text \<open>
  A 64-bit counter is two words; a store to it is two stores. The words are those of the
  \<open>PerfStats\<close> layout.
\<close>

definition join64 :: "word_mem \<Rightarrow> nat \<Rightarrow> u64" where
  "join64 m i = push_bit 32 (ucast (m (i + 1))) OR ucast (m i)"

definition put64 :: "nat \<Rightarrow> u64 \<Rightarrow> (nat \<times> u32) list" where
  "put64 i v = [(i, ucast v), (i + 1, ucast (drop_bit 32 v))]"

datatype sink_op = Sink_packet u32 u32 | Sink_error u32 | Sink_recv u32

fun sink_body :: "sink_op \<Rightarrow> word_mem \<Rightarrow> (nat \<times> u32) list" where
  "sink_body (Sink_packet now payload_len) m =
     (if join64 m 130 = 0 then [(144, now)] else []) @ put64 130 (join64 m 130 + 1) @
     put64 132 (join64 m 132 + ucast payload_len) @ [(146, payload_len), (145, now)]"
| "sink_body (Sink_error err) m =
     put64 134 (join64 m 134 + 1) @ [(143, err)] @
     (if err = of_int EAGAIN then put64 136 (join64 m 136 + 1) else [])"
| "sink_body (Sink_recv recv_cycles) m =
     put64 138 (join64 m 138 + 1) @ put64 140 (join64 m 140 + ucast recv_cycles) @
     (if m 142 < recv_cycles then [(142, recv_cycles)] else [])"

interpretation sink: seqlock 128 sink_body
proof
  show "hits 128 (sink_body op m) = 0" for op m
    by (cases op) (simp_all add: put64_def)
qed

fun sink_apply :: "sink_op \<Rightarrow> perf_stats \<Rightarrow> perf_stats" where
  "sink_apply (Sink_packet now payload_len) p = sink_account_packet now payload_len p"
| "sink_apply (Sink_error err) p = sink_account_error err p"
| "sink_apply (Sink_recv recv_cycles) p = sink_account_recv recv_cycles p"

text \<open>The memory holds the sink fields of \<open>p\<close>.\<close>

definition holds_sink :: "word_mem \<Rightarrow> perf_stats \<Rightarrow> bool" where
  "holds_sink m p \<longleftrightarrow>
     (\<forall>i \<in> {128, 142, 143, 144, 145, 146}. p32 p (S32 i) = m i) \<and>
     (\<forall>i \<in> {130, 132, 134, 136, 138, 140}. p64 p (S64 i) = join64 m i)"

lemma join_put [simp]: "join64 (run_stores (put64 i v) m) i = v"
  by (simp add: join64_def put64_def store_def split_join_u64)

lemma part_holds:
  assumes "holds_sink m p"
  shows "holds_sink (run_stores (sink.part op m) m) (sink_apply op p)"
  using assms
  by (cases op) (auto simp: holds_sink_def sink.part_def Let_def put64_def store_def join64_def split_join_u64
    sink_account_packet_def sink_account_error_def sink_account_recv_def sink_stats_begin_def sink_stats_end_def)

lemma after_holds:
  "holds_sink m p \<Longrightarrow> holds_sink (run_stores (sink.trace ops m) m) (fold sink_apply ops p)"
  by (induction ops arbitrary: m p) (simp_all add: part_holds)

text \<open>The memory after the first \<open>t\<close> stores of a sequence of updates.\<close>

definition sink_memory_at :: "sink_op list \<Rightarrow> word_mem \<Rightarrow> nat \<Rightarrow> word_mem" where
  "sink_memory_at ops m t = sink.at ops m t"

definition sink_stores :: "sink_op list \<Rightarrow> word_mem \<Rightarrow> nat" where
  "sink_stores ops m = length (sink.trace ops m)"

text \<open>C19: a host that reads the sequence word, then the sink counters, then the sequence word
  again, and sees the same even value twice, has read one consistent state: at every moment
  in between the counters were those after some number of whole updates, although each
  64-bit counter is written in two halves (fewer than \<open>2 ^ 32\<close> stores may happen in between).\<close>

theorem sink_reader_consistent:
  assumes "holds_sink m p" and "even (m 128)"
    and "a \<le> b" and "b \<le> sink_stores ops m" and "b - a < 2 ^ 32"
    and "sink_memory_at ops m a 128 = sink_memory_at ops m b 128" and "even (sink_memory_at ops m a 128)"
  shows "\<exists>k \<le> length ops. \<forall>t. a \<le> t \<and> t \<le> b \<longrightarrow>
    holds_sink (sink_memory_at ops m t) (fold sink_apply (take k ops) p)"
proof -
  obtain k where "k \<le> length ops" "\<forall>t. a \<le> t \<longrightarrow> t \<le> b \<longrightarrow> sink.at ops m t = sink.after ops m k"
    using sink.reader_consistent [of m a b ops] assms by (auto simp: sink_memory_at_def sink_stores_def)
  then show ?thesis
    using after_holds [OF assms(1)] by (intro exI [of _ k]) (simp add: sink_memory_at_def sink.after_def)
qed

fun packet_len :: "sink_op \<Rightarrow> u64" where
  "packet_len (Sink_packet now payload_len) = ucast payload_len"
| "packet_len _ = 0"

fun is_packet :: "sink_op \<Rightarrow> bool" where
  "is_packet (Sink_packet _ _) = True"
| "is_packet _ = False"

text \<open>The totals the host reads are right: after any updates the packet count has grown by the
  packets accounted, the byte count by their payload lengths, and the sequence word by two
  for each update, so it is even again.\<close>

theorem sink_totals:
  "p64 (fold sink_apply ops p) Sink_packets = p64 p Sink_packets + of_nat (length (filter is_packet ops)) \<and>
   p64 (fold sink_apply ops p) Sink_bytes = p64 p Sink_bytes + sum_list (map packet_len ops) \<and>
   p32 (fold sink_apply ops p) Sink_seq = p32 p Sink_seq + 2 * of_nat (length ops)"
proof (induction ops arbitrary: p)
  case (Cons op ops)
  show ?case
    using Cons.IH [of "sink_apply op p"]
    by (cases op) (simp_all add: sink_account_packet_def sink_account_error_def sink_account_recv_def
        sink_stats_begin_def sink_stats_end_def Let_def algebra_simps)
qed simp

end
