(* ===== verification/Smoke.thy ===== *)
theory Smoke
  imports Uart
begin

text \<open>
  \<^verbatim>\<open>sw/baremetal/mbv_ejtaguart_smoke.c\<close>: a polled UART Lite echo. Unlike the application's output
  its wait for the transmit FIFO has no limit, so a routine that prints is \<open>None\<close> when it never
  returns. \<open>status n\<close> is what the \<open>n\<close>-th read of the status register returns, \<open>rx n\<close> the \<open>n\<close>-th read
  of the receive register. The delay loop has no effect on this state.
\<close>

section \<open>The program\<close>

record serial =
  polls :: nat
  rx_reads :: nat
  outp :: "u32 list"

definition UART_STAT_RX_VALID :: u32 where "UART_STAT_RX_VALID = 1"
definition UART_STAT_TX_FULL :: u32 where "UART_STAT_TX_FULL = 8"

partial_function (option) uart_wait :: "(nat \<Rightarrow> u32) \<Rightarrow> serial \<Rightarrow> serial option" where
  "uart_wait status s =
     (if status (polls s) AND UART_STAT_TX_FULL \<noteq> 0 then uart_wait status (s\<lparr>polls := polls s + 1\<rparr>)
      else Some (s\<lparr>polls := polls s + 1\<rparr>))"

definition uart_putc :: "(nat \<Rightarrow> u32) \<Rightarrow> u8 \<Rightarrow> serial \<Rightarrow> serial option" where
  "uart_putc status ch s = do {
     s \<leftarrow> uart_wait status s;
     Some (s\<lparr>outp := outp s @ [ucast ch]\<rparr>)
   }"

definition uart_getc_nonblock :: "(nat \<Rightarrow> u32) \<Rightarrow> (nat \<Rightarrow> u32) \<Rightarrow> serial \<Rightarrow> int \<times> serial" where
  "uart_getc_nonblock status rx s =
     (let st = status (polls s); s = s\<lparr>polls := polls s + 1\<rparr>
      in if st AND UART_STAT_RX_VALID = 0 then (- 1, s)
         else (uint (rx (rx_reads s) AND 0xff), s\<lparr>rx_reads := rx_reads s + 1\<rparr>))"

fun uart_puts :: "(nat \<Rightarrow> u32) \<Rightarrow> string \<Rightarrow> serial \<Rightarrow> serial option" where
  "uart_puts status [] s = Some s"
| "uart_puts status (ch # str) s = do {
     s \<leftarrow> (if ch = CHR 0x0A then uart_putc status 0x0D s else Some s);
     s \<leftarrow> uart_putc status (of_char ch) s;
     uart_puts status str s
   }"

text \<open>\<open>n\<close> is the number of nibbles still to print: \<^verbatim>\<open>shift\<close> is \<open>4 * (n - 1)\<close>.\<close>

fun puthex_loop :: "(nat \<Rightarrow> u32) \<Rightarrow> u32 \<Rightarrow> nat \<Rightarrow> serial \<Rightarrow> serial option" where
  "puthex_loop status v 0 s = Some s"
| "puthex_loop status v (Suc n) s = do {
     s \<leftarrow> uart_putc status (of_char (''0123456789ABCDEF'' ! unat (drop_bit (4 * n) v AND 0xf))) s;
     puthex_loop status v n s
   }"

definition uart_puthex32 :: "(nat \<Rightarrow> u32) \<Rightarrow> u32 \<Rightarrow> serial \<Rightarrow> serial option" where
  "uart_puthex32 status v s = do { s \<leftarrow> uart_puts status ''0x'' s; puthex_loop status v 8 s }"

definition smoke_banner :: "(nat \<Rightarrow> u32) \<Rightarrow> serial \<Rightarrow> serial option" where
  "smoke_banner status s = do {
     s \<leftarrow> uart_puts status (CHR 0x0A # ''mbv fcapz ejtaguart smoke'' @ [CHR 0x0A]) s;
     s \<leftarrow> uart_puts status ''uartlite='' s;
     s \<leftarrow> uart_puthex32 status 0x40600000 s;
     s \<leftarrow> uart_puts status [CHR 0x0A] s;
     uart_puts status (''type characters and they should echo through USER4'' @ [CHR 0x0A]) s
   }"

text \<open>One turn of the loop of \<^verbatim>\<open>main\<close>.\<close>

definition smoke_turn :: "(nat \<Rightarrow> u32) \<Rightarrow> (nat \<Rightarrow> u32) \<Rightarrow> u32 \<Rightarrow> serial \<Rightarrow> (u32 \<times> serial) option" where
  "smoke_turn status rx beat s = do {
     let (ch, s) = uart_getc_nonblock status rx s;
     s \<leftarrow> (if 0 \<le> ch then do {
             s \<leftarrow> uart_puts status ''rx '' s;
             s \<leftarrow> uart_putc status (of_int ch) s;
             uart_puts status [CHR 0x0A] s
           } else Some s);
     let was = beat;
     let beat = beat + 1;
     s \<leftarrow> (if was AND 0x3ffff = 0 then do {
             s \<leftarrow> uart_puts status ''beat '' s;
             s \<leftarrow> uart_puthex32 status beat s;
             uart_puts status [CHR 0x0A] s
           } else Some s);
     Some (beat, s)
   }"

fun smoke_turns :: "nat \<Rightarrow> (nat \<Rightarrow> u32) \<Rightarrow> (nat \<Rightarrow> u32) \<Rightarrow> u32 \<Rightarrow> serial \<Rightarrow> (u32 \<times> serial) option" where
  "smoke_turns 0 status rx beat s = Some (beat, s)"
| "smoke_turns (Suc n) status rx beat s = do {
     (beat, s) \<leftarrow> smoke_turn status rx beat s;
     smoke_turns n status rx beat s
   }"

section \<open>It keeps running on a UART that keeps draining\<close>

text \<open>A FIFO that, after any number of reads, is found not full again.\<close>

definition draining :: "(nat \<Rightarrow> u32) \<Rightarrow> bool" where
  "draining status \<longleftrightarrow> (\<forall>n. \<exists>m \<ge> n. status m AND UART_STAT_TX_FULL = 0)"

lemma uart_wait_returns:
  assumes "m \<ge> polls s" and "status m AND UART_STAT_TX_FULL = 0"
  shows "\<exists>p. uart_wait status s = Some (s\<lparr>polls := p\<rparr>)"
  using assms
proof (induction "m - polls s" arbitrary: s)
  case 0
  then have "m = polls s" by simp
  then show ?case using 0 by (subst uart_wait.simps) auto
next
  case (Suc n)
  from Suc(1) [of "s\<lparr>polls := polls s + 1\<rparr>"] Suc(2-4) show ?case
    by (subst uart_wait.simps) auto
qed

lemma putc_returns:
  assumes "draining status"
  shows "\<exists>p. uart_putc status ch s = Some (s\<lparr>polls := p, outp := outp s @ [ucast ch]\<rparr>)"
proof -
  obtain m where "m \<ge> polls s" "status m AND UART_STAT_TX_FULL = 0"
    using assms by (auto simp: draining_def)
  then obtain p where "uart_wait status s = Some (s\<lparr>polls := p\<rparr>)" using uart_wait_returns by blast
  then show ?thesis by (auto simp: uart_putc_def)
qed

text \<open>What \<^verbatim>\<open>uart_puts\<close> sends: a carriage return before every newline.\<close>

fun wire :: "string \<Rightarrow> u32 list" where
  "wire [] = []"
| "wire (ch # str) = (if ch = CHR 0x0A then [0x0D] else []) @ of_char ch # wire str"

lemma of_char_u8: "ucast (of_char ch :: u8) = (of_char ch :: u32)"
  by (cases ch) (simp add: of_char_def)

definition prints :: "(serial \<Rightarrow> serial option) \<Rightarrow> u32 list \<Rightarrow> bool" where
  "prints f t \<longleftrightarrow> (\<forall>s. \<exists>p. f s = Some (s\<lparr>polls := p, outp := outp s @ t\<rparr>))"

lemma prints_nothing: "prints Some []"
proof -
  have "Some s = Some (s\<lparr>polls := polls s, outp := outp s @ []\<rparr>)" for s :: serial by simp
  then show ?thesis unfolding prints_def by blast
qed

lemma prints_bind:
  assumes "prints f t" and "prints g u"
  shows "prints (\<lambda>s. f s \<bind> g) (t @ u)"
  unfolding prints_def
proof
  fix s
  obtain p where "f s = Some (s\<lparr>polls := p, outp := outp s @ t\<rparr>)" using assms(1) by (auto simp: prints_def)
  moreover obtain q where "g (s\<lparr>polls := p, outp := outp s @ t\<rparr>) =
      Some (s\<lparr>polls := p, outp := outp s @ t\<rparr>\<lparr>polls := q, outp := outp (s\<lparr>polls := p, outp := outp s @ t\<rparr>) @ u\<rparr>)"
    using assms(2) unfolding prints_def by blast
  ultimately show "\<exists>p. f s \<bind> g = Some (s\<lparr>polls := p, outp := outp s @ t @ u\<rparr>)" by auto
qed

lemma prints_putc: "draining status \<Longrightarrow> prints (uart_putc status ch) [ucast ch]"
  unfolding prints_def using putc_returns by blast

lemma prints_puts: "draining status \<Longrightarrow> prints (uart_puts status str) (wire str)"
proof (induction str)
  case Nil
  then show ?case using prints_nothing by (simp add: prints_def)
next
  case (Cons ch str)
  have "prints (\<lambda>s. uart_putc status (of_char ch) s \<bind> uart_puts status str) ([ucast (of_char ch :: u8)] @ wire str)"
    using Cons by (intro prints_bind prints_putc) auto
  moreover have "prints (\<lambda>s. if ch = CHR 0x0A then uart_putc status 0x0D s else Some s) (if ch = CHR 0x0A then [0x0D] else [])"
    using prints_putc [OF Cons(2), of "0x0D"] prints_nothing by (simp add: prints_def)
  ultimately show ?case
    using prints_bind [of "\<lambda>s. if ch = CHR 0x0A then uart_putc status 0x0D s else Some s"]
    by (fastforce simp: of_char_u8)
qed

lemma table_digit:
  assumes "d < 16"
  shows "(ucast (of_char (''0123456789ABCDEF'' ! unat d) :: u8) :: u32) = hex_digit d"
  using small_nibble [OF assms] by (auto simp: hex_digit_def upt_rec)

lemma prints_puthex: "draining status \<Longrightarrow> prints (puthex_loop status v n) (hex_values v n)"
proof (induction n)
  case 0
  then show ?case using prints_nothing by (simp add: prints_def hex_values_def)
next
  case (Suc n)
  let ?d = "drop_bit (4 * n) v AND 0xf"
  have "prints (\<lambda>s. uart_putc status (of_char (''0123456789ABCDEF'' ! unat ?d)) s \<bind> puthex_loop status v n)
      ([ucast (of_char (''0123456789ABCDEF'' ! unat ?d) :: u8)] @ hex_values v n)"
    using Suc by (intro prints_bind prints_putc) auto
  then show ?case unfolding table_digit [OF nibble_less] by (simp add: hex_values_def)
qed

lemma prints_puthex32: "draining status \<Longrightarrow> prints (uart_puthex32 status v) (map of_char (''0x'' @ hex_text v))"
proof -
  assume d: "draining status"
  have "prints (uart_puthex32 status v) (wire ''0x'' @ hex_values v 8)"
    unfolding uart_puthex32_def using d by (intro prints_bind prints_puts prints_puthex)
  then show ?thesis by (simp add: hex_text_values)
qed

text \<open>What a turn prints: the echo of a waiting character, and a line every 262144 turns.\<close>

definition echo_text :: "u32 \<Rightarrow> u32 \<Rightarrow> u32 list" where
  "echo_text st v = (if st AND UART_STAT_RX_VALID = 0 then []
     else map of_char ''rx '' @ [v AND 0xff] @ map of_char crlf)"

definition beat_text :: "u32 \<Rightarrow> u32 list" where
  "beat_text beat = (if beat AND 0x3ffff = 0 then map of_char (''beat 0x'' @ hex_text (beat + 1) @ crlf) else [])"

lemma echo_byte: "ucast (ucast (v AND 0xff) :: u8) = (v AND 0xff :: u32)"
proof -
  have "ucast (ucast (v AND mask 8) :: u8) = (v AND mask 8 :: u32)"
    by (rule bit_word_eqI) (auto simp: bit_simps)
  then show ?thesis by (simp add: mask_numeral)
qed

lemma smoke_turn_ok:
  assumes d: "draining status"
  shows "\<exists>p. smoke_turn status rx beat s = Some (beat + 1, s\<lparr>polls := p,
    rx_reads := rx_reads s + (if status (polls s) AND UART_STAT_RX_VALID = 0 then 0 else 1),
    outp := outp s @ echo_text (status (polls s)) (rx (rx_reads s)) @ beat_text beat\<rparr>)"
proof -
  define v where "v = rx (rx_reads s) AND 0xff"
  define valid where "valid \<longleftrightarrow> status (polls s) AND UART_STAT_RX_VALID \<noteq> 0"
  define s1 where "s1 = s\<lparr>polls := polls s + 1, rx_reads := rx_reads s + (if valid then 1 else 0)\<rparr>"
  define echo where "echo t = (if valid then uart_puts status ''rx '' t \<bind> (\<lambda>t. uart_putc status (of_int (uint v)) t \<bind>
    uart_puts status [CHR 0x0A]) else Some t)" for t
  define tail where "tail t = (if beat AND 0x3ffff = 0 then uart_puts status ''beat '' t \<bind> (\<lambda>t. uart_puthex32 status (beat + 1) t
    \<bind> uart_puts status [CHR 0x0A]) else Some t)" for t
  have "prints (\<lambda>t. uart_puts status ''rx '' t \<bind> (\<lambda>t. uart_putc status (of_int (uint v)) t \<bind> uart_puts status [CHR 0x0A]))
      (wire ''rx '' @ [ucast (of_int (uint v) :: u8)] @ wire [CHR 0x0A])"
    by (intro prints_bind prints_puts prints_putc d)
  then have echo: "prints echo (echo_text (status (polls s)) (rx (rx_reads s)))"
    using prints_nothing unfolding prints_def
    by (cases valid) (simp_all add: echo_def echo_text_def valid_def v_def echo_byte crlf_def)
  have "prints (\<lambda>t. uart_puts status ''beat '' t \<bind> (\<lambda>t. uart_puthex32 status (beat + 1) t \<bind> uart_puts status [CHR 0x0A]))
      (wire ''beat '' @ map of_char (''0x'' @ hex_text (beat + 1)) @ wire [CHR 0x0A])"
    by (intro prints_bind prints_puts prints_puthex32 d)
  then have tail: "prints tail (beat_text beat)"
    using prints_nothing unfolding prints_def
    by (cases "beat AND 0x3ffff = 0") (simp_all add: tail_def beat_text_def crlf_def)
  have "smoke_turn status rx beat s = map_option (Pair (beat + 1)) (echo s1 \<bind> tail)"
    by (auto simp: smoke_turn_def uart_getc_nonblock_def Let_def s1_def echo_def tail_def valid_def v_def
        split: Option.bind_splits)
  moreover obtain p where "echo s1 \<bind> tail = Some (s1\<lparr>polls := p,
      outp := outp s1 @ echo_text (status (polls s)) (rx (rx_reads s)) @ beat_text beat\<rparr>)"
    using prints_bind [OF echo tail] unfolding prints_def by blast
  ultimately have "smoke_turn status rx beat s = Some (beat + 1, s1\<lparr>polls := p,
      outp := outp s1 @ echo_text (status (polls s)) (rx (rx_reads s)) @ beat_text beat\<rparr>)" by simp
  then show ?thesis by (intro exI [of _ p]) (simp add: s1_def valid_def)
qed

text \<open>C40: on a UART that keeps draining, the smoke test never hangs: every turn returns, echoes the
  character that was waiting and nothing else, reads the receive register only then, and
  prints a heartbeat with the turn's number in 262144 turns one time.\<close>

theorem smoke_turn_returns:
  assumes "draining status"
  shows "\<exists>p. smoke_turn status rx beat s = Some (beat + 1, s\<lparr>polls := p,
    rx_reads := rx_reads s + (if status (polls s) AND UART_STAT_RX_VALID = 0 then 0 else 1),
    outp := outp s @ echo_text (status (polls s)) (rx (rx_reads s)) @ beat_text beat\<rparr>)"
  by (rule smoke_turn_ok [OF assms])

lemma smoke_turns_return:
  "draining status \<Longrightarrow> \<exists>s'. smoke_turns n status rx beat s = Some (beat + of_nat n, s')"
proof (induction n arbitrary: beat s)
  case (Suc n)
  obtain s1 where "smoke_turn status rx beat s = Some (beat + 1, s1)"
    using smoke_turn_ok [OF Suc(2)] by blast
  with Suc(1) [OF Suc(2), of "beat + 1" s1] show ?case by (simp add: add.assoc)
qed simp

lemma smoke_banner_returns: "draining status \<Longrightarrow> \<exists>p t. smoke_banner status s = Some (s\<lparr>polls := p, outp := outp s @ t\<rparr>)"
proof -
  assume d: "draining status"
  have "prints (smoke_banner status) (wire (CHR 0x0A # ''mbv fcapz ejtaguart smoke'' @ [CHR 0x0A]) @ wire ''uartlite='' @
      map of_char (''0x'' @ hex_text 0x40600000) @ wire [CHR 0x0A] @
      wire (''type characters and they should echo through USER4'' @ [CHR 0x0A]))"
    unfolding smoke_banner_def by (intro prints_bind prints_puts prints_puthex32 d)
  then show ?thesis unfolding prints_def by blast
qed

end
