(* ===== verification/Soc.thy ===== *)
theory Soc
  imports Prelude
begin

text \<open>
  \<^verbatim>\<open>soc/bard0/arty_a7_vex/soc.c\<close>: the interrupt glue of the two-level interrupt tree and the fatal
  error handler. The encoding of interrupt numbers and the AXI interrupt controller are outside
  \<^verbatim>\<open>src/\<close> and are parameters; \<open>intc_ok\<close> says what is documented of the controller's mask.
\<close>

section \<open>Interrupts\<close>

record 'i soc_ctx =
  irq_get_level :: "u32 \<Rightarrow> nat"
  irq_from_level_2 :: "u32 \<Rightarrow> u32"
  xlnx_intc_irq_enable :: "u32 \<Rightarrow> 'i \<Rightarrow> 'i"
  xlnx_intc_irq_disable :: "u32 \<Rightarrow> 'i \<Rightarrow> 'i"
  xlnx_intc_irq_get_enabled :: "'i \<Rightarrow> u32"
  xlnx_intc_irq_pending :: "'i \<Rightarrow> u32"
  xlnx_intc_irq_pending_vector :: "'i \<Rightarrow> u32"
  irq_unlock :: "u32 \<Rightarrow> u32 \<Rightarrow> u32"

record 'i soc =
  mie :: u32
  mstatus :: u32
  intc :: 'i

definition RISCV_IRQ_MEXT :: nat where "RISCV_IRQ_MEXT = 11"
definition MSTATUS_IEN :: u32 where "MSTATUS_IEN = 8"

text \<open>\<^verbatim>\<open>1UL << irq\<close> is undefined from 32 on.\<close>

definition irq_bit :: "u32 \<Rightarrow> u32 option" where
  "irq_bit irq = (if unat irq < 32 then Some (BIT (unat irq)) else None)"

text \<open>\<open>None\<close> is an undefined shift or the failing assertion.\<close>

definition arch_irq_enable :: "'i soc_ctx \<Rightarrow> u32 \<Rightarrow> 'i soc \<Rightarrow> 'i soc option" where
  "arch_irq_enable c irq s =
     (let level = irq_get_level c irq
      in if level = 1 then do {
           b \<leftarrow> irq_bit irq;
           Some (s\<lparr>mie := mie s OR b\<rparr>)
         } else if level = 2 then
           let irq = irq_from_level_2 c irq;
               s = s\<lparr>intc := xlnx_intc_irq_enable c irq (intc s)\<rparr>
           in Some (s\<lparr>mie := mie s OR BIT RISCV_IRQ_MEXT\<rparr>)
         else None)"

definition arch_irq_disable :: "'i soc_ctx \<Rightarrow> u32 \<Rightarrow> 'i soc \<Rightarrow> 'i soc option" where
  "arch_irq_disable c irq s =
     (let level = irq_get_level c irq
      in if level = 2 then
           let irq = irq_from_level_2 c irq
           in Some (s\<lparr>intc := xlnx_intc_irq_disable c irq (intc s)\<rparr>)
         else do {
           b \<leftarrow> irq_bit irq;
           Some (s\<lparr>mie := mie s AND NOT b\<rparr>)
         })"

definition arch_irq_is_enabled :: "'i soc_ctx \<Rightarrow> u32 \<Rightarrow> 'i soc \<Rightarrow> bool option" where
  "arch_irq_is_enabled c irq s =
     (let level = irq_get_level c irq
      in if level = 2 then do {
           b \<leftarrow> irq_bit (irq_from_level_2 c irq);
           Some (b AND xlnx_intc_irq_get_enabled c (intc s) \<noteq> 0)
         } else do {
           b \<leftarrow> irq_bit irq;
           Some (mie s AND b \<noteq> 0)
         })"

definition arch_irq_pending :: "'i soc_ctx \<Rightarrow> 'i soc \<Rightarrow> u32" where
  "arch_irq_pending c s = xlnx_intc_irq_pending c (intc s)"

definition arch_irq_pending_vector :: "'i soc_ctx \<Rightarrow> u32 \<Rightarrow> 'i soc \<Rightarrow> u32" where
  "arch_irq_pending_vector c ipending s = xlnx_intc_irq_pending_vector c (intc s)"

text \<open>Idling does not wait for an interrupt: it only unlocks them.\<close>

definition arch_cpu_idle :: "'i soc_ctx \<Rightarrow> 'i soc \<Rightarrow> 'i soc" where
  "arch_cpu_idle c s = s\<lparr>mstatus := irq_unlock c MSTATUS_IEN (mstatus s)\<rparr>"

definition arch_cpu_atomic_idle :: "'i soc_ctx \<Rightarrow> u32 \<Rightarrow> 'i soc \<Rightarrow> 'i soc" where
  "arch_cpu_atomic_idle c key s = s\<lparr>mstatus := irq_unlock c key (mstatus s)\<rparr>"

text \<open>
  The documented behaviour of the controller's mask: enabling sets the bit of the line,
  disabling clears it.
\<close>

definition intc_ok :: "'i soc_ctx \<Rightarrow> bool" where
  "intc_ok c \<longleftrightarrow> (\<forall>irq i. unat irq < 32 \<longrightarrow>
     xlnx_intc_irq_get_enabled c (xlnx_intc_irq_enable c irq i) = xlnx_intc_irq_get_enabled c i OR BIT (unat irq) \<and>
     xlnx_intc_irq_get_enabled c (xlnx_intc_irq_disable c irq i) =
       xlnx_intc_irq_get_enabled c i AND NOT (BIT (unat irq)))"

text \<open>An interrupt of one of the two levels, with a line number its mask has.\<close>

definition irq_valid :: "'i soc_ctx \<Rightarrow> u32 \<Rightarrow> bool" where
  "irq_valid c irq \<longleftrightarrow>
     irq_get_level c irq = 1 \<and> unat irq < 32 \<or> irq_get_level c irq = 2 \<and> unat (irq_from_level_2 c irq) < 32"

text \<open>Two interrupts that are the same line.\<close>

definition same_line :: "'i soc_ctx \<Rightarrow> u32 \<Rightarrow> u32 \<Rightarrow> bool" where
  "same_line c a b \<longleftrightarrow> irq_get_level c a = irq_get_level c b \<and>
     (if irq_get_level c a = 2 then irq_from_level_2 c a = irq_from_level_2 c b else a = b)"

lemma bit_test:
  fixes w :: u32
  shows "2 ^ n AND w = 0 \<longleftrightarrow> \<not> bit w n"
  by (simp add: and.commute [of "2 ^ n"] bit_iff_and_push_bit_not_eq_0 push_bit_of_1)

lemma is_enabled_bit:
  "irq_valid c irq \<Longrightarrow> arch_irq_is_enabled c irq s = Some (if irq_get_level c irq = 2
     then bit (xlnx_intc_irq_get_enabled c (intc s)) (unat (irq_from_level_2 c irq)) else bit (mie s) (unat irq))"
  by (auto simp: arch_irq_is_enabled_def irq_bit_def irq_valid_def Let_def bit_test and.commute [of "mie s"])

lemma mext_bit [simp]: "bit (2048 :: u32) n \<longleftrightarrow> n = 11"
proof -
  have "(2048 :: u32) = 2 ^ 11" by simp
  then show ?thesis by (simp only: bit_simps) auto
qed

text \<open>Enabling and disabling act on the one line they name. After \<^verbatim>\<open>arch_irq_enable\<close> the line is
  enabled, and a second-level line can reach the core, because the external line of the first
  level is enabled with it; after \<^verbatim>\<open>arch_irq_disable\<close> it is not; and no other line changes, the
  first-level external line aside.\<close>

theorem irq_lines_independent:
  assumes ok: "intc_ok c" and a: "irq_valid c a" and b: "irq_valid c b"
  shows "\<exists>s1 s2. arch_irq_enable c a s = Some s1 \<and> arch_irq_disable c a s = Some s2 \<and>
    arch_irq_is_enabled c a s1 = Some True \<and> arch_irq_is_enabled c a s2 = Some False \<and>
    (irq_get_level c a = 2 \<longrightarrow> bit (mie s1) RISCV_IRQ_MEXT) \<and>
    (\<not> same_line c a b \<longrightarrow> arch_irq_is_enabled c b s2 = arch_irq_is_enabled c b s \<and>
      (irq_get_level c b = 1 \<and> b = of_nat RISCV_IRQ_MEXT \<or> arch_irq_is_enabled c b s1 = arch_irq_is_enabled c b s))"
proof (cases "irq_get_level c a = 2")
  case True
  then have l: "unat (irq_from_level_2 c a) < 32" using a by (auto simp: irq_valid_def)
  have mask: "xlnx_intc_irq_get_enabled c (xlnx_intc_irq_enable c (irq_from_level_2 c a) i) =
      xlnx_intc_irq_get_enabled c i OR BIT (unat (irq_from_level_2 c a))"
    "xlnx_intc_irq_get_enabled c (xlnx_intc_irq_disable c (irq_from_level_2 c a) i) =
      xlnx_intc_irq_get_enabled c i AND NOT (BIT (unat (irq_from_level_2 c a)))" for i
    using ok l by (auto simp: intc_ok_def)
  show ?thesis
    using True l b mext_bit [of "unat b"]
    by (auto simp: arch_irq_enable_def arch_irq_disable_def Let_def is_enabled_bit [OF a] is_enabled_bit [OF b]
        mask same_line_def irq_valid_def bit_simps RISCV_IRQ_MEXT_def word_unat_eq_iff [of b]
        word_unat_eq_iff [of "irq_from_level_2 c a"])
next
  case False
  then have l: "irq_get_level c a = 1" "unat a < 32" using a by (auto simp: irq_valid_def)
  show ?thesis
    using False l b
    by (auto simp: arch_irq_enable_def arch_irq_disable_def Let_def is_enabled_bit [OF a] is_enabled_bit [OF b]
        irq_bit_def same_line_def irq_valid_def bit_simps RISCV_IRQ_MEXT_def word_unat_eq_iff [of a])
qed

section \<open>The fatal error handler\<close>

text \<open>The three fields of the exception frame the handler reads.\<close>

record arch_esf =
  mepc :: u32
  esf_mstatus :: u32
  a0 :: u32

record fatal_state =
  vex_fatal_scratch :: "u32 list"
  fatal_mie :: bool
  evicted :: "u32 list"

definition fatal_captured :: "fatal_state \<Rightarrow> bool" where
  "fatal_captured s \<longleftrightarrow> drop_bit 16 (vex_fatal_scratch s ! 0) = 0xFA7A"

definition fatal_words :: "u32 \<Rightarrow> arch_esf option \<Rightarrow> u32 list" where
  "fatal_words reason esf = [0xFA7A0000 OR (reason AND 0xFFFF),
     case esf of Some e \<Rightarrow> mepc e | None \<Rightarrow> 0xDEADBEEF,
     case esf of Some e \<Rightarrow> esf_mstatus e | None \<Rightarrow> 0xDEADBEEF,
     case esf of Some e \<Rightarrow> a0 e | None \<Rightarrow> 0xDEADBEEF]"

text \<open>
  The state in which the handler spins for ever. \<open>evicted\<close> lists the addresses read to push the
  scratch line out of the cache; a further fault enters the handler again from there.
\<close>

definition FATAL_EVICT_WORDS :: nat where "FATAL_EVICT_WORDS = 32768"

definition k_sys_fatal_error_handler :: "u32 \<Rightarrow> arch_esf option \<Rightarrow> fatal_state \<Rightarrow> fatal_state" where
  "k_sys_fatal_error_handler reason esf s =
     (let s = s\<lparr>fatal_mie := False\<rparr>;
          s = (if drop_bit 16 (vex_fatal_scratch s ! 0) \<noteq> 0xFA7A
               then s\<lparr>vex_fatal_scratch := fatal_words reason esf\<rparr> else s)
      in s\<lparr>evicted := evicted s @ map (\<lambda>i. 0x91000000 + 4 * of_nat i) [0..<FATAL_EVICT_WORDS]\<rparr>)"

definition faults :: "(u32 \<times> arch_esf option) list \<Rightarrow> fatal_state \<Rightarrow> fatal_state" where
  "faults fs s = foldl (\<lambda>s (reason, esf). k_sys_fatal_error_handler reason esf s) s fs"

lemma magic_kept: "drop_bit 16 (0xFA7A0000 OR (reason AND 0xFFFF) :: u32) = 0xFA7A"
proof (rule bit_word_eqI)
  fix n assume "n < LENGTH(32)"
  have "drop_bit 16 (0xFA7A0000 :: u32) = 0xFA7A" by simp
  moreover have "\<not> bit (drop_bit 16 (reason AND 0xFFFF)) n"
  proof -
    have "(0xFFFF :: u32) = mask 16" by (simp add: mask_numeral)
    then show ?thesis by (simp add: bit_simps)
  qed
  ultimately show "bit (drop_bit 16 (0xFA7A0000 OR (reason AND 0xFFFF) :: u32)) n = bit (0xFA7A :: u32) n"
    by (metis bit_or_iff drop_bit_or)
qed

lemma captured_stays:
  "fatal_captured s \<Longrightarrow> vex_fatal_scratch (faults fs s) = vex_fatal_scratch s"
proof (induction fs arbitrary: s)
  case (Cons f fs)
  obtain reason esf where f: "f = (reason, esf)" by (cases f)
  have same: "vex_fatal_scratch (k_sys_fatal_error_handler reason esf s) = vex_fatal_scratch s"
    using Cons(2) by (simp add: k_sys_fatal_error_handler_def fatal_captured_def)
  have "fatal_captured (k_sys_fatal_error_handler reason esf s)"
    using Cons(2) unfolding fatal_captured_def same .
  with Cons(1) [of "k_sys_fatal_error_handler reason esf s"] show ?case by (simp add: faults_def f same)
qed (simp add: faults_def)

text \<open>The cached range of the memory.\<close>

definition cached_ddr :: "u32 \<Rightarrow> bool" where
  "cached_ddr a \<longleftrightarrow> 0x90000000 \<le> a \<and> a < 0x98000000"

lemma evict_range:
  assumes "i < FATAL_EVICT_WORDS"
  shows "cached_ddr (0x91000000 + 4 * of_nat i)"
proof -
  have i: "i < 32768" using assms by (simp add: FATAL_EVICT_WORDS_def)
  have "(0x91000000 + 4 * of_nat i :: u32) = of_nat (0x91000000 + 4 * i)" by simp
  then have "unat (0x91000000 + 4 * of_nat i :: u32) = 0x91000000 + 4 * i" using i by (simp only: unat_of_nat32)
  then show ?thesis using i by (simp add: cached_ddr_def word_le_nat_alt word_less_nat_alt)
qed

definition evict_ok :: "fatal_state \<Rightarrow> bool" where
  "evict_ok s \<longleftrightarrow> (\<forall>a \<in> set (evicted s). cached_ddr a)"

text \<open>C36: the scratch words describe the first fault, however many follow it while the handler spins:
  reason, program counter, status and first argument, with the magic in the upper half word;
  interrupts are off, and every address read to evict them is in the cached range.\<close>

theorem first_fault_recorded:
  assumes "\<not> fatal_captured s" and "evicted s = []"
  shows "vex_fatal_scratch (faults ((reason, esf) # fs) s) = fatal_words reason esf \<and>
    fatal_captured (faults ((reason, esf) # fs) s) \<and> \<not> fatal_mie (faults ((reason, esf) # fs) s) \<and>
    (\<forall>a \<in> set (evicted (faults ((reason, esf) # fs) s)). cached_ddr a)"
proof -
  let ?s = "k_sys_fatal_error_handler reason esf s"
  have first: "vex_fatal_scratch ?s = fatal_words reason esf"
    using assms(1) by (simp add: k_sys_fatal_error_handler_def fatal_captured_def)
  have cap: "fatal_captured ?s" by (simp add: fatal_captured_def first fatal_words_def magic_kept)
  have split: "faults ((reason, esf) # fs) s = faults fs ?s" by (simp add: faults_def)
  have step: "\<not> fatal_mie (k_sys_fatal_error_handler r e t) \<and> evict_ok (k_sys_fatal_error_handler r e t)"
    if "evict_ok t" for r e t
    using that evict_range by (auto simp: evict_ok_def k_sys_fatal_error_handler_def Let_def)
  have off: "\<not> fatal_mie (faults fs t) \<and> evict_ok (faults fs t)" if "\<not> fatal_mie t" "evict_ok t" for t
    using that
  proof (induction fs arbitrary: t)
    case (Cons f fs)
    then show ?case using step [of t "fst f" "snd f"] by (simp add: faults_def split_beta)
  qed (simp add: faults_def)
  have "evict_ok s" using assms(2) by (simp add: evict_ok_def)
  then have "\<not> fatal_mie (faults fs ?s) \<and> evict_ok (faults fs ?s)" using off step by blast
  then show ?thesis
    using captured_stays [OF cap, of fs] first cap
    unfolding split fatal_captured_def evict_ok_def by simp
qed

end
