(* ===== verification/ProvScenarios.thy ===== *)
theory ProvScenarios
  imports ProvThread
begin

text \<open>
  Concrete runs of the provisioning code: the small configuration of the \<open>Boot\<close> theory with
  frames of up to 78 bytes, a CRC that is constantly 0, a network interface that accepts every
  call, a host that waits, and a board at 192.168.1.10/24.
\<close>

definition prov_kconfig :: kconfig where
  "prov_kconfig = tiny_kconfig\<lparr>net_eth_max_frame_size := 78\<rparr>"

definition prov_ctx :: pctx where
  "prov_ctx = \<lparr>pc = quiet_ctx\<lparr>kc := prov_kconfig\<rparr>, crc32_ieee = (\<lambda>_. 0), net_ok = (\<lambda>_ _. True), net_up = 0,
     host = (\<lambda>_ m. m)\<rparr>"

definition prov_driver :: emz where
  "prov_driver = demo_tx\<lparr>dat := demo_tx_data\<lparr>tx_buffer :=
     map (\<lambda>i. \<lparr>txb_addr = 0x9f000000 + of_nat (128 * i), txb_bytes = replicate 78 0\<rparr>) [0..<32]\<rparr>\<rparr>"

lemma prov_ctx_ok: "tx_ready prov_ctx" "drv_ok prov_ctx prov_driver" "host_quiet prov_ctx" "net_accepts prov_ctx"
  using demo_tx_ok(1-3)
  by (auto simp: tx_ready_def drv_ok_def prov_ctx_def prov_kconfig_def prov_driver_def demo_tx_def
      demo_tx_data_def emz_rx_direct_enabled_def engine_ok_def quiet_env_def demo_config_def
      tx_inv_def tx_bufs_ok_def data_zero_def linked_ring_def host_quiet_def net_accepts_def)

definition demo_request :: prov_message where
  "demo_request = \<lparr>m_version = 1, m_op = 3, m_status = 0, m_prefix = 24, m_xid = 7,
     m_mac = [2, 0, 0, 0, 0, 1], m_ip = [192, 168, 1, 20], m_gateway = [192, 168, 1, 1], m_token = 9\<rparr>"

definition demo_prov :: prov_data where
  "demo_prov = \<lparr>prov_iface = True, prov_addr = [192, 168, 1, 10], prov_addr_installed = True,
     prov_gateway = [0, 0, 0, 0], prov_prefix = 24, prov_token = 9, prov_xid = 7,
     prov_mac = [2, 0, 0, 0, 0, 1], last_applied_epoch = 1, armed = True\<rparr>"

definition demo_mailbox :: emacz_jtag_mailbox where
  "demo_mailbox = \<lparr>jm_magic = EMACZ_JTAG_MAILBOX_MAGIC, jm_epoch = 2, jm_ip = 0xc0a80114,
     jm_gateway = 0xc0a80101, jm_prefix = 0x118, jm_reserved = 0, jm_ack_epoch = 1, jm_status = 0\<rparr>"

definition demo_psys :: psys where
  "demo_psys = \<lparr>pv = demo_prov, mailbox = demo_mailbox, mb_accesses = 0,
     net_tr = [(Net_addr_add [192, 168, 1, 10], True)], drv = prov_driver\<rparr>"

lemma demo_usable:
  "addr_is_usable [192, 168, 1, 10] 24 [0, 0, 0, 0]" "addr_is_usable [192, 168, 1, 20] 24 [192, 168, 1, 1]"
  by code_simp+

lemma demo_psys_inv: "prov_inv demo_psys" "drv demo_psys = prov_driver"
  using demo_usable by (auto simp: prov_inv_def demo_psys_def demo_prov_def prov_sizes_def)

lemma demo_request_ok: "msg_ok demo_request" "m_version demo_request = PROV_VERSION"
  by (simp_all add: msg_ok_def demo_request_def PROV_VERSION_def)

lemma message_round_trip_witness:
  "decode_message (\<lambda>_. 0) (encode_message (\<lambda>_. 0) demo_request) = Some demo_request"
  using message_round_trip [OF demo_request_ok] by simp

lemma ipv4_checksum_verifies_witness:
  "\<exists>ck. ipv4_checksum [0x45, 0, 0, 0, 0, 64] = Some ck \<and>
     ipv4_checksum (blit [0x45, 0, 0, 0, 0, 64] 2 (be16 ck)) = Some 0"
  using ipv4_checksum_verifies [of "[0x45, 0, 0, 0, 0, 64]" 2] by simp

lemma response_frame_valid_witness:
  "\<exists>frame. response_frame (\<lambda>_. 0) demo_prov PROV_ACK PROV_OK 7 = Some frame \<and> length frame = 78"
  using response_frame_valid [of demo_prov "\<lambda>_. 0" PROV_ACK PROV_OK 7] by (auto simp: prov_sizes_def demo_prov_def)


lemma demo_pending: "mailbox_pending demo_psys"
  by (simp add: mailbox_pending_def demo_psys_def demo_mailbox_def demo_prov_def)

lemma mailbox_request_served_once_witness:
  "\<exists>s' s''. poll_jtag_mailbox prov_ctx demo_psys = Some s' \<and> jm_ack_epoch (mailbox s') = 2 \<and>
     poll_jtag_mailbox prov_ctx s' = Some s'' \<and> pv s'' = pv s'"
  using mailbox_request_served_once [OF prov_ctx_ok(3) demo_psys_inv(1) demo_pending]
  by (auto simp: demo_psys_def demo_mailbox_def)

lemma mailbox_prefix_truncated_witness:
  "jm_prefix (mailbox demo_psys) = 280 \<and>
   (\<exists>s'. poll_jtag_mailbox prov_ctx demo_psys = Some s' \<and> jm_status (mailbox s') = 0 \<and> prov_prefix (pv s') = 24)"
proof -
  have "be32 0xc0a80114 = [192, 168, 1, 20]" "be32 0xc0a80101 = [192, 168, 1, 1]" by code_simp+
  then have "be32 (jm_ip (mailbox demo_psys)) = [192, 168, 1, 20]" "be32 (jm_gateway (mailbox demo_psys)) = [192, 168, 1, 1]"
    "(ucast (jm_prefix (mailbox demo_psys)) :: u8) = 24" "jm_prefix (mailbox demo_psys) = 280"
    by (simp_all add: demo_psys_def demo_mailbox_def)
  moreover have e: "(280 :: u8) = 24" by simp
  moreover have "addr_is_usable [192, 168, 1, 20] 280 [192, 168, 1, 1]"
    unfolding e by (rule demo_usable(2))
  ultimately have "\<exists>s'. poll_jtag_mailbox prov_ctx demo_psys = Some s' \<and> jm_status (mailbox s') = 0 \<and>
      prov_prefix (pv s') = 280"
    using mailbox_prefix_truncated [OF prov_ctx_ok(3) demo_psys_inv(1) demo_pending prov_ctx_ok(4)] by auto
  then show ?thesis
    unfolding e using \<open>jm_prefix (mailbox demo_psys) = 280\<close> by blast
qed

lemma config_needs_token_witness:
  "\<exists>s'. serve_request prov_ctx demo_request demo_psys = Some s' \<and> prov_token (pv demo_psys) \<noteq> 0 \<and>
     prov_token (pv s') = 0"
proof -
  have "drv_ok prov_ctx (drv demo_psys)" using prov_ctx_ok(2) demo_psys_inv(2) by simp
  then obtain s' where s': "serve_request prov_ctx demo_request demo_psys = Some s'"
    "prov_addr (pv s') = [192, 168, 1, 20]"
    using authorised_config_installs [OF prov_ctx_ok(1) demo_psys_inv(1) _ prov_ctx_ok(4) _ _ _ _ _ demo_request_ok(1)]
      demo_usable(2)
    by (auto simp: demo_request_def demo_psys_def demo_prov_def)
  moreover have "prov_addr (pv demo_psys) = [192, 168, 1, 10]" by (simp add: demo_psys_def demo_prov_def)
  ultimately show ?thesis
    using config_needs_token [OF demo_psys_inv(1) demo_request_ok(1) s'(1)] by auto
qed

definition demo_discover :: prov_message where
  "demo_discover = demo_request\<lparr>m_op := 1, m_token := 0\<rparr>"

lemma handshake_installs_witness:
  "\<exists>s1 s2. serve_request prov_ctx demo_discover demo_psys = Some s1 \<and>
     serve_request prov_ctx (demo_request\<lparr>m_token := prov_token (pv s1)\<rparr>) s1 = Some s2 \<and>
     prov_addr (pv s2) = [192, 168, 1, 20]"
proof -
  have d: "drv_ok prov_ctx (drv demo_psys)" using prov_ctx_ok(2) demo_psys_inv(2) by simp
  have "msg_ok demo_discover" by (simp add: msg_ok_def demo_discover_def demo_request_def)
  then obtain s1 where s1: "serve_request prov_ctx demo_discover demo_psys = Some s1"
    using serve_request_ok [OF prov_ctx_ok(1) demo_psys_inv(1) d] by blast
  have "\<exists>s2. serve_request prov_ctx (demo_request\<lparr>m_token := prov_token (pv s1)\<rparr>) s1 = Some s2 \<and>
      prov_addr (pv s2) = m_ip (demo_request\<lparr>m_token := prov_token (pv s1)\<rparr>)"
    using handshake_installs [OF prov_ctx_ok(1) demo_psys_inv(1) d prov_ctx_ok(4) _ s1,
        of "demo_request\<lparr>m_token := prov_token (pv s1)\<rparr>"] demo_usable(2)
    by (auto simp: demo_discover_def demo_request_def demo_psys_def demo_prov_def msg_ok_def)
  with s1 show ?thesis by (simp add: demo_request_def)
qed


lemma provision_start_establishes_witness:
  "\<exists>ret s. emacz_provision_start prov_ctx True (Some [2, 0, 0, 0, 0, 1]) \<lparr>pv = prov_zero, mailbox = demo_mailbox,
      mb_accesses = 0, net_tr = [], drv = prov_driver\<rparr> = Some (ret, s) \<and>
    emacz_provision_get_ipv4 True s = Some [169, 254, 128, 1]"
  using provision_start_establishes [of "[2, 0, 0, 0, 0, 1]" prov_ctx prov_driver demo_mailbox] prov_ctx_ok(2)
  by (auto simp: bootstrap_addr_def not_end_def)

lemma prov_reach_safe_witness: "\<exists>s s'. prov_reach prov_ctx s \<and> provision_thread_step prov_ctx s = Some s'"
proof -
  obtain ret s where "emacz_provision_start prov_ctx True (Some [2, 0, 0, 0, 0, 1]) \<lparr>pv = prov_zero,
      mailbox = demo_mailbox, mb_accesses = 0, net_tr = [], drv = prov_driver\<rparr> = Some (ret, s)"
    using provision_start_ok [of "[2, 0, 0, 0, 0, 1]" prov_ctx prov_driver demo_mailbox] prov_ctx_ok(2) by auto
  then have "prov_reach prov_ctx s"
    by (rule prov_reach.start [rotated 2]) (simp_all add: prov_ctx_ok)
  then show ?thesis using prov_reach_safe [OF prov_ctx_ok(1)] by blast
qed

end
