(* ===== verification/AppScenarios.thy ===== *)
theory AppScenarios
  imports AppMain SinkSeqlock Smoke Soc ProvScenarios
begin

text \<open>
  Concrete runs of the application, the SoC glue and the smoke test: frames addressed to a
  board with the MAC address 02:00:00:00:00:01, a clock that counts its own reads, a benchmark
  with a peer in the ARP table, and a two-level interrupt tree.
\<close>

section \<open>Received datagrams\<close>

abbreviation demo_hw :: "u8 list" where "demo_hw \<equiv> [2, 0, 0, 0, 0, 1]"

text \<open>A frame for the board with the first \<open>n\<close> bytes of a payload.\<close>

definition demo_frame :: "u32 \<Rightarrow> u32 \<Rightarrow> u8 list \<Rightarrow> u8 list" where
  "demo_frame n port bytes = bench_bytes demo_hw [2, 0, 0, 0, 0, 2] [192, 168, 1, 10] [192, 168, 1, 20]
     n port 0 0 (bytes @ replicate (1472 - length bytes) 0)"

lemma demo_frame_ok:
  assumes "unat n = length bytes" and "length bytes \<le> 1472"
  shows "length (demo_frame n port bytes) = 42 + unat n"
    and "udp_view (demo_frame n port bytes) (42 + unat n) = Some (ucast port, bytes)"
    and "take 6 (demo_frame n port bytes) = demo_hw"
  using udp_view_bench(1,3) [OF demo_frame_def, of n bytes port] assms
  by (simp_all add: demo_frame_def bench_bytes_def)



section \<open>The sink's sequence word\<close>

theorem sink_reader_consistent_witness:
  "\<exists>k \<le> 1. holds_sink (sink_memory_at [Sink_packet 5 100] (\<lambda>_. 0) 9) (fold sink_apply (take k [Sink_packet 5 100]) perf_zero)"
proof -
  have h: "holds_sink (\<lambda>_. 0) perf_zero" by (simp add: holds_sink_def perf_zero_def join64_def)
  have n: "sink_stores [Sink_packet 5 100] (\<lambda>_. 0) = 9"
    by (simp add: sink_stores_def sink.part_def Let_def put64_def join64_def store_def)
  have e: "even (sink_memory_at [Sink_packet 5 100] (\<lambda>_. 0) 9 128)"
    by (simp add: sink_memory_at_def sink.at_def sink.part_def Let_def put64_def join64_def store_def)
  have "\<exists>k \<le> length [Sink_packet 5 100]. \<forall>t. 9 \<le> t \<and> t \<le> 9 \<longrightarrow>
      holds_sink (sink_memory_at [Sink_packet 5 100] (\<lambda>_. 0) t) (fold sink_apply (take k [Sink_packet 5 100]) perf_zero)"
    by (rule sink_reader_consistent [OF h]) (use n e in simp_all)
  then show ?thesis by auto
qed

section \<open>The benchmark\<close>

text \<open>Every clock read is one cycle after the one before.\<close>

definition bench_ctx :: ctx where
  "bench_ctx = quiet_ctx\<lparr>kc := tiny_kconfig\<lparr>net_eth_max_frame_size := 1518\<rparr>,
     env_of := quiet_env\<lparr>clk := of_nat\<rparr>\<rparr>"

definition bench_driver :: emz where
  "bench_driver = demo_tx\<lparr>dat := demo_tx_data\<lparr>tx_buffer :=
     map (\<lambda>i. \<lparr>txb_addr = 0x9f000000 + of_nat (2048 * i), txb_bytes = replicate 1518 0\<rparr>) [0..<32]\<rparr>\<rparr>"

definition demo_net :: bench_net where
  "demo_net = \<lparr>arp_table = [([192, 168, 1, 1], [2, 0, 0, 0, 0, 9]), ([192, 168, 1, 20], [2, 0, 0, 0, 0, 2])],
     link_addr = Some demo_hw, local_ip = Some [192, 168, 1, 10]\<rparr>"

definition demo_bufs :: bench_bufs where
  "demo_bufs = \<lparr>bench_frame = replicate 1514 0, bench_payload = replicate 1472 7, bench_ip_id = 0xffff\<rparr>"

lemma demo_bufs_ok: "bench_sizes demo_bufs"
  by (simp add: bench_sizes_def demo_bufs_def TX_BENCH_FRAME_MAX_def)

lemma demo_bufs_sel: "bench_ip_id demo_bufs = 0xffff" "take 100 (bench_payload demo_bufs) = replicate 100 7"
  by (simp_all add: demo_bufs_def)

lemma demo_bench_ready: "bench_ready bench_ctx demo_net [192, 168, 1, 20] demo_bufs bench_driver"
  using demo_bufs_ok demo_tx_ok(1-3)
  by (auto simp: bench_ready_def bench_ctx_def bench_driver_def demo_net_def demo_tx_def demo_tx_data_def
      emz_rx_direct_enabled_def engine_ok_def quiet_env_def demo_config_def tx_inv_def tx_bufs_ok_def data_zero_def
      linked_ring_def)

lemma demo_clock: "steady_clock bench_ctx id 10003"
  by (simp add: steady_clock_def bench_ctx_def)

theorem bench_parameters_safe_witness:
  "unat (bench_duration_cycles 100000000 (clamp_bench_args (parse_bench_args None))) = 500000000 \<and>
   unat (bench_pause (bench_delay_us (clamp_bench_args (parse_bench_args (Some '' 30000 1472 15'')))) 32) \<le> 32000000"
proof -
  have d: "unat (duration_ms (clamp_bench_args (parse_bench_args None))) = 5000" by code_simp
  have "unat (100000000 :: u32) \<le> 143165576" by simp
  from bench_parameters_safe [OF this, of 32 None] bench_parameters_safe [OF this, of 32 "Some '' 30000 1472 15''"]
  show ?thesis by (simp add: d)
qed

theorem bench_frame_valid_witness:
  "\<exists>b'. build_tx_bench_frame demo_net [192, 168, 1, 20] 100 5003 demo_bufs = Some (142, b') \<and>
     bench_ip_id b' = 0 \<and> udp_view (take 142 (bench_frame b')) 142 = Some (5003, replicate 100 7)"
  using bench_frame_valid [OF demo_bufs_ok, of 100 demo_net "[192, 168, 1, 20]" "[2, 0, 0, 0, 0, 2]" demo_hw
      "[192, 168, 1, 10]" 5003]
    demo_bufs_sel
  by (auto simp: demo_net_def Let_def)


section \<open>The application\<close>

definition prof_actx :: app_ctx where
  "prof_actx = \<lparr>px = prov_ctx\<lparr>pc := quiet_ctx\<lparr>kc := prov_kconfig\<lparr>cfg_profile := True\<rparr>\<rparr>\<rparr>, raw_uart = False,
     uart_status = (\<lambda>_. 0), uptime = int\<rparr>"

definition fresh_app :: app_state where
  "fresh_app = \<lparr>sys = \<lparr>pv = prov_zero, mailbox = demo_mailbox, mb_accesses = 0, net_tr = [], drv = prov_driver\<rparr>,
     bufs = demo_bufs, out = \<lparr>u_reads = 0, u_sent = []\<rparr>, boot_marker = 0, heartbeat0 = 0, heartbeat1 = 0,
     threads = [], prev_profile = snapshot_zero, prev_irq = 0\<rparr>"

theorem control_commands_witness:
  "\<exists>s'. profile_request 0 prof_actx demo_net [192, 168, 1, 20] (\<lambda>_. 0) 1 0 ''1'' fresh_app = Some (Some ''1'', s') \<and>
     char_of (48 + unat (mode_num (prof_mode (prof (aux (drv (sys s'))))))) = CHR ''1''"
proof -
  have "cfg_profile (kc (drv_ctx prof_actx))" by (simp add: prof_actx_def)
  from control_commands [OF this, where cmd = "CHR ''1''" and s = fresh_app and fuel = 0 and net = demo_net and
      ip = "[192, 168, 1, 20]" and errno_at = "\<lambda>_. 0" and sent = 1 and err = 0 and rest = "[]"]
  show ?thesis by (auto simp: Let_def)
qed

theorem main_start_wires_witness:
  "\<exists>l s'. main_start prof_actx (Some (Some demo_hw)) (True, True, True) fresh_app = Some (l, s') \<and>
     emacz_provision_get_ipv4 True (sys s') = Some (bootstrap_addr demo_hw) \<and> Profile_thread \<in> set (threads s')"
proof -
  have "sys fresh_app = \<lparr>pv = prov_zero, mailbox = demo_mailbox, mb_accesses = 0, net_tr = [], drv = prov_driver\<rparr>"
    by (simp add: fresh_app_def)
  moreover have "drv_ok (px prof_actx) prov_driver"
    using prov_ctx_ok(2) by (simp add: drv_ok_def prof_actx_def prov_ctx_def tx_bufs_ok_def prov_kconfig_def)
  moreover have "cfg_profile (kc (drv_ctx prof_actx))" by (simp add: prof_actx_def)
  ultimately show ?thesis
    using main_start_wires [of fresh_app demo_mailbox prov_driver prof_actx demo_hw "(True, True, True)"] by auto
qed

definition full_net :: net_config where
  "full_net = \<lparr>has_stats = True, has_udp = True, has_icmp = True, has_ipv4 = True, has_filter = True,
     has_ipv4_hook = True, has_local_hook = True\<rparr>"


section \<open>UART, interrupts, faults\<close>

theorem uart_register_line_witness:
  "u_sent (raw_uart_reg True (\<lambda>_. 0) ''RXF'' 0x30 \<lparr>u_reads = 0, u_sent = []\<rparr>) =
     map of_char (''RXF=0x'' @ hex_text 0x30 @ crlf)"
proof -
  have "responsive (\<lambda>_. 0)" by (auto simp: responsive_def)
  then show ?thesis using uart_register_line [where status = "\<lambda>_. 0" and name = "''RXF''" and v = "0x30"
      and u = "\<lparr>u_reads = 0, u_sent = []\<rparr>"] by simp
qed

theorem smoke_turn_returns_witness:
  "\<exists>p. smoke_turn (\<lambda>_. 1) (\<lambda>_. 0x41) 1 \<lparr>polls = 0, rx_reads = 0, outp = []\<rparr> =
     Some (2, \<lparr>polls = p, rx_reads = 1, outp = map of_char ''rx A'' @ map of_char crlf\<rparr>)"
proof -
  have "draining (\<lambda>_. 1)" by (auto simp: draining_def UART_STAT_TX_FULL_def)
  from smoke_turn_returns [OF this, of "\<lambda>_. 0x41" 1 "\<lparr>polls = 0, rx_reads = 0, outp = []\<rparr>"]
  show ?thesis by (simp add: echo_text_def beat_text_def UART_STAT_RX_VALID_def)
qed

text \<open>A controller that is its own mask, and interrupt numbers with the level in bit 8.\<close>

definition demo_soc_ctx :: "u32 soc_ctx" where
  "demo_soc_ctx = \<lparr>irq_get_level = (\<lambda>irq. if bit irq 8 then 2 else 1), irq_from_level_2 = (\<lambda>irq. irq AND 0xff),
     xlnx_intc_irq_enable = (\<lambda>irq m. m OR BIT (unat irq)), xlnx_intc_irq_disable = (\<lambda>irq m. m AND NOT (BIT (unat irq))),
     xlnx_intc_irq_get_enabled = id, xlnx_intc_irq_pending = id, xlnx_intc_irq_pending_vector = id,
     irq_unlock = (\<lambda>key m. m OR (key AND MSTATUS_IEN))\<rparr>"

theorem irq_lines_independent_witness:
  "\<exists>s1. arch_irq_enable demo_soc_ctx 0x103 \<lparr>mie = 0, mstatus = 0, intc = 0\<rparr> = Some s1 \<and>
     arch_irq_is_enabled demo_soc_ctx 0x103 s1 = Some True \<and>
     arch_irq_is_enabled demo_soc_ctx 0x104 s1 = arch_irq_is_enabled demo_soc_ctx 0x104 \<lparr>mie = 0, mstatus = 0, intc = 0\<rparr>"
proof -
  have ok: "intc_ok demo_soc_ctx" by (simp add: intc_ok_def demo_soc_ctx_def)
  have b: "bit (0x103 :: u32) 8" "bit (0x104 :: u32) 8" by simp_all
  have v: "irq_valid demo_soc_ctx 0x103" "irq_valid demo_soc_ctx 0x104"
    using b by (simp_all add: irq_valid_def demo_soc_ctx_def)
  have "\<not> same_line demo_soc_ctx 0x103 0x104" "irq_get_level demo_soc_ctx 0x104 = 2"
    using b by (simp_all add: same_line_def demo_soc_ctx_def)
  with irq_lines_independent [OF ok v, of "\<lparr>mie = 0, mstatus = 0, intc = 0\<rparr>"] show ?thesis by auto
qed

theorem first_fault_recorded_witness:
  "vex_fatal_scratch (faults [(2, Some \<lparr>mepc = 0x80, esf_mstatus = 3, a0 = 4\<rparr>), (5, None)]
     \<lparr>vex_fatal_scratch = [0, 0, 0, 0], fatal_mie = True, evicted = []\<rparr>) = [0xFA7A0002, 0x80, 3, 4]"
  using first_fault_recorded [of "\<lparr>vex_fatal_scratch = [0, 0, 0, 0], fatal_mie = True, evicted = []\<rparr>" 2
      "Some \<lparr>mepc = 0x80, esf_mstatus = 3, a0 = 4\<rparr>" "[(5, None)]"]
  by (simp add: fatal_captured_def fatal_words_def)

end
