(* ===== verification/GenericDma.thy ===== *)
theory GenericDma
  imports RxSystem Init
begin

text \<open>
  The receive path of \<^verbatim>\<open>drivers/ethernet/eth_emaczero.c\<close> in a build or on a device without
  the direct ring: buffers are posted one by one through Zephyr's DMA API
  (\<^verbatim>\<open>emz_refill_dma_rx\<close>, \<^verbatim>\<open>emz_queue_dma_rx_buffer\<close>), wait on \<^verbatim>\<open>rx_dma_fifo\<close>, and
  \<^verbatim>\<open>emz_dma_rx_callback\<close> takes the oldest one on each completion. \<open>dma_inv\<close> says who owns
  which buffer here. The worker is the one of RxWorker: its rounds are safe because this pool
  keeps the contract \<open>rx_pool\<close> too. What the DMA driver answers is a parameter; posting may
  fail, but a buffer once posted must start, and the last theorem shows why.
\<close>

section \<open>The pool behind the generic DMA API\<close>

definition dma_starts :: "ctx \<Rightarrow> bool" where
  "dma_starts c \<longleftrightarrow> (\<forall>n. ext (env_of c) Ext_dma_start_rx n = 0)"

definition generic_ok :: "ctx \<Rightarrow> bool" where
  "generic_ok c \<longleftrightarrow> \<not> emz_rx_direct_enabled c \<and> kconfig_ok (kc c) \<and> dma_starts c"

definition dma_inv :: "ctx \<Rightarrow> nat list \<Rightarrow> nat list \<Rightarrow> nat list \<Rightarrow> emaczero_data \<Rightarrow> bool" where
  "dma_inv c W K H d \<longleftrightarrow>
     length (rx_buffer d) = rx_count c \<and>
     (\<forall>b \<in> set (rx_buffer d). length (rxb_bytes b) = net_eth_max_frame_size (kc c)) \<and>
     mset (rx_free_fifo d) + mset (rx_dma_fifo d) + mset (rx_ready_fifo d) + mset W + mset K + mset H
       = mset [0..<rx_count c] \<and>
     length (rx_dma_fifo d) \<le> rx_dma_post_count (kc c) \<and>
     rx_dma_inflight d = of_nat (length (rx_dma_fifo d)) \<and>
     rx_free_count d = of_nat (length (rx_free_fifo d)) \<and>
     rx_dma_fifo_count d = of_nat (length (rx_dma_fifo d)) \<and>
     rx_ready_fifo_count d = of_nat (length (rx_ready_fifo d)) \<and>
     rx_worker_count d = of_nat (length W) \<and>
     rx_stack_owned_count d = of_nat (length K)"

lemma dma_inv_owned:
  assumes "dma_inv c W K H d"
  shows "set (rx_free_fifo d @ rx_dma_fifo d @ rx_ready_fifo d @ W @ K @ H) = {0..<rx_count c}"
    and "length (rx_free_fifo d @ rx_dma_fifo d @ rx_ready_fifo d @ W @ K @ H) = rx_count c"
proof -
  have m: "mset (rx_free_fifo d @ rx_dma_fifo d @ rx_ready_fifo d @ W @ K @ H) = mset [0..<rx_count c]"
    using assms by (simp add: dma_inv_def add.assoc)
  show "set (rx_free_fifo d @ rx_dma_fifo d @ rx_ready_fifo d @ W @ K @ H) = {0..<rx_count c}"
    using mset_eq_setD [OF m] by simp
  show "length (rx_free_fifo d @ rx_dma_fifo d @ rx_ready_fifo d @ W @ K @ H) = rx_count c"
    using mset_eq_length [OF m] by simp
qed

lemma dma_upd_rx_inv:
  assumes "dma_inv c W K H d" and "\<And>b. length (rxb_bytes (f b)) = length (rxb_bytes b)"
  shows "dma_inv c W K H (upd_rx rx f d)"
proof -
  have "length (rxb_bytes b) = net_eth_max_frame_size (kc c)" if "b \<in> set (rx_buffer (upd_rx rx f d))" for b
    using set_upd_rx [OF that] assms by (auto simp: dma_inv_def)
  then show ?thesis using assms(1) by (simp add: dma_inv_def upd_rx_def)
qed

lemma dma_inv_other [simp]:
  "dma_inv c W K H (d\<lparr>last_dma_callback_cycle := t\<rparr>) = dma_inv c W K H d"
  "dma_inv c W K H (d\<lparr>dma_is_configured_rx := b\<rparr>) = dma_inv c W K H d"
  by (simp_all add: dma_inv_def)

section \<open>Posting\<close>

text \<open>Posting a buffer has one effect or none.\<close>

lemma queue_buffer_cases:
  assumes "dma_starts c" and "emz_queue_dma_rx_buffer c rx s = (ret, s')"
  shows "ret \<noteq> 0 \<and> dat s' = dat s \<or>
    ret = 0 \<and> (\<exists>b. dat s' = (dat s)\<lparr>rx_dma_fifo := rx_dma_fifo (dat s) @ [rx],
      rx_dma_fifo_count := rx_dma_fifo_count (dat s) + 1, dma_is_configured_rx := b\<rparr>)"
proof -
  have start: "ext_ret c Ext_dma_start_rx t = 0" for t using assms(1) by (simp add: dma_starts_def ext_ret_def)
  show ?thesis
    using assms(2)
    by (auto simp: emz_queue_dma_rx_buffer_def Let_def start split: if_splits
        intro!: exI [of _ True] emaczero_data.equality)
qed

lemma post_next_inv:
  assumes "dma_inv c W K H d" and "rx_free_fifo d = rx # rest"
    and "length (rx_dma_fifo d) < rx_dma_post_count (kc c)"
  shows "dma_inv c W K H (d\<lparr>rx_free_fifo := rest, rx_free_count := rx_free_count d - 1,
     rx_dma_fifo := rx_dma_fifo d @ [rx], rx_dma_fifo_count := rx_dma_fifo_count d + 1,
     rx_dma_inflight := rx_dma_inflight d + 1\<rparr>)"
  using assms by (simp add: dma_inv_def add.commute)

lemma post_back_inv:
  assumes "dma_inv c W K H d" and "rx_free_fifo d = rx # rest"
  shows "dma_inv c W K H (d\<lparr>rx_free_fifo := rest @ [rx]\<rparr>)"
  using assms by (simp add: dma_inv_def)

lemma room_left:
  assumes "generic_ok c" and "dma_inv c W K H d"
    and "\<not> of_nat (rx_dma_post_count (kc c)) \<le> rx_dma_inflight d"
  shows "length (rx_dma_fifo d) < rx_dma_post_count (kc c)"
proof -
  have "rx_dma_post_count (kc c) \<le> 255" "length (rx_dma_fifo d) \<le> 255"
    using assms(1,2) by (auto simp: generic_ok_def kconfig_ok_def dma_inv_def)
  then show ?thesis using assms(2,3) by (simp add: dma_inv_def word_le_nat_alt unat_of_nat)
qed

lemma legacy_loop_inv:
  assumes "generic_ok c" and "dma_inv c W K H (dat s)"
  shows "dma_inv c W K H (dat (snd (legacy_refill_loop c queued s)))"
  using assms
proof (induction c queued s rule: legacy_refill_loop.induct)
  case (1 c queued s)
  let ?t = "legacy_claim c s"
  show ?case
  proof (cases "of_nat (rx_dma_post_count (kc c)) \<le> rx_dma_inflight (dat s)")
    case True
    with 1(3) show ?thesis by (simp add: legacy_refill_loop.simps [of c queued s])
  next
    case full: False
    note room = room_left [OF 1(2,3) full]
    show ?thesis
    proof (cases "rx_free_fifo (dat s)")
      case Nil
      with full 1(3) show ?thesis by (simp add: legacy_refill_loop.simps [of c queued s])
    next
      case (Cons rx rest)
      obtain ret s1 where q: "emz_queue_dma_rx_buffer c rx (legacy_take c rest ?t) = (ret, s1)"
        by (cases "emz_queue_dma_rx_buffer c rx (legacy_take c rest ?t)")
      have starts: "dma_starts c" using 1(2) by (simp add: generic_ok_def)
      note cases = queue_buffer_cases [OF starts q]
      show ?thesis
      proof (cases "ret = 0")
        case True
        then have next_inv: "dma_inv c W K H (dat (legacy_note_queued c s1))"
          using cases post_next_inv [OF 1(3) Cons room] by (auto simp: dma_inv_def)
        have "rx_free_fifo (dat ?t) = rx # rest" using Cons by simp
        from 1(1) [OF full this q [symmetric] _ 1(2) next_inv] show ?thesis
          using True full Cons q by (simp add: legacy_refill_loop.simps [of c queued s])
      next
        case False
        then have "dat s1 = dat (legacy_take c rest ?t)" using cases by auto
        then show ?thesis using False full Cons q post_back_inv [OF 1(3) Cons] 1(3)
          by (simp add: legacy_refill_loop.simps [of c queued s] dma_inv_def)
      qed
    qed
  qed
qed

lemma generic_refill_inv:
  assumes ok: "generic_ok c" and inv: "dma_inv c W K H (dat s)"
  shows "dma_inv c W K H (dat (snd (emz_refill_dma_rx c s)))"
proof -
  let ?s = "upd_perf (inc64 Rx_refill_calls) (upd_prof c (emaczero_profile_counter COUNTER_RX_REFILL_CALLS) (tick s))"
  have "dma_inv c W K H (dat (snd (legacy_refill_loop c 0 ?s)))" using legacy_loop_inv [OF ok, of W K H ?s] inv by simp
  then show ?thesis using ok
    by (auto simp: emz_refill_dma_rx_def Let_def generic_ok_def split: prod.split sum.split)
qed

section \<open>Completing and giving back\<close>

lemma generic_release_inv:
  assumes ok: "generic_ok c" and inv: "dma_inv c W K (rx # H) (dat s)"
  shows "dma_inv c W K H (dat (emz_release_rx_buffer c rx s))"
proof -
  have put: "dma_inv c W K H (d\<lparr>rx_free_count := rx_free_count d + 1, rx_free_fifo := rx_free_fifo d @ [rx]\<rparr>)"
    if "dma_inv c W K (rx # H) d" for d
    using that by (simp add: dma_inv_def add.commute)
  have clear: "dma_inv c W K (rx # H) (d\<lparr>rx_buffer := (rx_buffer d)[rx :=
      (rx_buffer d ! rx)\<lparr>rxb_stack_handoff_cycle := 0\<rparr>]\<rparr>)" if "dma_inv c W K (rx # H) d" for d
    using dma_upd_rx_inv [OF that, of "\<lambda>b. b\<lparr>rxb_stack_handoff_cycle := 0\<rparr>" rx] by (simp add: upd_rx_def)
  show ?thesis
    using inv put [OF inv] put [OF clear [OF inv]]
    by (simp add: emz_release_rx_buffer_def Let_def generic_refill_inv [OF ok])
qed

lemma dma_inv_moves:
  "dma_inv c (rx # W) K H d \<Longrightarrow> dma_inv c W K (rx # H) (d\<lparr>rx_worker_count := rx_worker_count d - 1\<rparr>)"
  "dma_inv c W (rx # K) H d \<Longrightarrow>
     dma_inv c W K (rx # H) (d\<lparr>rx_stack_owned_count := rx_stack_owned_count d - 1\<rparr>)"
  "dma_inv c (rx # W) K H d \<Longrightarrow> dma_inv c W (rx # K) H (d\<lparr>rx_stack_owned_count := rx_stack_owned_count d + 1,
     rx_worker_count := rx_worker_count d - 1\<rparr>)"
  "dma_inv c W K H d \<Longrightarrow> rx_ready_fifo d = rx # rest \<Longrightarrow>
     dma_inv c (rx # W) K H (d\<lparr>rx_ready_fifo := rest, rx_ready_fifo_count := rx_ready_fifo_count d - 1,
       rx_worker_count := rx_worker_count d + 1\<rparr>)"
  by (simp_all add: dma_inv_def add.commute)

lemma pop_fifo_inv:
  assumes ok: "generic_ok c" and inv: "dma_inv c W K H d" and fifo: "rx_dma_fifo d = rx # rest"
  shows "dma_inv c W K (rx # H) (d\<lparr>rx_dma_fifo := rest, rx_dma_fifo_count := rx_dma_fifo_count d - 1,
      rx_dma_inflight := rx_dma_inflight d - 1\<rparr>)" and "0 < rx_dma_inflight d"
proof -
  show "dma_inv c W K (rx # H) (d\<lparr>rx_dma_fifo := rest, rx_dma_fifo_count := rx_dma_fifo_count d - 1,
      rx_dma_inflight := rx_dma_inflight d - 1\<rparr>)"
    using inv fifo by (simp add: dma_inv_def add.commute)
  have "length (rx_dma_fifo d) \<le> 255" using ok inv by (auto simp: generic_ok_def kconfig_ok_def dma_inv_def)
  then have "unat (rx_dma_inflight d) = Suc (length rest)"
    using inv fifo by (simp add: dma_inv_def unat_of_nat32 del: of_nat_Suc)
  then show "0 < rx_dma_inflight d" by (simp add: word_less_nat_alt)
qed

lemma callback_take_inv:
  assumes ok: "generic_ok c" and inv: "dma_inv c W K H (dat s)" and fifo: "rx_dma_fifo (dat s) = rx # rest"
  shows "dma_inv c W K (rx # H) (dat (snd (callback_take c status rx rest s)))"
proof -
  note pop = pop_fifo_inv [OF ok inv fifo]
  let ?d = "(dat s)\<lparr>rx_dma_fifo := rest, rx_dma_fifo_count := rx_dma_fifo_count (dat s) - 1,
      rx_dma_inflight := rx_dma_inflight (dat s) - 1\<rparr>"
  have commute: "(upd_rx rx f d)\<lparr>rx_dma_inflight := v\<rparr> = upd_rx rx f (d\<lparr>rx_dma_inflight := v\<rparr>)"
    "rx_dma_inflight (upd_rx rx f d) = rx_dma_inflight d" for f d v
    by (simp_all add: upd_rx_def)
  show ?thesis
    using pop by (cases "cfg_profile (kc c)") (simp_all add: callback_take_def Let_def commute dma_upd_rx_inv)
qed

lemma callback_inv:
  assumes ok: "generic_ok c" and inv: "dma_inv c W K H (dat s)"
  shows "dma_inv c W K H (dat (emz_dma_rx_callback c status s))"
proof -
  define s1 where "s1 = upd_prof c (emaczero_profile_counter COUNTER_DMA_CALLBACKS) (upd_perf (inc64 Dma_callbacks)
    (emz_perf_note_dma_callback_gap c (cycle_now c s) (tick s)))"
  have inv1: "dma_inv c W K H (dat s1)" using inv by (simp add: s1_def)
  show ?thesis
  proof (cases "rx_dma_fifo (dat s1)")
    case Nil
    then show ?thesis using inv1 unfolding emz_dma_rx_callback_def Let_def s1_def [symmetric] by simp
  next
    case (Cons rx rest)
    obtain b s2 where t: "callback_take c status rx rest s1 = (b, s2)" by (cases "callback_take c status rx rest s1")
    have inv2: "dma_inv c W K (rx # H) (dat s2)" using callback_take_inv [OF ok inv1 Cons, of status] t by simp
    then have "dma_inv c W K H ((dat s2)\<lparr>rx_ready_fifo_count := rx_ready_fifo_count (dat s2) + 1,
        rx_ready_fifo := rx_ready_fifo (dat s2) @ [rx]\<rparr>)"
      by (simp add: dma_inv_def add.commute)
    then show ?thesis using Cons t inv2 unfolding emz_dma_rx_callback_def Let_def s1_def [symmetric]
      by (simp add: generic_release_inv [OF ok])
  qed
qed

section \<open>The worker on this pool\<close>

lemma generic_lend_inv:
  assumes "dma_inv c (rx # W) K H (dat s)"
  shows "dma_inv c W (rx # K) H (dat (lend c rx s))"
  using dma_inv_moves(3) [OF dma_upd_rx_inv [OF assms, of "\<lambda>b. b\<lparr>rxb_stack_handoff_cycle := cycle_now c s\<rparr>" rx]]
  by (simp add: lend_def Let_def)

lemma generic_from_worker_inv:
  assumes "generic_ok c" and "dma_inv c (rx # W) K H (dat s)"
  shows "dma_inv c W K H (dat (emz_release_rx_buffer_from_worker c rx s))"
  using generic_release_inv [OF assms(1)] dma_inv_moves(1) [OF assms(2)]
  by (simp add: emz_release_rx_buffer_from_worker_def Let_def)

lemma generic_destroy_inv:
  assumes "generic_ok c" and "dma_inv c W (rx # K) H (dat s)"
  shows "dma_inv c W K H (dat (emz_rx_frag_destroy c (Some rx) s))"
  using generic_release_inv [OF assms(1)] dma_inv_moves(2) [OF assms(2)]
  by (simp add: emz_rx_frag_destroy_def Let_def)

lemma generic_held:
  assumes "generic_ok c" and "dma_inv c (rx # W) K H d"
  shows "unat (eth_buffer_size c) \<le> length (rxb_bytes (rx_buffer d ! rx))"
proof -
  have "rx < length (rx_buffer d)" using dma_inv_owned(1) [OF assms(2)] assms(2) by (auto simp: dma_inv_def)
  then show ?thesis using assms by (simp add: dma_inv_def generic_ok_def kconfig_ok_def)
qed

lemma generic_stack:
  assumes "generic_ok c" and "dma_inv c W K H d"
  shows "rx_stack_owned_count d = of_nat (length K) \<and> length K \<le> 256"
  using dma_inv_owned(2) [OF assms(2)] assms by (simp add: dma_inv_def generic_ok_def kconfig_ok_def)

interpretation generic_pool: rx_pool generic_ok dma_inv
  by unfold_locales (rule dma_inv_moves(4) generic_from_worker_inv generic_destroy_inv generic_lend_inv
    generic_held generic_stack | assumption)+

section \<open>The system\<close>

text \<open>
  The engine writes bytes into a posted buffer; the DMA driver reports completions in any
  number and with any status; the worker and the network stack work as before.
\<close>

definition engine_writes :: "nat \<Rightarrow> u8 list \<Rightarrow> emaczero_data \<Rightarrow> emaczero_data" where
  "engine_writes rx bytes d =
     upd_rx rx (\<lambda>b. b\<lparr>rxb_bytes := (if length bytes = length (rxb_bytes b) then bytes else rxb_bytes b)\<rparr>) d"

inductive dma_step :: "ctx \<Rightarrow> emz \<times> nat list \<Rightarrow> emz \<times> nat list \<Rightarrow> bool" for c :: ctx where
  dma_write: "rx \<in> set (rx_dma_fifo (dat s)) \<Longrightarrow> dma_step c (s, K) (upd_dat (engine_writes rx bytes) s, K)"
| dma_callback: "dma_step c (s, K) (emz_dma_rx_callback c status s, K)"
| dma_worker: "emz_rx_thread_step c s = Some (lent, s') \<Longrightarrow> dma_step c (s, K) (s', lent_to lent K)"
| dma_free: "rx \<in> set K \<Longrightarrow> dma_step c (s, K) (emz_rx_frag_destroy c (Some rx) s, remove1 rx K)"

inductive dma_reach :: "ctx \<Rightarrow> emz \<Rightarrow> emz \<times> nat list \<Rightarrow> bool" for c :: ctx and s0 :: emz where
  dma_begin: "dma_reach c s0 (s0, [])"
| dma_go: "dma_reach c s0 x \<Longrightarrow> dma_step c x y \<Longrightarrow> dma_reach c s0 y"

inductive_cases dma_stepE: "dma_step c x y"

definition dma_sys_inv :: "ctx \<Rightarrow> emz \<times> nat list \<Rightarrow> bool" where
  "dma_sys_inv c x \<longleftrightarrow> (case x of (s, K) \<Rightarrow>
     dma_inv c [] K [] (dat s) \<and> length K \<le> rx_max_stack_owned_zerocopy (kc c))"

lemma generic_worker_runs:
  assumes "generic_ok c" and "dma_inv c W K H (dat s)"
  shows "\<exists>lent s'. emz_rx_thread_step c s = Some (lent, s') \<and> dma_inv c W (lent_to lent K) H (dat s') \<and>
    (length K \<le> rx_max_stack_owned_zerocopy (kc c) \<longrightarrow>
       length (lent_to lent K) \<le> rx_max_stack_owned_zerocopy (kc c))"
proof (cases "rx_ready_fifo (dat s)")
  case Nil
  with assms(2) show ?thesis by (simp add: emz_rx_thread_step_def lent_to_def)
next
  case (Cons rx rest)
  from generic_pool.round_accounts [OF assms Cons] show ?thesis by (auto simp: lent_to_def)
qed

lemma dma_sys_inv_step:
  assumes ok: "generic_ok c" and "dma_step c x y" and "dma_sys_inv c x"
  shows "dma_sys_inv c y"
  using assms(2,3)
proof (cases rule: dma_step.cases)
  case (dma_write rx s K bytes)
  then show ?thesis using assms(3) by (simp add: dma_sys_inv_def engine_writes_def dma_upd_rx_inv)
next
  case (dma_callback s K status)
  then show ?thesis using assms(3) callback_inv [OF ok] by (simp add: dma_sys_inv_def)
next
  case (dma_worker s lent s' K)
  then show ?thesis using assms(3) generic_worker_runs [OF ok, of "[]" K "[]" s] by (auto simp: dma_sys_inv_def)
next
  case (dma_free rx K s)
  have "mset (rx # remove1 rx K) = mset K" using dma_free(3) by simp
  then have "dma_inv c [] (rx # remove1 rx K) [] (dat s)"
    using assms(3) dma_free mset_eq_length [of "rx # remove1 rx K" K]
    by (simp add: dma_sys_inv_def dma_inv_def del: remove1.simps)
  from generic_destroy_inv [OF ok this] dma_free assms(3) show ?thesis
    by (auto simp: dma_sys_inv_def length_remove1)
qed

text \<open>Initialisation, whichever memory the buffers come from.\<close>

lemma init_memory_buffers:
  assumes "init_memory c storage m s = (True, m', s')"
  shows "\<exists>ps qs. dat s' = set_tx_addrs qs (set_rx_addrs ps (dat s))"
  using assms by (auto simp: init_memory_def Let_def split: if_splits prod.splits intro!: exI)

lemma generic_init_inv:
  assumes ok: "generic_ok c" and zero: "dat s = data_zero (kc c)" and run: "emz_init c storage m s = (0, m', s')"
  shows "dma_inv c [] [] [] (dat s')"
proof -
  let ?s0 = "init_identity c (snd (emz_read c EMZ_REG_VERSION s))"
  obtain m1 s1 where mem: "init_memory c storage m ?s0 = (True, m1, s1)"
    and dma_run: "init_dma c m1 (init_mac c (init_pool c s1)) = (0, m', s')"
    using run by (auto simp: emz_init_def split: prod.splits if_splits)
  obtain ps qs where d1: "dat s1 = set_tx_addrs qs (set_rx_addrs ps (dat ?s0))"
    using init_memory_buffers [OF mem] by blast
  have bytes: "length (rxb_bytes b) = net_eth_max_frame_size (kc c)" if "b \<in> set (rx_buffer (dat s1))" for b
    using that zero
    by (auto simp: d1 set_tx_addrs_def set_rx_addrs_def emz_read_def Let_def data_zero_def rx_buffer_zero_def
        split: if_splits)
  define s2 where "s2 = init_mac c (init_pool c s1)"
  have "dma_inv c [] [] [] (dat s2)"
    using bytes zero
    by (simp add: dma_inv_def s2_def fill_pool_def d1 set_tx_addrs_def set_rx_addrs_def emz_read_def Let_def data_zero_def)
  then show ?thesis using dma_run generic_refill_inv [OF ok, of "[]" "[]" "[]" s2] ok
    by (auto simp: init_dma_def s2_def [symmetric] generic_ok_def split: if_splits prod.splits)
qed


section \<open>A start that fails\<close>

text \<open>
  \<open>emz_queue_dma_rx_buffer\<close> links the buffer on \<^verbatim>\<open>rx_dma_fifo\<close> before it starts the channel,
  and the refill puts a buffer whose posting failed back on \<^verbatim>\<open>rx_free_fifo\<close>. Both lists are
  intrusive: the link is a field of the buffer.
\<close>

text \<open>
  C24: if the DMA driver accepts the transfer but refuses to start the channel, the refill
  leaves one buffer on both lists, and one more buffer on \<^verbatim>\<open>rx_dma_fifo\<close> than transfers
  counted in flight, so the pool invariant is lost.
\<close>
theorem start_failure_links_twice:
  assumes dma: "cfg_dma (cfg c)" and generic: "\<not> emz_rx_direct_enabled c" and k: "kconfig_ok (kc c)"
    and inv: "dma_inv c W K H (dat s)" and free: "rx_free_fifo (dat s) = rx # rest"
    and room: "length (rx_dma_fifo (dat s)) < rx_dma_post_count (kc c)"
    and accepts: "\<And>a n t. ext (env_of c) (Ext_dma_config_rx a n) t = 0"
      "\<And>a n t. ext (env_of c) (Ext_dma_reload_rx a n) t = 0"
    and refuses: "\<And>t. ext (env_of c) Ext_dma_start_rx t = err" "err \<noteq> 0"
  shows "\<exists>s'. emz_refill_dma_rx c s = (err, s') \<and>
    rx_free_fifo (dat s') = rest @ [rx] \<and> rx_dma_fifo (dat s') = rx_dma_fifo (dat s) @ [rx] \<and>
    rx_dma_fifo_count (dat s') = rx_dma_inflight (dat s') + 1 \<and> \<not> dma_inv c W K H (dat s')"
proof -
  have ret: "ext_ret c (Ext_dma_config_rx a n) t = 0" "ext_ret c (Ext_dma_reload_rx a n) t = 0"
    "ext_ret c Ext_dma_start_rx t = err" for a n t
    using accepts refuses by (simp_all add: ext_ret_def)
  define s1 where "s1 = upd_perf (inc64 Rx_refill_calls)
    (upd_prof c (emaczero_profile_counter COUNTER_RX_REFILL_CALLS) (tick s))"
  have free1: "rx_free_fifo (dat s1) = rx # rest" using free by (simp add: s1_def)
  define t where "t = legacy_take c rest (legacy_claim c s1)"
  have full: "\<not> of_nat (rx_dma_post_count (kc c)) \<le> rx_dma_inflight (dat s1)"
    using k inv room by (simp add: s1_def dma_inv_def kconfig_ok_def word_le_nat_alt unat_of_nat32)
  have queue: "\<exists>s2 b. emz_queue_dma_rx_buffer c rx t = (err, s2) \<and>
      dat s2 = (dat t)\<lparr>rx_dma_fifo := rx_dma_fifo (dat t) @ [rx],
        rx_dma_fifo_count := rx_dma_fifo_count (dat t) + 1, dma_is_configured_rx := b\<rparr>"
    using dma refuses(2)
    by (cases "dma_is_configured_rx (dat t)")
      (auto simp: emz_queue_dma_rx_buffer_def Let_def ret intro!: exI [of _ True] emaczero_data.equality)
  then obtain s2 b where q: "emz_queue_dma_rx_buffer c rx t = (err, s2)"
    and d2: "dat s2 = (dat t)\<lparr>rx_dma_fifo := rx_dma_fifo (dat t) @ [rx],
        rx_dma_fifo_count := rx_dma_fifo_count (dat t) + 1, dma_is_configured_rx := b\<rparr>" by blast
  have "legacy_refill_loop c 0 s1 = (Inl err, legacy_give_back c rx s2)"
    using full free1 q refuses(2) by (simp add: legacy_refill_loop.simps [of c 0 s1] t_def)
  then have run: "emz_refill_dma_rx c s = (err, legacy_give_back c rx s2)"
    using generic by (simp add: emz_refill_dma_rx_def Let_def s1_def)
  have lists: "rx_free_fifo (dat (legacy_give_back c rx s2)) = rest @ [rx]"
    "rx_dma_fifo (dat (legacy_give_back c rx s2)) = rx_dma_fifo (dat s) @ [rx]"
    "rx_dma_fifo_count (dat (legacy_give_back c rx s2)) = rx_dma_inflight (dat (legacy_give_back c rx s2)) + 1"
    using inv by (simp_all add: d2 t_def s1_def dma_inv_def)
  then have "\<not> dma_inv c W K H (dat (legacy_give_back c rx s2))" by (auto simp: dma_inv_def)
  with run lists show ?thesis by blast
qed

section \<open>Concrete runs\<close>

definition plain_ctx :: ctx where
  "plain_ctx = probe_ctx\<lparr>kc := tiny_kconfig\<lparr>cfg_rx_direct_ring := False, dma_memory_size := 0\<rparr>\<rparr>"

lemma plain_sel [simp]:
  "rx_count plain_ctx = 8" "cfg_dma (cfg plain_ctx)" "\<not> emz_rx_direct_enabled plain_ctx"
  "ext_ret plain_ctx x s = 0" "dma_memory_size (kc plain_ctx) = 0" "rx_dma_post_count (kc plain_ctx) = 3"
  by (simp_all add: plain_ctx_def probe_ctx_def demo_config_def emz_rx_direct_enabled_def ext_ret_def quiet_env_def)

lemma plain_ok: "generic_ok plain_ctx"
  using tiny_kconfig_ok
  by (simp add: generic_ok_def dma_starts_def plain_ctx_def probe_ctx_def quiet_env_def kconfig_ok_def
      emz_rx_direct_enabled_def)

lemma plain_queue: "fst (emz_queue_dma_rx_buffer plain_ctx rx s) = 0"
  by (simp add: emz_queue_dma_rx_buffer_def Let_def)

lemma plain_loop: "\<exists>n s'. legacy_refill_loop plain_ctx q s = (Inr n, s') \<and> q \<le> n"
proof (induction "length (rx_free_fifo (dat s))" arbitrary: q s rule: less_induct)
  case less
  show ?case
  proof (cases "of_nat 3 \<le> rx_dma_inflight (dat s)")
    case True
    then show ?thesis by (simp add: legacy_refill_loop.simps [of plain_ctx q s])
  next
    case full: False
    show ?thesis
    proof (cases "rx_free_fifo (dat s)")
      case Nil
      with full show ?thesis by (simp add: legacy_refill_loop.simps [of plain_ctx q s])
    next
      case (Cons rx rest)
      let ?t = "legacy_take plain_ctx rest (legacy_claim plain_ctx s)"
      obtain s1 where q: "emz_queue_dma_rx_buffer plain_ctx rx ?t = (0, s1)"
        using plain_queue [of rx ?t] by (metis prod.collapse)
      have "rx_free_fifo (dat (legacy_note_queued plain_ctx s1)) = rest"
        using queue_dma_rx_buffer_free [of plain_ctx rx ?t] q by simp
      then obtain n s' where "legacy_refill_loop plain_ctx (q + 1) (legacy_note_queued plain_ctx s1) = (Inr n, s')"
        "q + 1 \<le> n" using less [of "legacy_note_queued plain_ctx s1" "q + 1"] Cons by auto
      then show ?thesis using full Cons q by (simp add: legacy_refill_loop.simps [of plain_ctx q s])
    qed
  qed
qed

lemma plain_refill: "0 \<le> fst (emz_refill_dma_rx plain_ctx s)"
proof -
  let ?s = "upd_perf (inc64 Rx_refill_calls)
    (upd_prof plain_ctx (emaczero_profile_counter COUNTER_RX_REFILL_CALLS) (tick s))"
  obtain n s' where "legacy_refill_loop plain_ctx 0 ?s = (Inr n, s')" "0 \<le> n" using plain_loop by blast
  then show ?thesis by (simp add: emz_refill_dma_rx_def Let_def)
qed

lemma plain_init:
  "\<exists>m' s'. emz_init plain_ctx storage m (emz_zero (kc plain_ctx)) = (0, m', s')"
proof -
  let ?s = "emz_zero (kc plain_ctx)"
  have version: "fst (emz_read plain_ctx EMZ_REG_VERSION ?s) = EMZ_VERSION_VALUE"
    by (simp add: emz_read_def plain_ctx_def probe_ctx_def reg_value_def Let_def)
  obtain s1 where mem: "init_memory plain_ctx storage m
      (init_identity plain_ctx (snd (emz_read plain_ctx EMZ_REG_VERSION ?s))) = (True, m, s1)"
    by (simp add: init_memory_def)
  have "fst (init_dma plain_ctx m s) = 0" for s
    using plain_refill [of s] by (cases "emz_refill_dma_rx plain_ctx s") (simp add: init_dma_def)
  then show ?thesis using version mem
    by (simp add: emz_init_def case_prod_beta) (metis prod.collapse)
qed


definition refusing_ctx :: ctx where
  "refusing_ctx = plain_ctx\<lparr>env_of := quiet_env\<lparr>ext := (\<lambda>x _. if x = Ext_dma_start_rx then - 5 else 0)\<rparr>\<rparr>"

theorem start_failure_links_twice_witness:
  "\<exists>s'. emz_refill_dma_rx refusing_ctx (upd_dat (fill_pool refusing_ctx) (emz_zero (kc plain_ctx))) = (- 5, s') \<and>
     0 \<in> set (rx_free_fifo (dat s')) \<and> 0 \<in> set (rx_dma_fifo (dat s'))"
proof -
  let ?s = "upd_dat (fill_pool refusing_ctx) (emz_zero (kc plain_ctx))"
  have k: "kc refusing_ctx = kc plain_ctx" "cfg refusing_ctx = cfg plain_ctx"
    by (simp_all add: refusing_ctx_def)
  have dma: "cfg_dma (cfg refusing_ctx)" and generic: "\<not> emz_rx_direct_enabled refusing_ctx"
    and ok: "kconfig_ok (kc refusing_ctx)"
    using plain_ok plain_sel(2,3) by (simp_all add: k generic_ok_def emz_rx_direct_enabled_def)
  have inv: "dma_inv refusing_ctx [] [] [] (dat ?s)"
    by (simp add: dma_inv_def k emz_zero_def data_zero_def fill_pool_def rx_buffer_zero_def)
  have free: "rx_free_fifo (dat ?s) = 0 # [1..<8]" by (simp add: k emz_zero_def data_zero_def fill_pool_def upt_rec)
  have room: "length (rx_dma_fifo (dat ?s)) < rx_dma_post_count (kc refusing_ctx)"
    by (simp add: k emz_zero_def data_zero_def fill_pool_def)
  have answers: "ext (env_of refusing_ctx) x t = (if x = Ext_dma_start_rx then - 5 else 0)" for x t
    by (simp add: refusing_ctx_def)
  from start_failure_links_twice [OF dma generic ok inv free room, of "- 5"] show ?thesis
    by (auto simp: answers)
qed

end
