(* ===== verification/GenericTx.thy ===== *)
theory GenericTx
  imports GenericDma
begin

text \<open>
  The send path of \<^verbatim>\<open>drivers/ethernet/eth_emaczero.c\<close> in a build or on a device without the
  direct ring: \<^verbatim>\<open>emz_setup_dma_tx_transfer\<close> hands one buffer at a time to Zephyr's DMA API and
  \<^verbatim>\<open>emz_dma_tx_callback\<close> counts completions. There is no count of transfers in flight: the
  code compares \<^verbatim>\<open>tx_populated_buffer_index\<close> with \<^verbatim>\<open>tx_completed_buffer_index\<close> and keeps one of
  the 32 buffers free. Here the slots in flight are a list of their own, extended when the
  DMA API accepts a transfer and shortened by its completions, and the two indices are shown
  to describe it. What the DMA API answers is a parameter; a transfer is in flight from an
  accepted \<^verbatim>\<open>dma_start\<close> to its completion, and completions come in order. The last part
  puts the two directions of such a device together.
\<close>

section \<open>The two indices\<close>

definition gtx_inv :: "emaczero_data \<Rightarrow> nat list \<Rightarrow> bool" where
  "gtx_inv d Q \<longleftrightarrow> tx_completed_buffer_index d < tx_count \<and> length Q < tx_count \<and>
     tx_populated_buffer_index d = (tx_completed_buffer_index d + length Q) mod tx_count \<and>
     Q = map (\<lambda>i. (tx_completed_buffer_index d + i) mod tx_count) [0..<length Q]"

lemma gtx_nth: "gtx_inv d Q \<Longrightarrow> i < length Q \<Longrightarrow> Q ! i = (tx_completed_buffer_index d + i) mod 32"
  by (subst (asm) gtx_inv_def) (metis add.left_neutral diff_zero length_upt nth_map_upt tx_count_val)

lemma gtx_populated_less: "gtx_inv d Q \<Longrightarrow> tx_populated_buffer_index d < 32"
  by (simp add: gtx_inv_def)

lemma gtx_idle:
  assumes "gtx_inv d Q"
  shows "distinct Q" and "tx_populated_buffer_index d \<notin> set Q"
proof -
  let ?h = "tx_completed_buffer_index d"
  have len: "length Q < 32" using assms by (simp add: gtx_inv_def)
  have inj: "i = j" if "i < 32" "j < 32" "(?h + i) mod 32 = (?h + j) mod 32" for i j
    using mod_offset_inj [OF that] .
  show "distinct Q"
    unfolding distinct_conv_nth using inj len by (metis gtx_nth [OF assms] less_trans)
  show "tx_populated_buffer_index d \<notin> set Q"
  proof
    assume "tx_populated_buffer_index d \<in> set Q"
    then obtain i where i: "i < length Q" "Q ! i = tx_populated_buffer_index d" by (auto simp: in_set_conv_nth)
    then have "(?h + i) mod 32 = (?h + length Q) mod 32" using gtx_nth [OF assms i(1)] assms by (simp add: gtx_inv_def)
    then show False using inj [of i "length Q"] i(1) len by simp
  qed
qed

text \<open>The test of the code says that 31 transfers are in flight.\<close>

lemma gtx_full:
  assumes "gtx_inv d Q"
  shows "(tx_populated_buffer_index d + 1) mod tx_count = tx_completed_buffer_index d \<longleftrightarrow> length Q = 31"
proof -
  let ?h = "tx_completed_buffer_index d"
  have n: "length Q < 32" and h: "?h < 32" using assms by (simp_all add: gtx_inv_def)
  have "(tx_populated_buffer_index d + 1) mod 32 = (?h + (length Q + 1)) mod 32"
    using assms by (simp add: gtx_inv_def mod_Suc_eq)
  moreover have "(?h + (length Q + 1)) mod 32 = ?h \<longleftrightarrow> length Q = 31"
  proof
    assume e: "(?h + (length Q + 1)) mod 32 = ?h"
    show "length Q = 31"
    proof (rule ccontr)
      assume "length Q \<noteq> 31"
      with n have "length Q + 1 < 32" by linarith
      from mod_offset_inj [OF this, of 0 ?h] e h show False by simp
    qed
  next
    assume "length Q = 31"
    then show "(?h + (length Q + 1)) mod 32 = ?h" using h by simp
  qed
  ultimately show ?thesis by simp
qed

lemma gtx_push:
  assumes "gtx_inv d Q" and "(tx_populated_buffer_index d + 1) mod tx_count \<noteq> tx_completed_buffer_index d"
    and "tx_completed_buffer_index d' = tx_completed_buffer_index d"
    and "tx_populated_buffer_index d' = (tx_populated_buffer_index d + 1) mod tx_count"
  shows "gtx_inv d' (Q @ [tx_populated_buffer_index d])"
proof -
  have "length Q \<noteq> 31" using assms(2) gtx_full [OF assms(1)] by blast
  then have "length Q < 31" using assms(1) by (simp add: gtx_inv_def)
  then show ?thesis using assms by (simp add: gtx_inv_def mod_Suc_eq)
qed

lemma gtx_pop:
  assumes "gtx_inv d (i # Q)"
  shows "gtx_inv (d\<lparr>tx_completed_buffer_index := (tx_completed_buffer_index d + 1) mod tx_count\<rparr>) Q"
proof -
  let ?h = "tx_completed_buffer_index d"
  have "Q = map (\<lambda>j. (?h + j) mod 32) (map Suc [0..<length Q])"
    using assms by (simp add: gtx_inv_def upt_conv_Cons map_Suc_upt del: upt_Suc)
  then have "Q = map (\<lambda>j. ((?h + 1) mod 32 + j) mod 32) [0..<length Q]"
    by (simp add: comp_def mod_Suc_eq mod_add_left_eq)
  then show ?thesis using assms by (simp add: gtx_inv_def mod_add_left_eq)
qed

section \<open>One transfer\<close>

lemma generic_setup_dat:
  assumes "setup_dma_tx_generic c len s = (ret, s')"
  shows "tx_buffer (dat s') = tx_buffer (dat s)"
    and "tx_completed_buffer_index (dat s') = tx_completed_buffer_index (dat s)"
    and "ret \<noteq> 0 \<Longrightarrow> tx_populated_buffer_index (dat s') = tx_populated_buffer_index (dat s)"
    and "ret = 0 \<Longrightarrow> (tx_populated_buffer_index (dat s) + 1) mod tx_count \<noteq> tx_completed_buffer_index (dat s) \<and>
      tx_populated_buffer_index (dat s') = (tx_populated_buffer_index (dat s) + 1) mod tx_count"
  using assms by (auto simp: setup_dma_tx_generic_def Let_def set_last_ret_def split: if_splits)

text \<open>Which answer a send gives: the reason for each error.\<close>

definition generic_answer :: "ctx \<Rightarrow> u8 list \<Rightarrow> emaczero_data \<Rightarrow> int \<Rightarrow> bool" where
  "generic_answer c pkt d ret \<longleftrightarrow>
     (if bad_tx_len c (length pkt) then ret = - EMSGSIZE
      else ret = 0 \<or> ret = - ENODEV \<and> \<not> cfg_dma (cfg c) \<or>
        ret = - ENOSPC \<and> (tx_populated_buffer_index d + 1) mod tx_count = tx_completed_buffer_index d \<or>
        ret = - EIO \<and> (\<exists>t. ext (env_of c) Ext_net_pkt_read t \<noteq> 0) \<or>
        (\<exists>a n t. ret \<in> {ext (env_of c) (Ext_dma_config_tx a n) t, ext (env_of c) (Ext_dma_reload_tx a n) t,
           ext (env_of c) Ext_dma_start_tx t}))"

lemma generic_setup_answer:
  assumes "setup_dma_tx_generic c (length pkt) s = (ret, s')" and "\<not> bad_tx_len c (length pkt)"
  shows "generic_answer c pkt (dat s) ret"
  using assms by (auto simp: setup_dma_tx_generic_def Let_def generic_answer_def ext_ret_def split: if_splits)

text \<open>What a send may do to the TX side: write the next buffer and, on success, hand it over.\<close>

definition generic_sent :: "ctx \<Rightarrow> u8 list \<Rightarrow> emaczero_data \<Rightarrow> int \<Rightarrow> emaczero_data \<Rightarrow> bool" where
  "generic_sent c pkt d ret d' \<longleftrightarrow> tx_bufs_ok c d' \<and>
     map txb_addr (tx_buffer d') = map txb_addr (tx_buffer d) \<and>
     tx_completed_buffer_index d' = tx_completed_buffer_index d \<and>
     (let i = tx_populated_buffer_index d
      in (\<forall>j < tx_count. j \<noteq> i \<longrightarrow> tx_buffer d' ! j = tx_buffer d ! j) \<and>
         (if ret = 0 then (i + 1) mod tx_count \<noteq> tx_completed_buffer_index d \<and>
            tx_populated_buffer_index d' = (i + 1) mod tx_count \<and>
            take (length pkt) (txb_bytes (tx_buffer d' ! i)) = pkt
          else tx_populated_buffer_index d' = i))"

lemma generic_sent_refl: "tx_bufs_ok c d \<Longrightarrow> ret \<noteq> 0 \<Longrightarrow> generic_sent c pkt d ret d"
  by (simp add: generic_sent_def Let_def)

lemma generic_after_copy:
  assumes bufs: "tx_bufs_ok c d" and i: "tx_populated_buffer_index d < 32" and len: "\<not> bad_tx_len c (length pkt)"
    and put: "dat s1 = put_tx_bytes (tx_populated_buffer_index d) pkt d"
    and run: "setup_dma_tx_generic c (length pkt) s1 = (ret, s')"
  shows "generic_sent c pkt d ret (dat s')" and "generic_answer c pkt d ret"
proof -
  have len': "length pkt \<le> net_eth_max_frame_size (kc c)" using len by (simp add: bad_tx_len_def)
  note buf = put_tx_bytes_ok [OF bufs i len']
  note run_dat = generic_setup_dat [OF run]
  have keep: "tx_completed_buffer_index (dat s1) = tx_completed_buffer_index d"
    "tx_populated_buffer_index (dat s1) = tx_populated_buffer_index d"
    using put by (simp_all add: put_tx_bytes_def)
  have "tx_bufs_ok c (dat s')" using buf(1) run_dat(1) put by (simp add: tx_bufs_ok_def)
  moreover have "map txb_addr (tx_buffer (dat s')) = map txb_addr (tx_buffer d)"
    using run_dat(1) put by (simp add: put_keeps_addr)
  moreover have "\<forall>j < tx_count. j \<noteq> tx_populated_buffer_index d \<longrightarrow> tx_buffer (dat s') ! j = tx_buffer d ! j"
    using run_dat(1) put by (simp add: put_tx_bytes_def)
  ultimately show "generic_sent c pkt d ret (dat s')"
    using run_dat keep buf(2) put by (simp add: generic_sent_def Let_def)
  show "generic_answer c pkt d ret" using generic_setup_answer [OF run len] unfolding generic_answer_def keep .
qed

text \<open>Both ways to send, past the length check, on the next buffer.\<close>

lemma generic_send_sent:
  assumes direct: "\<not> emz_rx_direct_enabled c" and bufs: "tx_bufs_ok c (dat s)"
    and i: "tx_populated_buffer_index (dat s) < 32"
  shows "\<exists>ret s'. emz_send c pkt s = Some (ret, s') \<and> generic_sent c pkt (dat s) ret (dat s') \<and>
    generic_answer c pkt (dat s) ret"
proof -
  define s2 where "s2 = upd_perf (set32 Tx_last_len (of_nat (length pkt))) (upd_perf (inc64 Tx_send_calls) s)"
  have d2: "dat s2 = dat s" by (simp add: s2_def)
  consider (bad) "bad_tx_len c (length pkt)" | (unread) "\<not> bad_tx_len c (length pkt)" "ext_ret c Ext_net_pkt_read s2 \<noteq> 0"
    | (copied) "\<not> bad_tx_len c (length pkt)" "ext_ret c Ext_net_pkt_read s2 = 0" by blast
  then show ?thesis
  proof cases
    case bad
    then show ?thesis using generic_sent_refl [OF bufs, of "- EMSGSIZE" pkt]
      by (simp add: emz_send_def Let_def set_last_ret_def generic_answer_def)
  next
    case unread
    then show ?thesis using generic_sent_refl [OF bufs, of "- EIO" pkt] direct
      unfolding emz_send_def Let_def s2_def [symmetric]
      by (auto simp: tx_descriptor_def set_last_ret_def d2 generic_answer_def ext_ret_def)
  next
    case copied
    let ?i = "tx_populated_buffer_index (dat s)" and ?len = "length pkt"
    let ?s4 = "upd_dat (put_tx_bytes ?i pkt) (ext_call c Ext_net_pkt_read s2)"
    let ?bytes = "txb_bytes (tx_buffer (dat ?s4) ! ?i)"
    have len': "?len \<le> net_eth_max_frame_size (kc c)" using copied by (simp add: bad_tx_len_def)
    have l4: "?len \<le> length ?bytes" using put_tx_bytes_ok(3) [OF bufs i len'] len' by (simp add: d2)
    obtain s5 where s5: "note_perf (note_tx_words ?bytes ?len) ?s4 = Some s5" "dat s5 = dat ?s4"
      using note_words_Some(1) [OF l4] by blast
    obtain s6 where s6: "note_perf (emz_note_tx_icmp ?bytes ?len) s5 = Some s6" "dat s6 = dat ?s4"
      using note_words_Some(2) [OF l4, of s5] s5 by auto
    obtain ret s7 where s7: "setup_dma_tx_generic c ?len s6 = (ret, s7)" by (cases "setup_dma_tx_generic c ?len s6")
    have "emz_send c pkt s = Some (ret, s7)"
      using copied s5 s6 s7 direct unfolding emz_send_def Let_def s2_def [symmetric]
      by (simp add: tx_descriptor_def emz_setup_dma_tx_transfer_def d2)
    moreover have "generic_sent c pkt (dat s) ret (dat s7) \<and> generic_answer c pkt (dat s) ret"
      using generic_after_copy [OF bufs i copied(1) _ s7] s6(2) d2 by simp
    ultimately show ?thesis by blast
  qed
qed

lemma generic_raw_sent:
  assumes direct: "\<not> emz_rx_direct_enabled c" and bufs: "tx_bufs_ok c (dat s)"
    and i: "tx_populated_buffer_index (dat s) < 32"
  shows "\<exists>ret s'. emaczero_send_raw_frame c frame s = Some (ret, s') \<and> generic_sent c frame (dat s) ret (dat s') \<and>
    generic_answer c frame (dat s) ret"
proof (cases "bad_tx_len c (length frame)")
  case True
  then show ?thesis using generic_sent_refl [OF bufs, of "- EMSGSIZE" frame]
    by (simp add: emaczero_send_raw_frame_def Let_def set_last_ret_def generic_answer_def)
next
  case False
  define s2 where "s2 = upd_perf (set32 Tx_last_len (of_nat (length frame))) (upd_perf (inc64 Tx_send_calls) s)"
  have d2: "dat s2 = dat s" by (simp add: s2_def)
  let ?i = "tx_populated_buffer_index (dat s)" and ?len = "length frame"
  let ?s4 = "upd_dat (put_tx_bytes ?i frame) s2"
  let ?bytes = "txb_bytes (tx_buffer (dat ?s4) ! ?i)"
  have len': "?len \<le> net_eth_max_frame_size (kc c)" using False by (simp add: bad_tx_len_def)
  have l4: "?len \<le> length ?bytes" using put_tx_bytes_ok(3) [OF bufs i len'] len' by (simp add: d2)
  obtain s5 where s5: "note_perf (note_tx_words ?bytes ?len) ?s4 = Some s5" "dat s5 = dat ?s4"
    using note_words_Some(1) [OF l4] by blast
  obtain ret s7 where s7: "setup_dma_tx_generic c ?len s5 = (ret, s7)" by (cases "setup_dma_tx_generic c ?len s5")
  have "emaczero_send_raw_frame c frame s = Some (ret, s7)"
    using False s5 s7 direct unfolding emaczero_send_raw_frame_def Let_def s2_def [symmetric]
    by (simp add: tx_descriptor_def emz_setup_dma_tx_transfer_def d2)
  moreover have "generic_sent c frame (dat s) ret (dat s7) \<and> generic_answer c frame (dat s) ret"
    using generic_after_copy [OF bufs i False _ s7] s5(2) d2 by simp
  ultimately show ?thesis by blast
qed

lemma dma_tx_callback_dat:
  "dat (emz_dma_tx_callback status s) =
     (dat s)\<lparr>tx_completed_buffer_index := (tx_completed_buffer_index (dat s) + 1) mod tx_count\<rparr>"
  by (simp add: emz_dma_tx_callback_def Let_def)

section \<open>The system\<close>

text \<open>
  Packets and raw frames are sent in any order; the DMA driver completes the oldest
  transfer with any status; whatever leaves the TX side alone may happen in between. The
  list holds the slots in flight.
\<close>

definition tx_side :: "emaczero_data \<Rightarrow> emaczero_tx_buffer list \<times> nat \<times> nat" where
  "tx_side d = (tx_buffer d, tx_completed_buffer_index d, tx_populated_buffer_index d)"

definition handed_over :: "int \<Rightarrow> emaczero_data \<Rightarrow> nat list \<Rightarrow> nat list" where
  "handed_over ret d Q = (if ret = 0 then Q @ [tx_populated_buffer_index d] else Q)"

inductive gtx_step :: "ctx \<Rightarrow> emz \<times> nat list \<Rightarrow> emz \<times> nat list \<Rightarrow> bool" for c :: ctx where
  gtx_send: "emz_send c pkt s = Some (ret, s') \<Longrightarrow> gtx_step c (s, Q) (s', handed_over ret (dat s) Q)"
| gtx_raw: "emaczero_send_raw_frame c frame s = Some (ret, s') \<Longrightarrow>
    gtx_step c (s, Q) (s', handed_over ret (dat s) Q)"
| gtx_done: "gtx_step c (s, i # Q) (emz_dma_tx_callback status s, Q)"
| gtx_other: "tx_side (dat s') = tx_side (dat s) \<Longrightarrow> gtx_step c (s, Q) (s', Q)"

inductive gtx_reach :: "ctx \<Rightarrow> emz \<Rightarrow> emz \<times> nat list \<Rightarrow> bool" for c :: ctx and s0 :: emz where
  gtx_start: "gtx_reach c s0 (s0, [])"
| gtx_next: "gtx_reach c s0 x \<Longrightarrow> gtx_step c x y \<Longrightarrow> gtx_reach c s0 y"

definition gtx_ok :: "ctx \<Rightarrow> emaczero_data \<Rightarrow> nat list \<Rightarrow> bool" where
  "gtx_ok c d Q \<longleftrightarrow> gtx_inv d Q \<and> tx_bufs_ok c d \<and> distinct (map txb_addr (tx_buffer d))"

lemma sent_ok:
  assumes ok: "gtx_ok c d Q" and sent: "generic_sent c pkt d ret d'"
  shows "gtx_ok c d' (handed_over ret d Q)" and "\<forall>j \<in> set Q. tx_buffer d' ! j = tx_buffer d ! j"
proof -
  have inv: "gtx_inv d Q" using ok by (simp add: gtx_ok_def)
  have "gtx_inv d' (handed_over ret d Q)"
  proof (cases "ret = 0")
    case True
    then show ?thesis using gtx_push [OF inv] sent by (simp add: handed_over_def generic_sent_def Let_def)
  next
    case False
    then show ?thesis using inv sent by (simp add: handed_over_def generic_sent_def Let_def gtx_inv_def)
  qed
  then show "gtx_ok c d' (handed_over ret d Q)"
    using ok sent by (simp add: gtx_ok_def generic_sent_def Let_def)
  have "j < 32" if "j \<in> set Q" for j using that gtx_nth [OF inv] by (auto simp: in_set_conv_nth)
  then show "\<forall>j \<in> set Q. tx_buffer d' ! j = tx_buffer d ! j"
    using gtx_idle(2) [OF inv] sent by (auto simp: generic_sent_def Let_def)
qed

lemma gtx_send_ok:
  assumes direct: "\<not> emz_rx_direct_enabled c" and ok: "gtx_ok c (dat s) Q"
  shows "\<exists>ret s'. emz_send c pkt s = Some (ret, s') \<and> generic_sent c pkt (dat s) ret (dat s') \<and>
      generic_answer c pkt (dat s) ret"
    and "\<exists>ret s'. emaczero_send_raw_frame c pkt s = Some (ret, s') \<and> generic_sent c pkt (dat s) ret (dat s') \<and>
      generic_answer c pkt (dat s) ret"
  using generic_send_sent [OF direct] generic_raw_sent [OF direct] ok gtx_populated_less
  by (auto simp: gtx_ok_def)

lemma gtx_step_ok:
  assumes direct: "\<not> emz_rx_direct_enabled c" and ok: "gtx_ok c (dat s) Q" and step: "gtx_step c (s, Q) (s', Q')"
  shows "gtx_ok c (dat s') Q' \<and> (\<forall>j \<in> set Q. tx_buffer (dat s') ! j = tx_buffer (dat s) ! j)"
  using step
proof (cases rule: gtx_step.cases)
  case (gtx_send pkt ret)
  then show ?thesis using gtx_send_ok(1) [OF direct ok, of pkt] sent_ok [OF ok] by fastforce
next
  case (gtx_raw frame ret)
  then show ?thesis using gtx_send_ok(2) [OF direct ok, of frame] sent_ok [OF ok] by fastforce
next
  case (gtx_done i status)
  then show ?thesis using ok gtx_pop [of "dat s" i Q']
    by (simp add: gtx_ok_def dma_tx_callback_dat tx_bufs_ok_def)
next
  case gtx_other
  then show ?thesis using ok by (auto simp: gtx_ok_def tx_side_def gtx_inv_def tx_bufs_ok_def)
qed

lemma gtx_reach_ok:
  assumes "gtx_reach c s0 x" and "\<not> emz_rx_direct_enabled c" and "gtx_ok c (dat s0) []"
  shows "gtx_ok c (dat (fst x)) (snd x)"
  using assms(1)
proof induction
  case (gtx_next x y)
  then show ?case using gtx_step_ok [OF assms(2), of "fst x" "snd x" "fst y" "snd y"] by simp
qed (use assms(3) in simp)

section \<open>Where it starts\<close>

text \<open>The TX buffers have addresses of their own: from a sound DMA window, or from the linker.\<close>

definition tx_storage_ok :: "ctx \<Rightarrow> (nat \<Rightarrow> u32) \<times> (nat \<Rightarrow> u32) \<Rightarrow> bool" where
  "tx_storage_ok c storage \<longleftrightarrow>
     (if dma_memory_size (kc c) \<noteq> 0 then dma_window_ok (kc c) else inj_on (snd storage) {0..<tx_count})"

lemma queue_buffer_tx: "tx_side (dat (snd (emz_queue_dma_rx_buffer c rx s))) = tx_side (dat s)"
  by (simp add: emz_queue_dma_rx_buffer_def Let_def tx_side_def)

lemma legacy_loop_tx: "tx_side (dat (snd (legacy_refill_loop c queued s))) = tx_side (dat s)"
proof (induction c queued s rule: legacy_refill_loop.induct)
  case (1 c queued s)
  show ?case
  proof (cases "rx_free_fifo (dat s)")
    case Nil
    then show ?thesis by (simp add: legacy_refill_loop.simps [of c queued s])
  next
    case (Cons rx rest)
    let ?t = "legacy_take c rest (legacy_claim c s)"
    obtain ret s1 where q: "emz_queue_dma_rx_buffer c rx ?t = (ret, s1)"
      by (cases "emz_queue_dma_rx_buffer c rx ?t")
    have t: "tx_side (dat s1) = tx_side (dat s)" using queue_buffer_tx [of c rx ?t] q by (simp add: tx_side_def)
    moreover have "tx_side (dat (legacy_note_queued c s1)) = tx_side (dat s1)"
      "tx_side (dat (legacy_give_back c rx s1)) = tx_side (dat s1)" by (simp_all add: tx_side_def)
    ultimately show ?thesis using 1 Cons q by (auto simp: legacy_refill_loop.simps [of c queued s])
  qed
qed

lemma generic_refill_tx:
  assumes "\<not> emz_rx_direct_enabled c"
  shows "tx_side (dat (snd (emz_refill_dma_rx c s))) = tx_side (dat s)"
proof -
  let ?s = "upd_perf (inc64 Rx_refill_calls) (upd_prof c (emaczero_profile_counter COUNTER_RX_REFILL_CALLS) (tick s))"
  obtain r s1 where l: "legacy_refill_loop c 0 ?s = (r, s1)" by (cases "legacy_refill_loop c 0 ?s")
  then have "tx_side (dat s1) = tx_side (dat s)" using legacy_loop_tx [of c 0 ?s] by simp
  then show ?thesis using assms l by (cases r) (simp_all add: emz_refill_dma_rx_def Let_def tx_side_def)
qed

lemma generic_init_tx:
  assumes direct: "\<not> emz_rx_direct_enabled c" and k: "kconfig_ok (kc c)" and storage: "tx_storage_ok c storage"
    and zero: "dat s = data_zero (kc c)" and run: "emz_init c storage m s = (0, m', s')"
  shows "gtx_ok c (dat s') []"
proof -
  let ?s0 = "init_identity c (snd (emz_read c EMZ_REG_VERSION s))"
  obtain m1 s1 where mem: "init_memory c storage m ?s0 = (True, m1, s1)"
    and dma_run: "init_dma c m1 (init_mac c (init_pool c s1)) = (0, m', s')"
    using run by (auto simp: emz_init_def split: prod.splits if_splits)
  have d0: "dat ?s0 = (data_zero (kc c))\<lparr>mac := cfg_mac (cfg c), rx_free_fifo := [], rx_dma_fifo := [],
      rx_ready_fifo := []\<rparr>" using zero by (simp add: emz_read_def Let_def)
  have fresh0: "fresh_ring c (dat ?s0)" and bufs0: "tx_bufs_ok c (dat ?s0)"
    using zero_fresh [OF k] unfolding d0
    by (simp_all add: fresh_ring_def buffers_ok_def tx_bufs_ok_def data_zero_def tx_buffer_zero_def)
  have memory: "tx_bufs_ok c (dat s1) \<and> distinct (map txb_addr (tx_buffer (dat s1)))"
  proof (cases "dma_memory_size (kc c) = 0")
    case False
    then show ?thesis using init_memory_ok(2,3) [OF k False _ fresh0 bufs0 mem] storage
      by (simp add: tx_storage_ok_def)
  next
    case True
    let ?qs = "map (snd storage) [0..<tx_count]" and ?d = "set_rx_addrs (map (fst storage) [0..<rx_count c]) (dat ?s0)"
    have d1: "dat s1 = set_tx_addrs ?qs ?d" using mem True by (auto simp: init_memory_def)
    have bufs: "tx_bufs_ok c ?d" using bufs0 by (simp add: tx_bufs_ok_def set_rx_addrs_def)
    have "map txb_addr (tx_buffer (dat s1)) = ?qs"
      unfolding d1 by (rule set_tx_addrs_addrs) (use bufs in \<open>simp add: tx_bufs_ok_def\<close>)
    then have "distinct (map txb_addr (tx_buffer (dat s1)))"
      using storage True by (simp add: tx_storage_ok_def distinct_map del: upt_Suc)
    moreover have "tx_bufs_ok c (dat s1)"
      using bufs set_tx_addrs_bytes [of _ ?qs ?d] unfolding d1 by (fastforce simp: tx_bufs_ok_def)
    ultimately show ?thesis by blast
  qed
  obtain ps qs where "dat s1 = set_tx_addrs qs (set_rx_addrs ps (dat ?s0))"
    using init_memory_buffers [OF mem] by blast
  then have "tx_completed_buffer_index (dat s1) = 0" "tx_populated_buffer_index (dat s1) = 0"
    unfolding d0 by (simp_all add: set_tx_addrs_def set_rx_addrs_def data_zero_def)
  then have "gtx_ok c (dat (init_mac c (init_pool c s1))) []"
    using memory by (simp add: gtx_ok_def gtx_inv_def fill_pool_def tx_bufs_ok_def)
  moreover have "tx_side (dat s') = tx_side (dat (init_mac c (init_pool c s1)))"
    using dma_run direct generic_refill_tx [OF direct, of "init_mac c (init_pool c s1)"]
    by (auto simp: init_dma_def split: if_splits prod.splits)
  ultimately show ?thesis by (simp add: gtx_ok_def gtx_inv_def tx_bufs_ok_def tx_side_def)
qed

text \<open>
  C10: without the direct ring, from a successful initialisation on, whatever packets and raw frames are
  sent, whatever the DMA driver answers and however its completions interleave: at most 31
  transfers are in flight, each on a slot of its own; a send always returns, with
  the reason for each error; a successful
  one leaves the packet in the buffer of the slot it hands over, a failed one hands over
  nothing; and no step writes a buffer that is in flight.
\<close>
theorem generic_tx_safe:
  assumes direct: "\<not> emz_rx_direct_enabled c" and k: "kconfig_ok (kc c)" and storage: "tx_storage_ok c storage"
    and zero: "dat si = data_zero (kc c)" and init: "emz_init c storage m si = (0, m', s0)"
    and reach: "gtx_reach c s0 (s, Q)"
  shows "length Q \<le> 31 \<and> distinct (map (\<lambda>j. txb_addr (tx_buffer (dat s) ! j)) Q) \<and>
    (\<forall>s' Q'. gtx_step c (s, Q) (s', Q') \<longrightarrow> (\<forall>j \<in> set Q. tx_buffer (dat s') ! j = tx_buffer (dat s) ! j)) \<and>
    (\<forall>pkt. \<exists>ret s'. emz_send c pkt s = Some (ret, s') \<and> generic_answer c pkt (dat s) ret \<and>
      (ret = 0 \<longrightarrow> length Q < 31 \<and>
         take (length pkt) (txb_bytes (tx_buffer (dat s') ! tx_populated_buffer_index (dat s))) = pkt) \<and>
      (ret \<noteq> 0 \<longrightarrow> tx_populated_buffer_index (dat s') = tx_populated_buffer_index (dat s)))"
proof (intro conjI allI impI)
  have ok: "gtx_ok c (dat s) Q" using gtx_reach_ok [OF reach direct generic_init_tx [OF direct k storage zero init]] by simp
  then have inv: "gtx_inv (dat s) Q" and len: "length (tx_buffer (dat s)) = 32"
    and addr: "distinct (map txb_addr (tx_buffer (dat s)))"
    by (simp_all add: gtx_ok_def tx_bufs_ok_def)
  have n: "length Q < 32" using inv by (simp add: gtx_inv_def)
  then show "length Q \<le> 31" by simp
  have "j < 32" if "j \<in> set Q" for j using that gtx_nth [OF inv] by (auto simp: in_set_conv_nth)
  then have "inj_on (\<lambda>j. txb_addr (tx_buffer (dat s) ! j)) (set Q)"
    using nth_eq_iff_index_eq [OF addr] len by (auto intro!: inj_onI)
  then show "distinct (map (\<lambda>j. txb_addr (tx_buffer (dat s) ! j)) Q)"
    using gtx_idle(1) [OF inv] by (simp add: distinct_map)
  show "\<forall>j \<in> set Q. tx_buffer (dat s') ! j = tx_buffer (dat s) ! j" if "gtx_step c (s, Q) (s', Q')" for s' Q'
    using gtx_step_ok [OF direct ok that] by blast
  fix pkt
  show "\<exists>ret s'. emz_send c pkt s = Some (ret, s') \<and> generic_answer c pkt (dat s) ret \<and>
      (ret = 0 \<longrightarrow> length Q < 31 \<and>
         take (length pkt) (txb_bytes (tx_buffer (dat s') ! tx_populated_buffer_index (dat s))) = pkt) \<and>
      (ret \<noteq> 0 \<longrightarrow> tx_populated_buffer_index (dat s') = tx_populated_buffer_index (dat s))"
    using gtx_send_ok(1) [OF direct ok, of pkt] gtx_full [OF inv] n
    by (fastforce simp: generic_sent_def Let_def)
qed

section \<open>Both directions together\<close>

text \<open>
  No receive operation touches the TX side. For the worker this comes from the contract of
  its pool: the pool behind the DMA API with the TX side held fixed keeps it as well.
\<close>

lemma release_tx:
  assumes "\<not> emz_rx_direct_enabled c"
  shows "tx_side (dat (emz_release_rx_buffer c rx s)) = tx_side (dat s)"
  using generic_refill_tx [OF assms] by (simp add: emz_release_rx_buffer_def Let_def tx_side_def)

lemma engine_writes_tx [simp]: "tx_side (engine_writes rx bytes d) = tx_side d" "tx_side (upd_rx rx f d) = tx_side d"
  by (simp_all add: engine_writes_def upd_rx_def tx_side_def)

lemma from_worker_tx:
  "\<not> emz_rx_direct_enabled c \<Longrightarrow> tx_side (dat (emz_release_rx_buffer_from_worker c rx s)) = tx_side (dat s)"
  by (simp add: emz_release_rx_buffer_from_worker_def Let_def release_tx) (simp add: tx_side_def)

lemma destroy_tx:
  "\<not> emz_rx_direct_enabled c \<Longrightarrow> tx_side (dat (emz_rx_frag_destroy c (Some rx) s)) = tx_side (dat s)"
  by (simp add: emz_rx_frag_destroy_def Let_def release_tx) (simp add: tx_side_def)

lemma lend_tx: "tx_side (dat (lend c rx s)) = tx_side (dat s)"
  by (simp add: lend_def Let_def upd_rx_def tx_side_def)

lemma callback_take_tx: "tx_side (dat (snd (callback_take c status rx rest s))) = tx_side (dat s)"
  by (simp add: callback_take_def Let_def upd_rx_def tx_side_def)

lemma callback_tx:
  assumes "\<not> emz_rx_direct_enabled c"
  shows "tx_side (dat (emz_dma_rx_callback c status s)) = tx_side (dat s)"
proof -
  define s1 where "s1 = upd_prof c (emaczero_profile_counter COUNTER_DMA_CALLBACKS) (upd_perf (inc64 Dma_callbacks)
    (emz_perf_note_dma_callback_gap c (cycle_now c s) (tick s)))"
  have d1: "tx_side (dat s1) = tx_side (dat s)" by (simp add: s1_def tx_side_def)
  show ?thesis
  proof (cases "rx_dma_fifo (dat s1)")
    case Nil
    then show ?thesis using d1 unfolding emz_dma_rx_callback_def Let_def s1_def [symmetric] by simp
  next
    case (Cons rx rest)
    obtain b s2 where t: "callback_take c status rx rest s1 = (b, s2)" by (cases "callback_take c status rx rest s1")
    have d2: "tx_side (dat s2) = tx_side (dat s)" using callback_take_tx [of c status rx rest s1] t d1 by simp
    have "tx_side ((dat s2)\<lparr>rx_ready_fifo_count := n, rx_ready_fifo := f\<rparr>) = tx_side (dat s2)" for n f
      by (simp add: tx_side_def)
    then show ?thesis using Cons t d2 unfolding emz_dma_rx_callback_def Let_def s1_def [symmetric]
      by (simp add: release_tx [OF assms])
  qed
qed

definition pool_beside_tx :: "emaczero_tx_buffer list \<times> nat \<times> nat \<Rightarrow>
    ctx \<Rightarrow> nat list \<Rightarrow> nat list \<Rightarrow> nat list \<Rightarrow> emaczero_data \<Rightarrow> bool" where
  "pool_beside_tx t c W K H d \<longleftrightarrow> dma_inv c W K H d \<and> tx_side d = t"

interpretation beside_tx: rx_pool generic_ok "pool_beside_tx t" for t
proof
  fix c W K H d rx rest
  assume "pool_beside_tx t c W K H d" and "rx_ready_fifo d = rx # rest"
  then show "pool_beside_tx t c (rx # W) K H (d\<lparr>rx_ready_fifo := rest,
      rx_ready_fifo_count := rx_ready_fifo_count d - 1, rx_worker_count := rx_worker_count d + 1\<rparr>)"
    using dma_inv_moves(4) by (auto simp: pool_beside_tx_def tx_side_def)
qed (auto simp: pool_beside_tx_def generic_ok_def from_worker_tx destroy_tx lend_tx
    dest: generic_pool.pool_stack [rotated]
    intro: generic_from_worker_inv generic_destroy_inv generic_lend_inv generic_held)

lemma dma_step_tx:
  assumes ok: "generic_ok c" and step: "dma_step c (s, K) (s', K')" and inv: "dma_inv c [] K [] (dat s)"
  shows "tx_side (dat s') = tx_side (dat s)"
  using step
proof (cases rule: dma_step.cases)
  case (dma_worker lent)
  show ?thesis
  proof (cases "rx_ready_fifo (dat s)")
    case Nil
    then show ?thesis using dma_worker by (auto simp: emz_rx_thread_step_def)
  next
    case (Cons rx rest)
    have "pool_beside_tx (tx_side (dat s)) c [] K [] (dat s)" using inv by (simp add: pool_beside_tx_def)
    from beside_tx.round_accounts [OF ok this Cons] show ?thesis
      using dma_worker by (auto simp: pool_beside_tx_def)
  qed
qed (use ok in \<open>auto simp: generic_ok_def callback_tx destroy_tx\<close>)

text \<open>And no send or TX completion touches the receive pool.\<close>

lemma dma_inv_tx_fields [simp]:
  "dma_inv c W K H (d\<lparr>tx_populated_buffer_index := i\<rparr>) = dma_inv c W K H d"
  "dma_inv c W K H (d\<lparr>tx_completed_buffer_index := i\<rparr>) = dma_inv c W K H d"
  "dma_inv c W K H (d\<lparr>dma_is_configured_tx := b\<rparr>) = dma_inv c W K H d"
  "dma_inv c W K H (put_tx_bytes i f d) = dma_inv c W K H d"
  by (simp_all add: dma_inv_def put_tx_bytes_def)

lemma note_perf_dat: "note_perf f s = Some s' \<Longrightarrow> dat s' = dat s"
  by (auto simp: note_perf_def)

lemma generic_setup_rx:
  "setup_dma_tx_generic c len s = (ret, s') \<Longrightarrow> dma_inv c W K H (dat s') = dma_inv c W K H (dat s)"
  by (auto simp: setup_dma_tx_generic_def Let_def set_last_ret_def split: if_splits)

lemma send_rx:
  assumes direct: "\<not> emz_rx_direct_enabled c"
  shows "emz_send c pkt s = Some (ret, s') \<Longrightarrow> dma_inv c W K H (dat s') = dma_inv c W K H (dat s)"
    and "emaczero_send_raw_frame c pkt s = Some (ret, s') \<Longrightarrow> dma_inv c W K H (dat s') = dma_inv c W K H (dat s)"
  by (auto simp: emz_send_def emaczero_send_raw_frame_def Let_def tx_descriptor_def emz_setup_dma_tx_transfer_def
      direct set_last_ret_def note_perf_dat dest!: generic_setup_rx [of _ _ _ _ _ W K H]
      split: if_splits Option.bind_splits)

lemma tx_callback_rx: "dma_inv c W K H (dat (emz_dma_tx_callback status s)) = dma_inv c W K H (dat s)"
  by (simp add: dma_tx_callback_dat)

text \<open>The whole device: a step of the receive system, or one that sends or completes a transfer.\<close>

inductive generic_step :: "ctx \<Rightarrow> emz \<times> nat list \<times> nat list \<Rightarrow> emz \<times> nat list \<times> nat list \<Rightarrow> bool" for c :: ctx where
  receive: "dma_step c (s, K) (s', K') \<Longrightarrow> generic_step c (s, K, Q) (s', K', Q)"
| send_packet: "emz_send c pkt s = Some (ret, s') \<Longrightarrow> generic_step c (s, K, Q) (s', K, handed_over ret (dat s) Q)"
| send_raw: "emaczero_send_raw_frame c frame s = Some (ret, s') \<Longrightarrow>
    generic_step c (s, K, Q) (s', K, handed_over ret (dat s) Q)"
| sent: "generic_step c (s, K, i # Q) (emz_dma_tx_callback status s, K, Q)"

inductive generic_reach :: "ctx \<Rightarrow> emz \<Rightarrow> emz \<times> nat list \<times> nat list \<Rightarrow> bool" for c :: ctx and s0 :: emz where
  device_start: "generic_reach c s0 (s0, [], [])"
| device_next: "generic_reach c s0 x \<Longrightarrow> generic_step c x y \<Longrightarrow> generic_reach c s0 y"

lemma generic_step_splits:
  assumes ok: "generic_ok c" and "generic_step c (s, K, Q) (s', K', Q')" and "dma_sys_inv c (s, K)"
  shows "gtx_step c (s, Q) (s', Q') \<and> dma_sys_inv c (s', K')"
proof -
  have direct: "\<not> emz_rx_direct_enabled c" using ok by (simp add: generic_ok_def)
  show ?thesis
    using assms(2)
  proof (cases rule: generic_step.cases)
    case receive
    then show ?thesis
      using assms(3) dma_sys_inv_step [OF ok] dma_step_tx [OF ok] by (auto simp: dma_sys_inv_def intro: gtx_other)
  qed (use assms(3) direct in \<open>auto simp: dma_sys_inv_def send_rx tx_callback_rx intro: gtx_step.intros\<close>)
qed

text \<open>
  So both directions are safe on every state the whole device reaches: the receive pool keeps
  its invariant, and the TX side is one the theorem above speaks of.
\<close>

lemma generic_device_safe:
  assumes ok: "generic_ok c" and zero: "dat si = data_zero (kc c)"
    and init: "emz_init c storage m si = (0, m', s0)" and reach: "generic_reach c s0 (s, K, Q)"
  shows "dma_sys_inv c (s, K)" and "gtx_reach c s0 (s, Q)"
proof -
  have "dma_sys_inv c (fst x, fst (snd x)) \<and> gtx_reach c s0 (fst x, snd (snd x))" if "generic_reach c s0 x" for x
    using that
  proof induction
    case device_start
    show ?case using generic_init_inv [OF ok zero init] gtx_start by (simp add: dma_sys_inv_def)
  next
    case (device_next x y)
    then show ?case
      using generic_step_splits [OF ok, of "fst x" "fst (snd x)" "snd (snd x)" "fst y" "fst (snd y)" "snd (snd y)"]
      by (auto intro: gtx_next)
  qed
  from this [OF reach] show "dma_sys_inv c (s, K)" and "gtx_reach c s0 (s, Q)" by simp_all
qed

section \<open>A concrete run\<close>

lemma plain_tx_storage: "tx_storage_ok plain_ctx (f, \<lambda>i. 0x1000 + of_nat (64 * i))"
proof -
  have "inj_on (\<lambda>i. 0x1000 + of_nat (64 * i) :: u32) {0..<32}"
  proof (rule inj_onI)
    fix i j :: nat
    assume ij: "i \<in> {0..<32}" "j \<in> {0..<32}" "(0x1000 + of_nat (64 * i) :: u32) = 0x1000 + of_nat (64 * j)"
    then have "unat (of_nat (64 * i) :: u32) = unat (of_nat (64 * j) :: u32)" by (simp only: add_left_cancel)
    with ij(1,2) show "i = j" by (simp del: of_nat_mult)
  qed
  then show ?thesis by (simp add: tx_storage_ok_def)
qed

text \<open>A second packet leaves the buffer of the first one, in flight, as it is.\<close>

theorem generic_tx_safe_witness:
  "\<exists>m' s0 s1 i ret s2. emz_init plain_ctx (\<lambda>i. of_nat (64 * i), \<lambda>i. 0x1000 + of_nat (64 * i)) mem_zero
       (emz_zero (kc plain_ctx)) = (0, m', s0) \<and>
     emz_send plain_ctx [1, 2, 3] s0 = Some (0, s1) \<and> gtx_reach plain_ctx s0 (s1, [i]) \<and>
     emz_send plain_ctx [4, 5] s1 = Some (ret, s2) \<and> tx_buffer (dat s2) ! i = tx_buffer (dat s1) ! i"
proof -
  let ?storage = "(\<lambda>i. of_nat (64 * i), \<lambda>i. 0x1000 + of_nat (64 * i)) :: (nat \<Rightarrow> u32) \<times> (nat \<Rightarrow> u32)"
  obtain m' s0 where run: "emz_init plain_ctx ?storage mem_zero (emz_zero (kc plain_ctx)) = (0, m', s0)"
    using plain_init by blast
  have zero: "dat (emz_zero (kc plain_ctx)) = data_zero (kc plain_ctx)" by (simp add: emz_zero_def)
  have k: "kconfig_ok (kc plain_ctx)" using plain_ok by (simp add: generic_ok_def)
  note safe = generic_tx_safe [OF plain_sel(3) k plain_tx_storage zero run]
  obtain ret s1 where send: "emz_send plain_ctx [1, 2, 3] s0 = Some (ret, s1)"
    and answer: "generic_answer plain_ctx [1, 2, 3] (dat s0) ret"
    using safe [OF gtx_start] by blast
  define i where "i = tx_populated_buffer_index (dat s0)"
  have "(i + 1) mod tx_count \<noteq> tx_completed_buffer_index (dat s0)"
    using generic_init_tx [OF plain_sel(3) k plain_tx_storage zero run] gtx_full [of "dat s0" "[]"]
    by (simp add: gtx_ok_def i_def)
  then have "ret = 0" using answer
    by (auto simp: i_def generic_answer_def bad_tx_len_def plain_ctx_def probe_ctx_def demo_config_def quiet_env_def)
  then have reach: "gtx_reach plain_ctx s0 (s1, [i])"
    using gtx_next [OF gtx_start gtx_send [OF send, of "[]"]] \<open>ret = 0\<close> by (simp add: handed_over_def i_def)
  obtain ret2 s2 where second: "emz_send plain_ctx [4, 5] s1 = Some (ret2, s2)" using safe [OF reach] by blast
  have "tx_buffer (dat s2) ! i = tx_buffer (dat s1) ! i"
    using safe [OF reach] gtx_send [OF second, of "[i]"] by (meson list.set_intros(1))
  then show ?thesis using run send \<open>ret = 0\<close> reach second by auto
qed

end
