(* ===== verification/PerfLayout.thy ===== *)
theory PerfLayout
  imports PerfStats DmaMem
begin

text \<open>
  Where the statistics block lies in memory. A host reads \<^verbatim>\<open>struct emaczero_perf_stats\<close>
  (\<^verbatim>\<open>drivers/ethernet/eth_emaczero_profile.h\<close>) and reads and writes \<^verbatim>\<open>struct
  emacz_jtag_mailbox\<close> (\<^verbatim>\<open>app/src/provision.h\<close>) word by word over JTAG, at fixed addresses at
  the top of the DMA memory, while the program runs. The structs are given here field by
  field as the headers declare them, with the layout rules of the ilp32 ABI of RISC-V (an
  object is aligned to its own size), and compared with the positions that the model of
  PerfStats works with.
\<close>

section \<open>C struct layout\<close>

datatype c_type = Uint32 | Uint64

fun c_size :: "c_type \<Rightarrow> nat" where
  "c_size Uint32 = 4"
| "c_size Uint64 = 8"

text \<open>A member is its name, the type of its elements and their number (1 for a scalar).\<close>

type_synonym c_member = "string \<times> c_type \<times> nat"

fun c_bytes :: "c_member \<Rightarrow> nat" where
  "c_bytes (n, t, k) = c_size t * k"

fun c_align :: "c_member \<Rightarrow> nat" where
  "c_align (n, t, k) = c_size t"

definition align_up :: "nat \<Rightarrow> nat \<Rightarrow> nat" where
  "align_up a x = (x + a - 1) div a * a"

fun c_layout :: "nat \<Rightarrow> c_member list \<Rightarrow> (nat \<times> c_member) list" where
  "c_layout at [] = []"
| "c_layout at (m # ms) =
     (let ofs = align_up (c_align m) at in (ofs, m) # c_layout (ofs + c_bytes m) ms)"

fun c_end :: "nat \<Rightarrow> c_member list \<Rightarrow> nat" where
  "c_end at [] = at"
| "c_end at (m # ms) = c_end (align_up (c_align m) at + c_bytes m) ms"

definition c_sizeof :: "c_member list \<Rightarrow> nat" where
  "c_sizeof ms = align_up (fold (\<lambda>m. max (c_align m)) ms 1) (c_end 0 ms)"

text \<open>The offset of each member and the bytes it takes, by name.\<close>

definition c_places :: "nat \<Rightarrow> c_member list \<Rightarrow> (string \<times> nat \<times> nat) list" where
  "c_places at ms = map (\<lambda>(ofs, m). (fst m, ofs, c_bytes m)) (c_layout at ms)"

section \<open>The two structs\<close>

text \<open>The members of the statistics block, in groups and in the order of the header.\<close>

definition perf_board :: "c_member list" where
  "perf_board = [
    (''magic'', Uint32, 1), (''version'', Uint32, 1), (''cycles_per_sec'', Uint32, 1),
    (''rx_pool_size'', Uint32, 1), (''uptime_ms'', Uint32, 1), (''cycle_delta_1s'', Uint32, 1),
    (''cycle_delta_30s'', Uint32, 1), (''mac_rx_frames'', Uint32, 1), (''mac_rx_bytes'', Uint32, 1),
    (''mac_rx_err'', Uint32, 1), (''mac_rx_err_align'', Uint32, 1),
    (''mac_rx_err_overflow'', Uint32, 1), (''mac_rx_err_oversize'', Uint32, 1),
    (''mac_rx_bcast'', Uint32, 1), (''mac_rx_mcast'', Uint32, 1),
    (''mac_rx_size_1024_1518'', Uint32, 1)]"

definition perf_gate :: "c_member list" where
  "perf_gate = [
    (''gate_magic'', Uint32, 1), (''gate_good_frames'', Uint32, 1),
    (''gate_dropped_bad_frames'', Uint32, 1), (''gate_dropped_overflow_frames'', Uint32, 1),
    (''gate_drain_samples'', Uint32, 1), (''gate_drain_cycles_total'', Uint32, 1),
    (''gate_drain_cycles_max'', Uint32, 1), (''gate_drain_lt_50us'', Uint32, 1),
    (''gate_drain_50_100us'', Uint32, 1), (''gate_drain_100_200us'', Uint32, 1),
    (''gate_drain_200_500us'', Uint32, 1), (''gate_drain_ge_500us'', Uint32, 1),
    (''gate_drain_tready_low_cycles'', Uint32, 1), (''gate_drain_tready_low_cycles_max'', Uint32, 1),
    (''gate_drain_tready_low_samples'', Uint32, 1), (''_reserved_v12'', Uint32, 1)]"

definition perf_dma :: "c_member list" where
  "perf_dma = [
    (''dma_callbacks'', Uint64, 1), (''dma_errors'', Uint64, 1),
    (''dma_callback_gap_cycles_max'', Uint32, 1), (''dma_callback_gap_ge_1ms'', Uint32, 1),
    (''rx_refill_cycles_max'', Uint32, 1), (''rx_refill_cycles_ge_1ms'', Uint32, 1),
    (''rx_refill_queued_max'', Uint32, 1), (''_reserved_v10'', Uint32, 1),
    (''rx_bd_hw_completed'', Uint64, 1), (''rx_bd_refilled'', Uint64, 1),
    (''rx_bd_tail_updates'', Uint64, 1), (''rx_bd_no_free'', Uint64, 1),
    (''rx_irq_count'', Uint64, 1), (''rx_bd_available_current'', Uint32, 1),
    (''rx_bd_available_min'', Uint32, 1), (''rx_poll_completed_max'', Uint32, 1),
    (''rx_bd_errors'', Uint32, 1), (''rx_dma_recoveries'', Uint32, 1)]"

definition perf_rx :: "c_member list" where
  "perf_rx = [
    (''rx_worker_packets'', Uint64, 1), (''rx_invalid'', Uint64, 1),
    (''rx_alloc_pkt_fail'', Uint64, 1), (''rx_alloc_frag_fail'', Uint64, 1),
    (''rx_alloc_pkt_zc_fail'', Uint64, 1), (''rx_alloc_pkt_copy_fail'', Uint64, 1),
    (''rx_copy_write_fail'', Uint64, 1), (''rx_zero_copy_submit'', Uint64, 1),
    (''rx_copy_submit'', Uint64, 1), (''rx_net_recv_fail'', Uint64, 1), (''rx_released'', Uint64, 1),
    (''rx_refill_calls'', Uint64, 1), (''rx_refill_queued'', Uint64, 1),
    (''rx_refill_no_free'', Uint64, 1), (''rx_dma_config_calls'', Uint64, 1),
    (''rx_dma_reload_calls'', Uint64, 1), (''rx_dma_start_calls'', Uint64, 1),
    (''rx_dma_config_fail'', Uint64, 1), (''rx_dma_reload_fail'', Uint64, 1),
    (''rx_dma_start_fail'', Uint64, 1)]"

definition perf_pool :: "c_member list" where
  "perf_pool = [
    (''rx_pool_inflight_current'', Uint32, 1), (''rx_pool_inflight_high'', Uint32, 1),
    (''rx_free_current'', Uint32, 1), (''rx_dma_fifo_current'', Uint32, 1),
    (''rx_ready_fifo_current'', Uint32, 1), (''rx_worker_current'', Uint32, 1),
    (''rx_stack_owned_current'', Uint32, 1), (''rx_owner_sum_current'', Uint32, 1),
    (''rx_owner_sum_bad'', Uint32, 1), (''rx_max_dma_inflight'', Uint32, 1),
    (''rx_max_stack_owned'', Uint32, 1), (''rx_min_free'', Uint32, 1),
    (''rx_dwell_samples'', Uint64, 1), (''rx_dwell_cycles_total'', Uint64, 1),
    (''rx_dwell_cycles_max'', Uint32, 1), (''rx_dwell_lt_1ms'', Uint32, 1),
    (''rx_dwell_1_5ms'', Uint32, 1), (''rx_dwell_5_20ms'', Uint32, 1),
    (''rx_dwell_20_100ms'', Uint32, 1), (''rx_dwell_ge_100ms'', Uint32, 1)]"

definition perf_net :: "c_member list" where
  "perf_net = [
    (''net_udp_recv'', Uint32, 1), (''net_udp_drop'', Uint32, 1), (''net_ipv4_recv'', Uint32, 1),
    (''net_ipv4_drop'', Uint32, 1), (''net_processing_error'', Uint32, 1),
    (''net_pkt_filter_rx_drop'', Uint32, 1), (''net_pkt_filter_rx_ipv4_drop'', Uint32, 1),
    (''net_pkt_filter_rx_local_drop'', Uint32, 1)]"

definition perf_sink :: "c_member list" where
  "perf_sink = [
    (''sink_seq'', Uint32, 1), (''sink_packets'', Uint64, 1), (''sink_bytes'', Uint64, 1),
    (''sink_recv_errors'', Uint64, 1), (''sink_eagain'', Uint64, 1),
    (''sink_recvfrom_calls'', Uint64, 1), (''sink_recvfrom_cycles_total'', Uint64, 1),
    (''sink_recvfrom_cycles_max'', Uint32, 1), (''sink_last_errno'', Uint32, 1),
    (''sink_first_cycle'', Uint32, 1), (''sink_last_cycle'', Uint32, 1),
    (''sink_last_len'', Uint32, 1)]"

definition perf_ip :: "c_member list" where
  "perf_ip = [
    (''net_ip_vhlerr'', Uint32, 1), (''net_ip_hblenerr'', Uint32, 1),
    (''net_ip_lblenerr'', Uint32, 1), (''net_ip_fragerr'', Uint32, 1),
    (''net_ip_chkerr'', Uint32, 1), (''net_ip_protoerr'', Uint32, 1),
    (''net_udp_chkerr'', Uint32, 1), (''net_icmp_recv'', Uint32, 1), (''net_icmp_sent'', Uint32, 1),
    (''net_icmp_drop'', Uint32, 1), (''net_icmp_typeerr'', Uint32, 1),
    (''rx_last_icmp_src'', Uint32, 1), (''rx_last_icmp_dst'', Uint32, 1),
    (''rx_last_icmp_id'', Uint32, 1), (''rx_last_icmp_seq'', Uint32, 1)]"

definition perf_pre :: "c_member list" where
  "perf_pre = [
    (''rx_pre_dst_me'', Uint32, 1), (''rx_pre_dst_broadcast'', Uint32, 1),
    (''rx_pre_dst_multicast'', Uint32, 1), (''rx_pre_dst_other'', Uint32, 1),
    (''rx_pre_type_ipv4'', Uint32, 1), (''rx_pre_type_arp'', Uint32, 1),
    (''rx_pre_type_other'', Uint32, 1), (''rx_pre_ipv4_bad'', Uint32, 1),
    (''rx_pre_ipv4_udp'', Uint32, 1), (''rx_pre_udp_bad_len'', Uint32, 1),
    (''rx_pre_udp_port_5001'', Uint32, 1)]"

definition perf_sample :: "c_member list" where
  "perf_sample = [
    (''rx_last_sample_len'', Uint32, 1), (''rx_last_sample_status'', Uint32, 1),
    (''rx_last_sample_word0'', Uint32, 1), (''rx_last_sample_word1'', Uint32, 1),
    (''rx_last_sample_word2'', Uint32, 1), (''rx_last_sample_word3'', Uint32, 1),
    (''rx_last_sample_word4'', Uint32, 1), (''rx_last_sample_word5'', Uint32, 1),
    (''rx_last_sample_word6'', Uint32, 1), (''rx_last_sample_word7'', Uint32, 1),
    (''rx_bad_sample_seen'', Uint32, 1), (''rx_bad_sample_len'', Uint32, 1),
    (''rx_bad_sample_status'', Uint32, 1), (''rx_bad_sample_word0'', Uint32, 1),
    (''rx_bad_sample_word1'', Uint32, 1), (''rx_bad_sample_word2'', Uint32, 1),
    (''rx_bad_sample_word3'', Uint32, 1), (''rx_good_sample_seen'', Uint32, 1),
    (''rx_good_sample_len'', Uint32, 1), (''rx_good_sample_word0'', Uint32, 1),
    (''rx_good_sample_word1'', Uint32, 1), (''rx_good_sample_word2'', Uint32, 1),
    (''rx_good_sample_word3'', Uint32, 1)]"

definition perf_tx :: "c_member list" where
  "perf_tx = [
    (''tx_send_calls'', Uint64, 1), (''tx_send_read_fail'', Uint64, 1),
    (''tx_setup_calls'', Uint64, 1), (''tx_setup_no_dma'', Uint64, 1),
    (''tx_setup_busy'', Uint64, 1), (''tx_dma_config_fail'', Uint64, 1),
    (''tx_dma_reload_fail'', Uint64, 1), (''tx_dma_start_fail'', Uint64, 1),
    (''tx_dma_start_ok'', Uint64, 1), (''tx_dma_completed'', Uint64, 1),
    (''tx_dma_error'', Uint64, 1), (''tx_last_len'', Uint32, 1), (''tx_last_ret'', Uint32, 1),
    (''tx_last_word0'', Uint32, 1), (''tx_last_word1'', Uint32, 1), (''tx_last_word2'', Uint32, 1),
    (''tx_last_word3'', Uint32, 1), (''tx_last_icmp_src'', Uint32, 1),
    (''tx_last_icmp_dst'', Uint32, 1), (''tx_last_icmp_id'', Uint32, 1),
    (''tx_last_icmp_seq'', Uint32, 1)]"

definition perf_rx_ext :: "c_member list" where
  "perf_rx_ext = [
    (''rx_ext_magic'', Uint32, 1), (''rx_ext_len'', Uint32, 1), (''rx_ext_word0'', Uint32, 1),
    (''rx_ext_word1'', Uint32, 1), (''rx_ext_word2'', Uint32, 1), (''rx_ext_word3'', Uint32, 1),
    (''rx_ext_word4'', Uint32, 1), (''rx_ext_word5'', Uint32, 1), (''rx_ext_word6'', Uint32, 1),
    (''rx_ext_word7'', Uint32, 1), (''rx_ext_word8'', Uint32, 1), (''rx_ext_word9'', Uint32, 1),
    (''rx_ext_word10'', Uint32, 1), (''rx_ext_word11'', Uint32, 1), (''rx_ext_word12'', Uint32, 1),
    (''rx_ext_word13'', Uint32, 1), (''rx_ext_word14'', Uint32, 1), (''rx_ext_word15'', Uint32, 1)]"

definition perf_tx_ext :: "c_member list" where
  "perf_tx_ext = [
    (''tx_ext_magic'', Uint32, 1), (''tx_ext_len'', Uint32, 1), (''tx_ext_word0'', Uint32, 1),
    (''tx_ext_word1'', Uint32, 1), (''tx_ext_word2'', Uint32, 1), (''tx_ext_word3'', Uint32, 1),
    (''tx_ext_word4'', Uint32, 1), (''tx_ext_word5'', Uint32, 1), (''tx_ext_word6'', Uint32, 1),
    (''tx_ext_word7'', Uint32, 1), (''tx_ext_word8'', Uint32, 1), (''tx_ext_word9'', Uint32, 1),
    (''tx_ext_word10'', Uint32, 1), (''tx_ext_word11'', Uint32, 1), (''tx_ext_word12'', Uint32, 1),
    (''tx_ext_word13'', Uint32, 1), (''tx_ext_word14'', Uint32, 1), (''tx_ext_word15'', Uint32, 1)]"

definition perf_r7 :: "c_member list" where
  "perf_r7 = [
    (''r7_magic'', Uint32, 1), (''r7_hz'', Uint32, 1), (''r7_samples'', Uint32, 8),
    (''r7_sum_lo'', Uint32, 8), (''r7_sum_hi'', Uint32, 8), (''r7_max'', Uint32, 8),
    (''r7_lock_acquisitions'', Uint32, 1), (''r7_irq_disabled_cycles_max'', Uint32, 1)]"

text \<open>The struct with and without \<^verbatim>\<open>CONFIG_ETH_EMACZERO_R7_INSTRUMENTATION\<close>.\<close>

definition emaczero_perf_stats :: "bool \<Rightarrow> c_member list" where
  "emaczero_perf_stats r7 = perf_board @ perf_gate @ perf_dma @ perf_rx @ perf_pool @ perf_net @ perf_sink @
     perf_ip @ perf_pre @ perf_sample @ perf_tx @ perf_rx_ext @ perf_tx_ext @ (if r7 then perf_r7 else [])"

definition emacz_jtag_mailbox_members :: "c_member list" where
  "emacz_jtag_mailbox_members = [
    (''magic'', Uint32, 1), (''epoch'', Uint32, 1), (''ip'', Uint32, 1), (''gateway'', Uint32, 1),
    (''prefix'', Uint32, 1), (''reserved'', Uint32, 1), (''ack_epoch'', Uint32, 1), (''status'', Uint32, 1)]"

section \<open>The positions of the model\<close>

text \<open>
  Every field the model names: the name of the member, the position PerfStats gives its
  first element and the number of elements.
\<close>

fun stat_place :: "stat32 + stat64 \<Rightarrow> nat \<Rightarrow> nat \<times> nat" where
  "stat_place (Inl (S32 w)) k = (4 * w, 4 * k)"
| "stat_place (Inr (S64 w)) k = (4 * w, 8 * k)"

definition perf_board_model :: "(string \<times> (stat32 + stat64) \<times> nat) list" where
  "perf_board_model = [
    (''magic'', Inl Magic, 1), (''version'', Inl Version, 1),
    (''cycles_per_sec'', Inl Cycles_per_sec, 1), (''rx_pool_size'', Inl Rx_pool_size, 1),
    (''uptime_ms'', Inl Uptime_ms, 1), (''cycle_delta_1s'', Inl Cycle_delta_1s, 1),
    (''cycle_delta_30s'', Inl Cycle_delta_30s, 1), (''mac_rx_frames'', Inl Mac_rx_frames, 1),
    (''mac_rx_bytes'', Inl Mac_rx_bytes, 1), (''mac_rx_err'', Inl Mac_rx_err, 1),
    (''mac_rx_err_align'', Inl Mac_rx_err_align, 1),
    (''mac_rx_err_overflow'', Inl Mac_rx_err_overflow, 1),
    (''mac_rx_err_oversize'', Inl Mac_rx_err_oversize, 1), (''mac_rx_bcast'', Inl Mac_rx_bcast, 1),
    (''mac_rx_mcast'', Inl Mac_rx_mcast, 1), (''mac_rx_size_1024_1518'', Inl Mac_rx_size_1024_1518, 1)]"

definition perf_gate_model :: "(string \<times> (stat32 + stat64) \<times> nat) list" where
  "perf_gate_model = [
    (''gate_magic'', Inl Gate_magic, 1), (''gate_good_frames'', Inl Gate_good_frames, 1),
    (''gate_dropped_bad_frames'', Inl Gate_dropped_bad_frames, 1),
    (''gate_dropped_overflow_frames'', Inl Gate_dropped_overflow_frames, 1),
    (''gate_drain_samples'', Inl Gate_drain_samples, 1),
    (''gate_drain_cycles_total'', Inl Gate_drain_cycles_total, 1),
    (''gate_drain_cycles_max'', Inl Gate_drain_cycles_max, 1),
    (''gate_drain_lt_50us'', Inl Gate_drain_lt_50us, 1),
    (''gate_drain_50_100us'', Inl Gate_drain_50_100us, 1),
    (''gate_drain_100_200us'', Inl Gate_drain_100_200us, 1),
    (''gate_drain_200_500us'', Inl Gate_drain_200_500us, 1),
    (''gate_drain_ge_500us'', Inl Gate_drain_ge_500us, 1),
    (''gate_drain_tready_low_cycles'', Inl Gate_drain_tready_low_cycles, 1),
    (''gate_drain_tready_low_cycles_max'', Inl Gate_drain_tready_low_cycles_max, 1),
    (''gate_drain_tready_low_samples'', Inl Gate_drain_tready_low_samples, 1),
    (''_reserved_v12'', Inl (S32 31), 1)]"

definition perf_dma_model :: "(string \<times> (stat32 + stat64) \<times> nat) list" where
  "perf_dma_model = [
    (''dma_callbacks'', Inr Dma_callbacks, 1), (''dma_errors'', Inr Dma_errors, 1),
    (''dma_callback_gap_cycles_max'', Inl Dma_callback_gap_cycles_max, 1),
    (''dma_callback_gap_ge_1ms'', Inl Dma_callback_gap_ge_1ms, 1),
    (''rx_refill_cycles_max'', Inl Rx_refill_cycles_max, 1),
    (''rx_refill_cycles_ge_1ms'', Inl Rx_refill_cycles_ge_1ms, 1),
    (''rx_refill_queued_max'', Inl Rx_refill_queued_max, 1), (''_reserved_v10'', Inl (S32 41), 1),
    (''rx_bd_hw_completed'', Inr Rx_bd_hw_completed, 1), (''rx_bd_refilled'', Inr Rx_bd_refilled, 1),
    (''rx_bd_tail_updates'', Inr Rx_bd_tail_updates, 1), (''rx_bd_no_free'', Inr Rx_bd_no_free, 1),
    (''rx_irq_count'', Inr Rx_irq_count, 1),
    (''rx_bd_available_current'', Inl Rx_bd_available_current, 1),
    (''rx_bd_available_min'', Inl Rx_bd_available_min, 1),
    (''rx_poll_completed_max'', Inl Rx_poll_completed_max, 1),
    (''rx_bd_errors'', Inl Rx_bd_errors, 1), (''rx_dma_recoveries'', Inl Rx_dma_recoveries, 1)]"

definition perf_rx_model :: "(string \<times> (stat32 + stat64) \<times> nat) list" where
  "perf_rx_model = [
    (''rx_worker_packets'', Inr Rx_worker_packets, 1), (''rx_invalid'', Inr Rx_invalid, 1),
    (''rx_alloc_pkt_fail'', Inr Rx_alloc_pkt_fail, 1),
    (''rx_alloc_frag_fail'', Inr Rx_alloc_frag_fail, 1),
    (''rx_alloc_pkt_zc_fail'', Inr Rx_alloc_pkt_zc_fail, 1),
    (''rx_alloc_pkt_copy_fail'', Inr Rx_alloc_pkt_copy_fail, 1),
    (''rx_copy_write_fail'', Inr Rx_copy_write_fail, 1),
    (''rx_zero_copy_submit'', Inr Rx_zero_copy_submit, 1),
    (''rx_copy_submit'', Inr Rx_copy_submit, 1), (''rx_net_recv_fail'', Inr Rx_net_recv_fail, 1),
    (''rx_released'', Inr Rx_released, 1), (''rx_refill_calls'', Inr Rx_refill_calls, 1),
    (''rx_refill_queued'', Inr Rx_refill_queued, 1),
    (''rx_refill_no_free'', Inr Rx_refill_no_free, 1),
    (''rx_dma_config_calls'', Inr Rx_dma_config_calls, 1),
    (''rx_dma_reload_calls'', Inr Rx_dma_reload_calls, 1),
    (''rx_dma_start_calls'', Inr Rx_dma_start_calls, 1),
    (''rx_dma_config_fail'', Inr Rx_dma_config_fail, 1),
    (''rx_dma_reload_fail'', Inr Rx_dma_reload_fail, 1),
    (''rx_dma_start_fail'', Inr Rx_dma_start_fail, 1)]"

definition perf_pool_model :: "(string \<times> (stat32 + stat64) \<times> nat) list" where
  "perf_pool_model = [
    (''rx_pool_inflight_current'', Inl Rx_pool_inflight_current, 1),
    (''rx_pool_inflight_high'', Inl Rx_pool_inflight_high, 1),
    (''rx_free_current'', Inl Rx_free_current, 1),
    (''rx_dma_fifo_current'', Inl Rx_dma_fifo_current, 1),
    (''rx_ready_fifo_current'', Inl Rx_ready_fifo_current, 1),
    (''rx_worker_current'', Inl Rx_worker_current, 1),
    (''rx_stack_owned_current'', Inl Rx_stack_owned_current, 1),
    (''rx_owner_sum_current'', Inl Rx_owner_sum_current, 1),
    (''rx_owner_sum_bad'', Inl Rx_owner_sum_bad, 1),
    (''rx_max_dma_inflight'', Inl Rx_max_dma_inflight, 1),
    (''rx_max_stack_owned'', Inl Rx_max_stack_owned, 1), (''rx_min_free'', Inl Rx_min_free, 1),
    (''rx_dwell_samples'', Inr Rx_dwell_samples, 1),
    (''rx_dwell_cycles_total'', Inr Rx_dwell_cycles_total, 1),
    (''rx_dwell_cycles_max'', Inl Rx_dwell_cycles_max, 1),
    (''rx_dwell_lt_1ms'', Inl Rx_dwell_lt_1ms, 1), (''rx_dwell_1_5ms'', Inl Rx_dwell_1_5ms, 1),
    (''rx_dwell_5_20ms'', Inl Rx_dwell_5_20ms, 1), (''rx_dwell_20_100ms'', Inl Rx_dwell_20_100ms, 1),
    (''rx_dwell_ge_100ms'', Inl Rx_dwell_ge_100ms, 1)]"

definition perf_net_model :: "(string \<times> (stat32 + stat64) \<times> nat) list" where
  "perf_net_model = [
    (''net_udp_recv'', Inl Net_udp_recv, 1), (''net_udp_drop'', Inl Net_udp_drop, 1),
    (''net_ipv4_recv'', Inl Net_ipv4_recv, 1), (''net_ipv4_drop'', Inl Net_ipv4_drop, 1),
    (''net_processing_error'', Inl Net_processing_error, 1),
    (''net_pkt_filter_rx_drop'', Inl Net_pkt_filter_rx_drop, 1),
    (''net_pkt_filter_rx_ipv4_drop'', Inl Net_pkt_filter_rx_ipv4_drop, 1),
    (''net_pkt_filter_rx_local_drop'', Inl Net_pkt_filter_rx_local_drop, 1)]"

definition perf_sink_model :: "(string \<times> (stat32 + stat64) \<times> nat) list" where
  "perf_sink_model = [
    (''sink_seq'', Inl Sink_seq, 1), (''sink_packets'', Inr Sink_packets, 1),
    (''sink_bytes'', Inr Sink_bytes, 1), (''sink_recv_errors'', Inr Sink_recv_errors, 1),
    (''sink_eagain'', Inr Sink_eagain, 1), (''sink_recvfrom_calls'', Inr Sink_recvfrom_calls, 1),
    (''sink_recvfrom_cycles_total'', Inr Sink_recvfrom_cycles_total, 1),
    (''sink_recvfrom_cycles_max'', Inl Sink_recvfrom_cycles_max, 1),
    (''sink_last_errno'', Inl Sink_last_errno, 1), (''sink_first_cycle'', Inl Sink_first_cycle, 1),
    (''sink_last_cycle'', Inl Sink_last_cycle, 1), (''sink_last_len'', Inl Sink_last_len, 1)]"

definition perf_ip_model :: "(string \<times> (stat32 + stat64) \<times> nat) list" where
  "perf_ip_model = [
    (''net_ip_vhlerr'', Inl Net_ip_vhlerr, 1), (''net_ip_hblenerr'', Inl Net_ip_hblenerr, 1),
    (''net_ip_lblenerr'', Inl Net_ip_lblenerr, 1), (''net_ip_fragerr'', Inl Net_ip_fragerr, 1),
    (''net_ip_chkerr'', Inl Net_ip_chkerr, 1), (''net_ip_protoerr'', Inl Net_ip_protoerr, 1),
    (''net_udp_chkerr'', Inl Net_udp_chkerr, 1), (''net_icmp_recv'', Inl Net_icmp_recv, 1),
    (''net_icmp_sent'', Inl Net_icmp_sent, 1), (''net_icmp_drop'', Inl Net_icmp_drop, 1),
    (''net_icmp_typeerr'', Inl Net_icmp_typeerr, 1), (''rx_last_icmp_src'', Inl Rx_last_icmp_src, 1),
    (''rx_last_icmp_dst'', Inl Rx_last_icmp_dst, 1), (''rx_last_icmp_id'', Inl Rx_last_icmp_id, 1),
    (''rx_last_icmp_seq'', Inl Rx_last_icmp_seq, 1)]"

definition perf_pre_model :: "(string \<times> (stat32 + stat64) \<times> nat) list" where
  "perf_pre_model = [
    (''rx_pre_dst_me'', Inl Rx_pre_dst_me, 1),
    (''rx_pre_dst_broadcast'', Inl Rx_pre_dst_broadcast, 1),
    (''rx_pre_dst_multicast'', Inl Rx_pre_dst_multicast, 1),
    (''rx_pre_dst_other'', Inl Rx_pre_dst_other, 1), (''rx_pre_type_ipv4'', Inl Rx_pre_type_ipv4, 1),
    (''rx_pre_type_arp'', Inl Rx_pre_type_arp, 1), (''rx_pre_type_other'', Inl Rx_pre_type_other, 1),
    (''rx_pre_ipv4_bad'', Inl Rx_pre_ipv4_bad, 1), (''rx_pre_ipv4_udp'', Inl Rx_pre_ipv4_udp, 1),
    (''rx_pre_udp_bad_len'', Inl Rx_pre_udp_bad_len, 1),
    (''rx_pre_udp_port_5001'', Inl Rx_pre_udp_port_5001, 1)]"

definition perf_sample_model :: "(string \<times> (stat32 + stat64) \<times> nat) list" where
  "perf_sample_model = [
    (''rx_last_sample_len'', Inl Rx_last_sample_len, 1),
    (''rx_last_sample_status'', Inl Rx_last_sample_status, 1),
    (''rx_last_sample_word0'', Inl (Rx_last_sample_word 0), 1),
    (''rx_last_sample_word1'', Inl (Rx_last_sample_word 1), 1),
    (''rx_last_sample_word2'', Inl (Rx_last_sample_word 2), 1),
    (''rx_last_sample_word3'', Inl (Rx_last_sample_word 3), 1),
    (''rx_last_sample_word4'', Inl (Rx_last_sample_word 4), 1),
    (''rx_last_sample_word5'', Inl (Rx_last_sample_word 5), 1),
    (''rx_last_sample_word6'', Inl (Rx_last_sample_word 6), 1),
    (''rx_last_sample_word7'', Inl (Rx_last_sample_word 7), 1),
    (''rx_bad_sample_seen'', Inl Rx_bad_sample_seen, 1),
    (''rx_bad_sample_len'', Inl Rx_bad_sample_len, 1),
    (''rx_bad_sample_status'', Inl Rx_bad_sample_status, 1),
    (''rx_bad_sample_word0'', Inl (Rx_bad_sample_word 0), 1),
    (''rx_bad_sample_word1'', Inl (Rx_bad_sample_word 1), 1),
    (''rx_bad_sample_word2'', Inl (Rx_bad_sample_word 2), 1),
    (''rx_bad_sample_word3'', Inl (Rx_bad_sample_word 3), 1),
    (''rx_good_sample_seen'', Inl Rx_good_sample_seen, 1),
    (''rx_good_sample_len'', Inl Rx_good_sample_len, 1),
    (''rx_good_sample_word0'', Inl (Rx_good_sample_word 0), 1),
    (''rx_good_sample_word1'', Inl (Rx_good_sample_word 1), 1),
    (''rx_good_sample_word2'', Inl (Rx_good_sample_word 2), 1),
    (''rx_good_sample_word3'', Inl (Rx_good_sample_word 3), 1)]"

definition perf_tx_model :: "(string \<times> (stat32 + stat64) \<times> nat) list" where
  "perf_tx_model = [
    (''tx_send_calls'', Inr Tx_send_calls, 1), (''tx_send_read_fail'', Inr Tx_send_read_fail, 1),
    (''tx_setup_calls'', Inr Tx_setup_calls, 1), (''tx_setup_no_dma'', Inr Tx_setup_no_dma, 1),
    (''tx_setup_busy'', Inr Tx_setup_busy, 1), (''tx_dma_config_fail'', Inr Tx_dma_config_fail, 1),
    (''tx_dma_reload_fail'', Inr Tx_dma_reload_fail, 1),
    (''tx_dma_start_fail'', Inr Tx_dma_start_fail, 1), (''tx_dma_start_ok'', Inr Tx_dma_start_ok, 1),
    (''tx_dma_completed'', Inr Tx_dma_completed, 1), (''tx_dma_error'', Inr Tx_dma_error, 1),
    (''tx_last_len'', Inl Tx_last_len, 1), (''tx_last_ret'', Inl Tx_last_ret, 1),
    (''tx_last_word0'', Inl (Tx_last_word 0), 1), (''tx_last_word1'', Inl (Tx_last_word 1), 1),
    (''tx_last_word2'', Inl (Tx_last_word 2), 1), (''tx_last_word3'', Inl (Tx_last_word 3), 1),
    (''tx_last_icmp_src'', Inl Tx_last_icmp_src, 1), (''tx_last_icmp_dst'', Inl Tx_last_icmp_dst, 1),
    (''tx_last_icmp_id'', Inl Tx_last_icmp_id, 1), (''tx_last_icmp_seq'', Inl Tx_last_icmp_seq, 1)]"

definition perf_rx_ext_model :: "(string \<times> (stat32 + stat64) \<times> nat) list" where
  "perf_rx_ext_model = [
    (''rx_ext_magic'', Inl Rx_ext_magic, 1), (''rx_ext_len'', Inl Rx_ext_len, 1),
    (''rx_ext_word0'', Inl (Rx_ext_word 0), 1), (''rx_ext_word1'', Inl (Rx_ext_word 1), 1),
    (''rx_ext_word2'', Inl (Rx_ext_word 2), 1), (''rx_ext_word3'', Inl (Rx_ext_word 3), 1),
    (''rx_ext_word4'', Inl (Rx_ext_word 4), 1), (''rx_ext_word5'', Inl (Rx_ext_word 5), 1),
    (''rx_ext_word6'', Inl (Rx_ext_word 6), 1), (''rx_ext_word7'', Inl (Rx_ext_word 7), 1),
    (''rx_ext_word8'', Inl (Rx_ext_word 8), 1), (''rx_ext_word9'', Inl (Rx_ext_word 9), 1),
    (''rx_ext_word10'', Inl (Rx_ext_word 10), 1), (''rx_ext_word11'', Inl (Rx_ext_word 11), 1),
    (''rx_ext_word12'', Inl (Rx_ext_word 12), 1), (''rx_ext_word13'', Inl (Rx_ext_word 13), 1),
    (''rx_ext_word14'', Inl (Rx_ext_word 14), 1), (''rx_ext_word15'', Inl (Rx_ext_word 15), 1)]"

definition perf_tx_ext_model :: "(string \<times> (stat32 + stat64) \<times> nat) list" where
  "perf_tx_ext_model = [
    (''tx_ext_magic'', Inl Tx_ext_magic, 1), (''tx_ext_len'', Inl Tx_ext_len, 1),
    (''tx_ext_word0'', Inl (Tx_ext_word 0), 1), (''tx_ext_word1'', Inl (Tx_ext_word 1), 1),
    (''tx_ext_word2'', Inl (Tx_ext_word 2), 1), (''tx_ext_word3'', Inl (Tx_ext_word 3), 1),
    (''tx_ext_word4'', Inl (Tx_ext_word 4), 1), (''tx_ext_word5'', Inl (Tx_ext_word 5), 1),
    (''tx_ext_word6'', Inl (Tx_ext_word 6), 1), (''tx_ext_word7'', Inl (Tx_ext_word 7), 1),
    (''tx_ext_word8'', Inl (Tx_ext_word 8), 1), (''tx_ext_word9'', Inl (Tx_ext_word 9), 1),
    (''tx_ext_word10'', Inl (Tx_ext_word 10), 1), (''tx_ext_word11'', Inl (Tx_ext_word 11), 1),
    (''tx_ext_word12'', Inl (Tx_ext_word 12), 1), (''tx_ext_word13'', Inl (Tx_ext_word 13), 1),
    (''tx_ext_word14'', Inl (Tx_ext_word 14), 1), (''tx_ext_word15'', Inl (Tx_ext_word 15), 1)]"

definition perf_r7_model :: "(string \<times> (stat32 + stat64) \<times> nat) list" where
  "perf_r7_model = [
    (''r7_magic'', Inl R7_magic, 1), (''r7_hz'', Inl R7_hz, 1),
    (''r7_samples'', Inl (R7_samples 0), 8), (''r7_sum_lo'', Inl (R7_sum_lo 0), 8),
    (''r7_sum_hi'', Inl (R7_sum_hi 0), 8), (''r7_max'', Inl (R7_max 0), 8),
    (''r7_lock_acquisitions'', Inl R7_lock_acquisitions, 1),
    (''r7_irq_disabled_cycles_max'', Inl R7_irq_disabled_cycles_max, 1)]"

definition model_fields :: "(string \<times> (stat32 + stat64) \<times> nat) list" where
  "model_fields = perf_board_model @ perf_gate_model @ perf_dma_model @ perf_rx_model @ perf_pool_model @
     perf_net_model @ perf_sink_model @ perf_ip_model @ perf_pre_model @ perf_sample_model @
     perf_tx_model @ perf_rx_ext_model @ perf_tx_ext_model @ perf_r7_model"

section \<open>Layout in general\<close>

lemma align_up_bounds:
  assumes "0 < a"
  shows "x \<le> align_up a x" and "align_up a x < x + a" and "a dvd align_up a x"
proof -
  have eq: "(x + a - 1) div a * a + (x + a - 1) mod a = x + a - 1" by (rule div_mult_mod_eq)
  have "(x + a - 1) mod a < a" using assms by simp
  with eq assms show "x \<le> align_up a x" "align_up a x < x + a" unfolding align_up_def by linarith+
  show "a dvd align_up a x" by (simp add: align_up_def)
qed

lemma c_align_pos [simp]: "0 < c_align m"
  by (cases m; cases "fst (snd m)") auto

definition before :: "nat \<times> c_member \<Rightarrow> nat \<times> c_member \<Rightarrow> bool" where
  "before p q \<longleftrightarrow> fst p + c_bytes (snd p) \<le> fst q"

lemma c_layout_bounds:
  "at \<le> c_end at ms"
  "(ofs, m) \<in> set (c_layout at ms) \<Longrightarrow> at \<le> ofs \<and> ofs + c_bytes m \<le> c_end at ms \<and> c_align m dvd ofs"
proof (induction ms arbitrary: at)
  case (Cons x ms)
  { case 1
    have "at \<le> align_up (c_align x) at + c_bytes x"
      by (rule trans_le_add1) (rule align_up_bounds [OF c_align_pos])
    also have "\<dots> \<le> c_end (align_up (c_align x) at + c_bytes x) ms" by (rule Cons(1))
    finally show ?case by simp
  next
    case 2
    note a = align_up_bounds [OF c_align_pos [of x], of at]
      and rest = Cons(1,2) [of "align_up (c_align x) at + c_bytes x"]
    from 2 consider "ofs = align_up (c_align x) at" "m = x"
      | "(ofs, m) \<in> set (c_layout (align_up (c_align x) at + c_bytes x) ms)"
      by (auto simp: Let_def)
    then show ?case using a rest by cases auto }
qed simp_all

lemma c_layout_sorted: "sorted_wrt before (c_layout at ms)"
  using c_layout_bounds(2) by (induction ms arbitrary: at) (fastforce simp: Let_def before_def)+

lemma c_end_append: "c_end at (ms @ ns) = c_end (c_end at ms) ns"
  by (induction ms arbitrary: at) simp_all

lemma c_layout_append: "c_layout at (ms @ ns) = c_layout at ms @ c_layout (c_end at ms) ns"
  by (induction ms arbitrary: at) (simp_all add: Let_def)

section \<open>The block the host reads\<close>

text \<open>
  Each group, laid out from where the one before ends, is where the model has its fields.
\<close>

definition placed :: "nat \<Rightarrow> c_member list \<Rightarrow> (string \<times> (stat32 + stat64) \<times> nat) list \<Rightarrow> nat \<Rightarrow> bool" where
  "placed at ms fs end_at \<longleftrightarrow> c_places at ms = map (\<lambda>(name, st, n). (name, stat_place st n)) fs \<and>
     c_end at ms = end_at"

lemma placed_append:
  assumes "placed at ms fs mid" and "placed mid ms' fs' end_at"
  shows "placed at (ms @ ms') (fs @ fs') end_at"
  using assms by (simp add: placed_def c_places_def c_layout_append c_end_append)

lemma perf_board_placed: "placed 0 perf_board perf_board_model 64"
  by (simp add: placed_def c_places_def perf_board_def perf_board_model_def align_up_def Let_def)

lemma perf_gate_placed: "placed 64 perf_gate perf_gate_model 128"
  by (simp add: placed_def c_places_def perf_gate_def perf_gate_model_def align_up_def Let_def)

lemma perf_dma_placed: "placed 128 perf_dma perf_dma_model 228"
  by (simp add: placed_def c_places_def perf_dma_def perf_dma_model_def align_up_def Let_def)

lemma perf_rx_placed: "placed 228 perf_rx perf_rx_model 392"
  by (simp add: placed_def c_places_def perf_rx_def perf_rx_model_def align_up_def Let_def)

lemma perf_pool_placed: "placed 392 perf_pool perf_pool_model 480"
  by (simp add: placed_def c_places_def perf_pool_def perf_pool_model_def align_up_def Let_def)

lemma perf_net_placed: "placed 480 perf_net perf_net_model 512"
  by (simp add: placed_def c_places_def perf_net_def perf_net_model_def align_up_def Let_def)

lemma perf_sink_placed: "placed 512 perf_sink perf_sink_model 588"
  by (simp add: placed_def c_places_def perf_sink_def perf_sink_model_def align_up_def Let_def)

lemma perf_ip_placed: "placed 588 perf_ip perf_ip_model 648"
  by (simp add: placed_def c_places_def perf_ip_def perf_ip_model_def align_up_def Let_def)

lemma perf_pre_placed: "placed 648 perf_pre perf_pre_model 692"
  by (simp add: placed_def c_places_def perf_pre_def perf_pre_model_def align_up_def Let_def)

lemma perf_sample_placed: "placed 692 perf_sample perf_sample_model 784"
  by (simp add: placed_def c_places_def perf_sample_def perf_sample_model_def align_up_def Let_def)

lemma perf_tx_placed: "placed 784 perf_tx perf_tx_model 912"
  by (simp add: placed_def c_places_def perf_tx_def perf_tx_model_def align_up_def Let_def)

lemma perf_rx_ext_placed: "placed 912 perf_rx_ext perf_rx_ext_model 984"
  by (simp add: placed_def c_places_def perf_rx_ext_def perf_rx_ext_model_def align_up_def Let_def)

lemma perf_tx_ext_placed: "placed 984 perf_tx_ext perf_tx_ext_model 1056"
  by (simp add: placed_def c_places_def perf_tx_ext_def perf_tx_ext_model_def align_up_def Let_def)

lemma perf_r7_placed: "placed 1056 perf_r7 perf_r7_model 1200"
  by (simp add: placed_def c_places_def perf_r7_def perf_r7_model_def align_up_def Let_def)

lemmas groups_placed = perf_board_placed perf_gate_placed perf_dma_placed perf_rx_placed perf_pool_placed perf_net_placed
  perf_sink_placed perf_ip_placed perf_pre_placed perf_sample_placed perf_tx_placed perf_rx_ext_placed
  perf_tx_ext_placed perf_r7_placed

lemma perf_stats_placed:
  "placed 0 (emaczero_perf_stats True) model_fields 1200"
  unfolding emaczero_perf_stats_def model_fields_def if_True by (rule placed_append groups_placed)+

lemma perf_stats_end: "c_end 0 (emaczero_perf_stats r7) = (if r7 then 1200 else 1056)"
  using groups_placed by (simp add: emaczero_perf_stats_def c_end_append placed_def)

lemma r7_appended:
  "c_layout 0 (emaczero_perf_stats True) = c_layout 0 (emaczero_perf_stats False) @
     c_layout (c_end 0 (emaczero_perf_stats False)) perf_r7"
  by (simp add: emaczero_perf_stats_def c_layout_append flip: append_assoc)

lemma perf_stats_page:
  assumes "dma_window_ok k"
  shows "unat (EMACZERO_PERF_STATS_ADDR k) + 0x1000 = unat (dma_memory_base k) + unat (dma_memory_size k)"
    and "unat (EMACZERO_JTAG_MAILBOX_ADDR k) + 0x1000 = unat (EMACZERO_PERF_STATS_ADDR k)"
proof -
  have e: "unat (dma_memory_base k + dma_memory_size k) = unat (dma_memory_base k) + unat (dma_memory_size k)"
    using assms by (simp add: dma_window_ok_def unat_add_no_wrap)
  have le: "(0x1000 :: u32) \<le> dma_memory_base k + dma_memory_size k"
    using assms by (simp add: word_le_nat_alt e dma_window_ok_def)
  show top: "unat (EMACZERO_PERF_STATS_ADDR k) + 0x1000 = unat (dma_memory_base k) + unat (dma_memory_size k)"
    using unat_sub [OF le] assms by (simp add: EMACZERO_PERF_STATS_ADDR_def e dma_window_ok_def)
  show "unat (EMACZERO_JTAG_MAILBOX_ADDR k) + 0x1000 = unat (EMACZERO_PERF_STATS_ADDR k)"
    using top dma_reset_window(3) [OF assms] assms by (simp add: dma_window_ok_def)
qed

text \<open>
  C17: the statistics block as a host finds it. Every field is at the position the model
  gives it, the numbered words and the R7 arrays (eight samples, then eight low sums, eight
  high sums and eight maxima) in a row; the fields do not overlap, 64-bit ones are aligned
  to 8 bytes; the block ends inside the last 4 KiB of the DMA memory and the mailbox inside
  the 4 KiB before; and the R7 fields come after all others, so that no offset depends on
  the option.
\<close>

theorem perf_block_layout:
  assumes win: "dma_window_ok k"
  shows "c_places 0 (emaczero_perf_stats True) = map (\<lambda>(name, st, n). (name, stat_place st n)) model_fields \<and>
    c_layout 0 (emaczero_perf_stats False) =
      take (length (emaczero_perf_stats False)) (c_layout 0 (emaczero_perf_stats True)) \<and>
    sorted_wrt before (c_layout 0 (emaczero_perf_stats r7)) \<and>
    (\<forall>(ofs, m) \<in> set (c_layout 0 (emaczero_perf_stats r7)). c_align m dvd ofs \<and>
      unat (EMACZERO_PERF_STATS_ADDR k) + ofs + c_bytes m \<le> unat (dma_memory_base k) + unat (dma_memory_size k)) \<and>
    unat (EMACZERO_JTAG_MAILBOX_ADDR k) + c_sizeof emacz_jtag_mailbox_members \<le> unat (EMACZERO_PERF_STATS_ADDR k)"
proof (intro conjI)
  have "length (c_layout at ms) = length ms" for at ms
    by (induction ms arbitrary: at) (simp_all add: Let_def)
  then show "c_layout 0 (emaczero_perf_stats False) =
      take (length (emaczero_perf_stats False)) (c_layout 0 (emaczero_perf_stats True))"
    by (simp add: r7_appended)
  have "c_align m dvd ofs \<and> ofs + c_bytes m \<le> 0x1000"
    if "(ofs, m) \<in> set (c_layout 0 (emaczero_perf_stats r7))" for ofs m
    using c_layout_bounds(2) [OF that] unfolding perf_stats_end by (simp split: if_splits)
  then show "\<forall>(ofs, m) \<in> set (c_layout 0 (emaczero_perf_stats r7)). c_align m dvd ofs \<and>
      unat (EMACZERO_PERF_STATS_ADDR k) + ofs + c_bytes m \<le> unat (dma_memory_base k) + unat (dma_memory_size k)"
    unfolding perf_stats_page(1) [OF win, symmetric] by fastforce
  have "c_sizeof emacz_jtag_mailbox_members = 32" by (simp add: c_sizeof_def emacz_jtag_mailbox_members_def align_up_def)
  then show "unat (EMACZERO_JTAG_MAILBOX_ADDR k) + c_sizeof emacz_jtag_mailbox_members \<le>
      unat (EMACZERO_PERF_STATS_ADDR k)"
    unfolding perf_stats_page(2) [OF win, symmetric] by simp
qed (use perf_stats_placed in \<open>simp add: placed_def\<close>, rule c_layout_sorted)

theorem perf_block_layout_witness:
  "dma_window_ok app_kconfig \<and> sorted_wrt before (c_layout 0 (emaczero_perf_stats True)) \<and>
   (''r7_max'', 1160, 32) \<in> set (c_places 0 (emaczero_perf_stats True))"
proof -
  have win: "dma_window_ok app_kconfig" by (simp add: dma_window_ok_def app_kconfig_def)
  note layout = perf_block_layout [OF win, of True]
  have "(''r7_max'', 1160, 32) \<in> set (map (\<lambda>(name, st, n). (name, stat_place st n)) perf_r7_model)"
    by (simp add: perf_r7_model_def)
  then show ?thesis using win layout by (simp add: model_fields_def)
qed

end
