(* ===== verification/Zperf.thy ===== *)
theory Zperf
  imports Uart
begin

text \<open>
  The zperf build of \<^verbatim>\<open>app/src/main.c\<close> (\<^verbatim>\<open>CONFIG_NET_ZPERF\<close>): instead of the UDP sink, Zephyr's
  zperf server receives on port 5001 and reports a session to \<^verbatim>\<open>zperf_status_cb\<close>, which prints
  it. The server is not part of the repository: what it answers and what it reports are
  arguments.
\<close>

section \<open>The report\<close>

text \<open>Zephyr's \<^verbatim>\<open>enum zperf_status\<close> and the fields of \<^verbatim>\<open>struct zperf_results\<close> that are printed.\<close>

datatype zperf_status =
    ZPERF_SESSION_STARTED | ZPERF_SESSION_PERIODIC_RESULT | ZPERF_SESSION_FINISHED | ZPERF_SESSION_ERROR

record zperf_results =
  nb_packets_rcvd :: u32
  nb_packets_lost :: u32
  total_len :: u64
  time_in_us :: u64

text \<open>A NULL result is \<open>None\<close>.\<close>

definition zperf_status_cb ::
  "bool \<Rightarrow> (nat \<Rightarrow> u32) \<Rightarrow> zperf_status \<Rightarrow> zperf_results option \<Rightarrow> uart \<Rightarrow> uart" where
  "zperf_status_cb raw status st result u =
     (if st = ZPERF_SESSION_STARTED then raw_uart_puts raw status (''ZPERF started'' @ crlf) u
      else if st = ZPERF_SESSION_ERROR then raw_uart_puts raw status (''ZPERF error'' @ crlf) u
      else if st \<noteq> ZPERF_SESSION_FINISHED then u
      else case result of
        None \<Rightarrow> u
      | Some r \<Rightarrow>
          let u = raw_uart_puts raw status ''ZPERF done rx_pkts=0x'' u;
              u = raw_uart_hex32 raw status (nb_packets_rcvd r) u;
              u = raw_uart_puts raw status '' lost=0x'' u;
              u = raw_uart_hex32 raw status (nb_packets_lost r) u;
              u = raw_uart_puts raw status '' bytes=0x'' u;
              u = raw_uart_hex64 raw status (total_len r) u;
              u = raw_uart_puts raw status '' usec=0x'' u;
              u = raw_uart_hex64 raw status (time_in_us r) u
          in raw_uart_puts raw status crlf u)"

definition ZPERF_PORT :: u16 where "ZPERF_PORT = 5001"

text \<open>The parameters handed to \<^verbatim>\<open>zperf_udp_download\<close> hold the port twice; \<open>download\<close> is its answer.\<close>

definition start_zperf_server ::
  "bool \<Rightarrow> (nat \<Rightarrow> u32) \<Rightarrow> (u16 \<Rightarrow> u8 list \<Rightarrow> int) \<Rightarrow> uart \<Rightarrow> uart" where
  "start_zperf_server raw status download u =
     (let ret = download ZPERF_PORT (be16 ZPERF_PORT);
          u = raw_uart_puts raw status ''MBV zperf udp port 5001 ret=0x'' u;
          u = raw_uart_hex32 raw status (word_of_int ret) u
      in raw_uart_puts raw status crlf u)"

section \<open>What is printed\<close>

definition hex64_text :: "u64 \<Rightarrow> string" where
  "hex64_text v = hex_text (ucast (drop_bit 32 v)) @ hex_text (ucast v)"

text \<open>Every piece of output as a text that goes out whole on a responsive UART.\<close>

lemma hex32_responsive:
  "responsive status \<Longrightarrow> u_sent (raw_uart_hex32 True status v u) = u_sent u @ map of_char (hex_text v)"
  by (simp add: raw_uart_hex32_def hex_loop_responsive hex_text_values)

lemma hex64_responsive:
  "responsive status \<Longrightarrow> u_sent (raw_uart_hex64 True status v u) = u_sent u @ map of_char (hex64_text v)"
  by (simp add: raw_uart_hex64_def hex32_responsive hex64_text_def)

lemmas uart_responsive = puts_responsive hex32_responsive hex64_responsive

text \<open>The two halves of a 64-bit number name it.\<close>

lemma hex64_parts:
  "parse_u32_arg (''0x'' @ take 8 (hex64_text v)) = Some (ucast (drop_bit 32 v), []) \<and>
   parse_u32_arg (''0x'' @ drop 8 (hex64_text v)) = Some (ucast v, []) \<and>
   push_bit 32 (ucast (ucast (drop_bit 32 v) :: u32)) OR ucast (ucast v :: u32) = v"
proof -
  have "length (hex_text w) = 8" for w by (simp add: hex_text_def hex_values_def)
  then show ?thesis
    using parse_hex_text split_join_u64 [of v] by (simp add: hex64_text_def)
qed

text \<open>A finished session is one line with its four numbers; only a start and an error print besides.\<close>

theorem zperf_report_line:
  assumes "responsive status"
  shows "u_sent (zperf_status_cb True status st result u) = u_sent u @ map of_char
    (case (st, result) of
       (ZPERF_SESSION_STARTED, _) \<Rightarrow> ''ZPERF started'' @ crlf
     | (ZPERF_SESSION_ERROR, _) \<Rightarrow> ''ZPERF error'' @ crlf
     | (ZPERF_SESSION_FINISHED, Some r) \<Rightarrow>
         ''ZPERF done rx_pkts=0x'' @ hex_text (nb_packets_rcvd r) @ '' lost=0x'' @ hex_text (nb_packets_lost r) @
         '' bytes=0x'' @ hex64_text (total_len r) @ '' usec=0x'' @ hex64_text (time_in_us r) @ crlf
     | _ \<Rightarrow> [])"
  using assms
  by (cases st) (auto simp: zperf_status_cb_def uart_responsive Let_def split: option.split simp del: raw_uart_puts.simps)

lemma zperf_start_line:
  assumes "responsive status"
  shows "u_sent (start_zperf_server True status download u) = u_sent u @ map of_char
    (''MBV zperf udp port 5001 ret=0x'' @ hex_text (word_of_int (download 5001 (be16 5001))) @ crlf)"
  using assms
  by (simp add: start_zperf_server_def ZPERF_PORT_def uart_responsive Let_def del: raw_uart_puts.simps)

end
