(* ===== verification/Spec2Isabelle.thy ===== *)
theory Spec2Isabelle
  imports RxScenarios RecoverRace AppScenarios GenericTx PerfLayout Zperf
begin

text \<open>
  A model of the EMACZero Ethernet driver for Zephyr, of the application built around it, and of
  the SoC glue and the bare-metal smoke test of the same board.

  \<^bold>\<open>The program and its parts.\<close>
  drivers/ethernet/eth_emaczero.c is the driver.  It programs the MAC registers, posts receive
  buffers to an AXI DMA engine through a ring of descriptors, takes the completions in an
  interrupt handler or in a delayable work item, hands the filled buffers over a message queue
  to a worker thread, and the worker copies them into packets or lends them to the network
  stack without a copy; it sends through a second ring.  What it measures goes to a statistics
  block at a fixed address, which a debugger reads, and to the profiling block of
  eth_emaczero_profile.c.  app/src/main.c starts everything, registers an interceptor that
  takes UDP datagrams out of the receive path before the network stack sees them, answers a
  control socket and runs a transmit benchmark.  app/src/provision.c gives the board its IPv4
  address, by a multicast protocol whose datagrams come from that interceptor and by a mailbox
  in memory that a host writes over JTAG.  soc/bard0/arty_a7_vex/soc.c is the interrupt glue and the fatal error
  handler, sw/baremetal/mbv_ejtaguart_smoke.c a UART echo.

  \<^bold>\<open>Theories and the code they model.\<close>
  \<^item> Prelude: machine words, byte buffers whose reads fail outside, byte order.
  \<^item> Config, EmzState, Boot: the Kconfig options, struct emaczero_config and emaczero_data, the
    descriptors; the state \<open>emz\<close> is the driver's data, the trace of its hardware accesses and
    the statistics and profiling blocks.  Whatever lies outside src/ (clock, registers, kernel
    and stack calls, the DMA engine) is a field of the record \<open>env\<close>.
  \<^item> PerfStats and Profile: the statistics block as a function of its fields, the profiling
    block; every routine is one atomic step, as it runs under a lock.
    PerfLayout is struct emaczero_perf_stats member by member with its C layout.
  \<^item> DmaMem, Cache: the bump allocators over the DMA window and the D-cache maintenance.
  \<^item> RxRefill, RxPoll: posting, refilling, polling, interrupt, poll work, recovery;
    RxWorker and Frames: one round of emz_rx_thread, the frame inspection, and the completion
    callback of a device without the direct ring, whose system of steps is in GenericDma.
  \<^item> TxRing: reclaiming, waiting, sending a packet, raw frames, the burst.
  \<^item> MacRegs, Init: register access, station address, statistics, configuration, emz_init.
  \<^item> ProvCodec, InetChecksum, Provision: app/src/provision.c, with the network interface and the
    host at the mailbox as parameters.
  \<^item> AppText, Uart: numbers and replies as text, the raw UART output.  UdpSink and SinkSeqlock:
    the sink counters and the interceptor, as whole updates and as single stores.  TxBench and
    BenchRun: the transmit benchmark.  AppMain: start-up, heartbeat, control socket.  Zperf: the
    build with Zephyr's zperf server in place of the sink.
  \<^item> Soc and Smoke: the SoC glue and the smoke test.

  An operation is a function from the context and the state to its answer and the new state.
  \<open>None\<close> is a run C leaves undefined (a read outside a buffer, a NULL ring, a failed
  assertion), except where the theory says that it is a run that does not return.  Preemption
  between the contexts of the driver is a step relation, \<open>rx_step\<close> of RxSystem and
  \<open>prov_reach\<close> of ProvThread.

  \<^bold>\<open>What the lemmas show.\<close>
  \<^item> RingQueue states the ring and queue contracts as locales (a bounded FIFO, a descriptor
    ring); RxRing, TxSafety and ProvThread interpret them on the rings and the message queue of
    the code, SinkSeqlock does the same for sections under a sequence word.
  \<^item> RxOwnership defines the invariant of the receive pool: every buffer has one owner (free list,
    ring slot, ready list, worker, stack) and the counters agree.  RxPoll, RxRing and RxWorker show that every
    operation keeps it, RxSystem that every interleaving does, RxDelivery that completed
    frames reach the stack once each, in order, unchanged; Init establishes it.  What a round of
    the worker needs of a pool is the locale \<open>rx_pool\<close>; GenericDma interprets it a second time on
    the pool behind the DMA API, proves that system safe from emz_init on, and shows how a failed
    dma_start breaks it.
  \<^item> TxSafety and TxBurst do the same for sending: waits end, what is accepted is queued
    once and not overwritten, and where the burst breaks that; GenericTx shows the same for the
    two indices of the path through the DMA API, and puts its two directions together.  RecoverRace has a lost recovery request.
  \<^item> ProvSafety and ProvThread show the provisioning transactional and its handshake and mailbox
    right on every reachable state.
  \<^item> UdpSink gives the interceptor a specification over the parsed datagram, and TxBench shows
    that this same parser reads the frames the benchmark builds.  BenchRun shows that the benchmark
    ends, and a request for which its clock window is too small.  AppMain composes start-up, provisioning and
    interceptor.
  \<^item> RxScenarios, ProvScenarios and AppScenarios are the runs at concrete inputs.

  \<^bold>\<open>Bounds and fuel.\<close>
  Loops of the code are structural or well-founded recursions: tx_wait_loop by its limit (2000 and
  10000 microseconds in the code), the reclaim and poll loops by the descriptors in flight, the
  checksum folding by the sum.  Two loops can run for ever.  \<open>bench_loop\<close> takes fuel and says whether it ended:
  \<open>30 * hz + 1\<close> rounds are enough because every round takes at least one cycle and the
  duration is at most 30 seconds.  \<open>uart_wait\<close> of Smoke
  is a \<open>partial_function\<close> whose \<open>None\<close> is a UART that never drains.  \<open>smoke_turns n\<close> and the
  sequences of steps are the endless outer loops, for any number of turns.

  \<^bold>\<open>Not modelled.\<close>
  The creation of threads and their stacks; spinlocks and interrupt masking other than as atomicity of
  what runs under them; the empty release callback of the descriptor pool and the in_use flag of
  the copy fragments, which nothing reads; the delay loop of the smoke test; device-tree instantiation macros.  The hardware
  description, generated cores, and host scripts are not C.
\<close>

end
